(* ===== verification/Go_Prelude.thy ===== *)
theory Go_Prelude
  imports Main "HOL-Library.Word"
begin

text \<open>
  The parts of the Go language and its standard library that the node uses, shared by every
  component: time and durations (package \<open>time\<close>), error values with wrapping
  (\<open>errors\<close>, \<open>fmt.Errorf\<close>), contexts (\<open>context\<close>), and the collections of rewrite
  rules the component proofs draw on.
\<close>

named_theorems go_eval \<open>definitions that evaluate a call into the runtime layer on concrete arguments\<close>

section \<open>Time\<close>

text \<open>
  A reading of the clock is a number of nanoseconds.  A \<open>time.Duration\<close> is a signed 64-bit
  number of nanoseconds; it is kept as an integer here, and the one operation that can leave the
  64-bit range, \<open>Time.Sub\<close>, saturates as the library documents.
\<close>

type_synonym time = int
type_synonym duration = int

definition minDuration :: duration where
  "minDuration = - (2 ^ 63)"

definition maxDuration :: duration where
  "maxDuration = 2 ^ 63 - 1"

definition time_Sub :: "time \<Rightarrow> time \<Rightarrow> duration" where
  "time_Sub t u = max minDuration (min maxDuration (t - u))"

abbreviation second :: duration where "second \<equiv> 1000000000"
abbreviation minute :: duration where "minute \<equiv> 60000000000"

definition valid_grace :: "duration \<Rightarrow> bool" where
  "valid_grace g \<longleftrightarrow> 0 \<le> g \<and> g \<le> maxDuration"

lemma time_Sub_ge_iff [simp]:
  "valid_grace g \<Longrightarrow> g \<le> time_Sub t u \<longleftrightarrow> g \<le> t - u"
  by (auto simp: valid_grace_def time_Sub_def minDuration_def maxDuration_def)

section \<open>Errors\<close>

text \<open>
  An \<open>error\<close> value is one of the sentinels declared with \<open>errors.New\<close>, a context error, an
  error made from a string (by code outside the repository or by \<open>fmt.Errorf\<close> without
  \<open>%w\<close>), or a message wrapped around another error by \<open>fmt.Errorf("msg: %w", err)\<close>.
\<close>

datatype error =
    ErrNoAvailablePorts
  | ErrPortNotAllocated
  | ErrSessionAlreadyActive
  | ErrSessionNotFound
  | ErrContainerNotHealthy
  | ContextCanceled
  | ContextDeadlineExceeded
  | ErrorString string
  | Wrap string error

text \<open>\<open>errors.Is\<close>: the error itself or one it wraps.\<close>

fun errors_Is :: "error \<Rightarrow> error \<Rightarrow> bool" where
  "errors_Is (Wrap m e) target = (Wrap m e = target \<or> errors_Is e target)"
| "errors_Is e target = (e = target)"

lemma errors_Is_refl [simp]: "errors_Is e e"
  by (cases e) auto

text \<open>\<open>err.Error()\<close>.\<close>

fun error_text :: "error \<Rightarrow> string" where
  "error_text ErrNoAvailablePorts = ''no available ports in range''"
| "error_text ErrPortNotAllocated = ''port not allocated''"
| "error_text ErrSessionAlreadyActive = ''session already has active rental''"
| "error_text ErrSessionNotFound = ''rental session not found''"
| "error_text ErrContainerNotHealthy = ''container failed health check within timeout''"
| "error_text ContextCanceled = ''context canceled''"
| "error_text ContextDeadlineExceeded = ''context deadline exceeded''"
| "error_text (ErrorString s) = s"
| "error_text (Wrap m e) = m @ '': '' @ error_text e"

section \<open>The outside world\<close>

text \<open>
  The world a call runs in: the clock, the scheduler's delays and whatever lies outside the
  process (the Docker daemon, the Hub, the network), which the model never looks into.  A call to
  code outside the repository is a function of the world that returns its result, the time it
  took and the outside state it left.  \<open>time.Sleep\<close> lasts at least as long as asked; how
  much longer is the scheduler's choice, \<open>w_lag\<close>.
\<close>

record 'd world =
  w_clock :: time
  w_lag :: "time \<Rightarrow> nat"
  w_ext :: 'd

type_synonym ('d, 'r) ext_call = "'d world \<Rightarrow> 'r \<times> nat \<times> 'd"

definition ext_run :: "('d, 'r) ext_call \<Rightarrow> 'd world \<Rightarrow> 'r \<times> 'd world" where
  "ext_run f w = (case f w of (r, dt, d) \<Rightarrow> (r, w\<lparr>w_clock := w_clock w + int dt, w_ext := d\<rparr>))"

definition time_Sleep :: "duration \<Rightarrow> 'd world \<Rightarrow> 'd world" where
  "time_Sleep d w =
     (let t = w_clock w + max 0 d in w\<lparr>w_clock := t + int (w_lag w t)\<rparr>)"

declare ext_run_def [go_eval]

lemma ext_run_clock: "ext_run f w = (r, w') \<Longrightarrow> w_clock w \<le> w_clock w'"
  by (auto simp: ext_run_def split: prod.splits)

lemma time_Sleep_clock: "w_clock w + d \<le> w_clock (time_Sleep d w)" "w_clock w \<le> w_clock (time_Sleep d w)"
  by (auto simp: time_Sleep_def Let_def)

text \<open>
  A \<open>context.Context\<close> is read through \<open>ctx.Err()\<close>: the error it carries in a world, if it is
  done there.
\<close>

type_synonym 'd ctx = "'d world \<Rightarrow> error option"

definition ctx_Background :: "'d ctx" where
  "ctx_Background = (\<lambda>_. None)"

definition ctx_WithTimeout :: "'d ctx \<Rightarrow> duration \<Rightarrow> 'd world \<Rightarrow> 'd ctx" where
  "ctx_WithTimeout parent d w0 =
     (\<lambda>w. case parent w of Some e \<Rightarrow> Some e
          | None \<Rightarrow> if w_clock w0 + d \<le> w_clock w then Some ContextDeadlineExceeded else None)"

section \<open>Integers and strings\<close>

definition newline :: string where
  "newline = [CHR 0x0A]"

type_synonym int64 = "64 word"

lemma sint_mult_exact_iff:
  "sint (a * b) = sint a * sint b \<longleftrightarrow> - (2 ^ 63) \<le> sint a * sint b \<and> sint a * sint b < 2 ^ 63"
  for a b :: int64
  using signed_take_bit_int_eq_self_iff [of 63 "sint a * sint b"] by (simp add: sint_word_mult)

text \<open>\<open>strings.HasPrefix\<close>, \<open>TrimPrefix\<close> and \<open>TrimSuffix\<close>.\<close>

definition HasPrefix :: "string \<Rightarrow> string \<Rightarrow> bool" where
  "HasPrefix s p = (take (length p) s = p)"

definition TrimPrefix :: "string \<Rightarrow> string \<Rightarrow> string" where
  "TrimPrefix s p = (if HasPrefix s p then drop (length p) s else s)"

definition HasSuffix :: "string \<Rightarrow> string \<Rightarrow> bool" where
  "HasSuffix s p = (length p \<le> length s \<and> drop (length s - length p) s = p)"

definition TrimSuffix :: "string \<Rightarrow> string \<Rightarrow> string" where
  "TrimSuffix s p = (if HasSuffix s p then take (length s - length p) s else s)"

lemma HasPrefix_append [simp]: "HasPrefix (p @ s) p"
  by (simp add: HasPrefix_def)

lemma HasPrefix_iff: "HasPrefix s p \<longleftrightarrow> (\<exists>r. s = p @ r)"
  by (metis HasPrefix_append HasPrefix_def append_take_drop_id)

text \<open>\<open>strconv.Itoa\<close> and \<open>strconv.Atoi\<close>: decimal text of a 64-bit integer and back.\<close>

definition digit :: "nat \<Rightarrow> char" where
  "digit d = char_of (48 + d)"

fun nat_decimal :: "nat \<Rightarrow> string" where
  "nat_decimal n = (if n < 10 then [digit n] else nat_decimal (n div 10) @ [digit (n mod 10)])"

declare nat_decimal.simps [simp del]

definition Itoa :: "int \<Rightarrow> string" where
  "Itoa i = (if i < 0 then ''-'' @ nat_decimal (nat (- i)) else nat_decimal (nat i))"

definition is_digit :: "char \<Rightarrow> bool" where
  "is_digit c = (48 \<le> (of_char c :: nat) \<and> (of_char c :: nat) \<le> 57)"

definition decimal_value :: "string \<Rightarrow> nat" where
  "decimal_value s = fold (\<lambda>c n. 10 * n + (of_char c - 48)) s 0"

definition parse_nat :: "string \<Rightarrow> nat option" where
  "parse_nat s = (if s \<noteq> [] \<and> list_all is_digit s then Some (decimal_value s) else None)"

text \<open>An optional sign and decimal digits, of any size.\<close>

definition parse_int :: "string \<Rightarrow> int option" where
  "parse_int s =
     (case s of
        [] \<Rightarrow> None
      | c # cs \<Rightarrow>
          if c = CHR ''-'' then map_option (\<lambda>n. - int n) (parse_nat cs)
          else if c = CHR ''+'' then map_option int (parse_nat cs)
          else map_option int (parse_nat s))"

definition Atoi :: "string \<Rightarrow> int option" where
  "Atoi s =
     (case parse_int s of
        None \<Rightarrow> None
      | Some i \<Rightarrow> if - (2 ^ 63) \<le> i \<and> i < 2 ^ 63 then Some i else None)"

lemma of_char_digit [simp]: "d < 10 \<Longrightarrow> of_char (digit d) = 48 + d"
  by (simp add: digit_def)

lemma is_digit_digit [simp]: "d < 10 \<Longrightarrow> is_digit (digit d)"
  by (simp add: is_digit_def)

lemma nat_decimal_nonempty [simp]: "nat_decimal n \<noteq> []"
  by (subst nat_decimal.simps) simp

lemma nat_decimal_digits [simp]: "list_all is_digit (nat_decimal n)"
proof (induction n rule: nat_decimal.induct)
  case (1 n)
  then show ?case by (subst nat_decimal.simps) simp
qed

lemma decimal_value_snoc:
  "decimal_value (s @ [c]) = 10 * decimal_value s + (of_char c - 48)"
  by (simp add: decimal_value_def)

lemma decimal_value_nat_decimal [simp]: "decimal_value (nat_decimal n) = n"
proof (induction n rule: nat_decimal.induct)
  case (1 n)
  show ?case
  proof (cases "n < 10")
    case True
    then show ?thesis
      using decimal_value_snoc [of "[]" "digit n"]
      by (subst nat_decimal.simps) (simp add: decimal_value_def)
  next
    case False
    with 1 show ?thesis by (subst nat_decimal.simps) (simp add: decimal_value_snoc)
  qed
qed

lemma parse_nat_decimal [simp]: "parse_nat (nat_decimal n) = Some n"
  by (simp add: parse_nat_def)

lemma hd_nat_decimal: "is_digit (hd (nat_decimal n))"
  using nat_decimal_digits [of n] by (cases "nat_decimal n") simp_all

lemma parse_int_Itoa [simp]: "parse_int (Itoa i) = Some i"
proof (cases "i < 0")
  case True
  then show ?thesis by (simp add: Itoa_def parse_int_def)
next
  case False
  obtain c cs where c: "nat_decimal (nat i) = c # cs" by (cases "nat_decimal (nat i)") auto
  with hd_nat_decimal [of "nat i"] have "c \<noteq> CHR ''-''" "c \<noteq> CHR ''+''"
    by (auto simp: is_digit_def)
  with False c show ?thesis
    using parse_nat_decimal [of "nat i"] by (simp add: Itoa_def parse_int_def)
qed

lemma Atoi_Itoa: "- (2 ^ 63) \<le> i \<Longrightarrow> i < 2 ^ 63 \<Longrightarrow> Atoi (Itoa i) = Some i"
  by (simp add: Atoi_def)

section \<open>Splitting strings\<close>

text \<open>\<open>strings.Contains\<close> and \<open>strings.Split\<close> with a separator that is not empty.\<close>

fun Contains :: "string \<Rightarrow> string \<Rightarrow> bool" where
  "Contains [] sub = (sub = [])"
| "Contains (c # cs) sub = (HasPrefix (c # cs) sub \<or> Contains cs sub)"

function split_scan :: "string \<Rightarrow> string \<Rightarrow> string \<Rightarrow> string list" where
  "split_scan sep acc [] = [rev acc]"
| "split_scan sep acc (c # cs) =
     (if HasPrefix (c # cs) sep then rev acc # split_scan sep [] (drop (length sep - 1) cs)
      else split_scan sep (c # acc) cs)"
  by pat_completeness auto
termination
  by (relation "measure (\<lambda>(_, _, s). length s)") auto

definition Split :: "string \<Rightarrow> string \<Rightarrow> string list" where
  "Split s sep = split_scan sep [] s"

lemma split_scan_nonempty [simp]: "split_scan sep acc s \<noteq> []"
  by (induction sep acc s rule: split_scan.induct) auto

lemma Split_nonempty [simp]: "Split s sep \<noteq> []"
  by (simp add: Split_def)

text \<open>The first part reaches up to the first occurrence of a one-character separator.\<close>

lemma hd_split_scan_char: "hd (split_scan [x] acc s) = rev acc @ takeWhile (\<lambda>c. c \<noteq> x) s"
  by (induction "[x]" acc s rule: split_scan.induct) (auto simp: HasPrefix_def)

lemma hd_Split_char: "hd (Split s [x]) = takeWhile (\<lambda>c. c \<noteq> x) s"
  by (simp add: Split_def hd_split_scan_char)

text \<open>Up to a first character of the separator, the first part agrees with the string.\<close>

lemma takeWhile_hd_split_scan:
  "x \<notin> set acc \<Longrightarrow>
   takeWhile (\<lambda>c. c \<noteq> x) (hd (split_scan (x # sep) acc s)) = rev acc @ takeWhile (\<lambda>c. c \<noteq> x) s"
proof (induction "x # sep" acc s rule: split_scan.induct)
  case (1 acc)
  then show ?case by (auto simp: takeWhile_eq_all_conv)
next
  case (2 acc c cs)
  show ?case
  proof (cases "c = x")
    case True
    have tw: "takeWhile (\<lambda>c. c \<noteq> x) (rev acc @ ys) = rev acc" if "ys = [] \<or> hd ys = x" for ys
      using that 2(3) by (cases ys) (auto simp: takeWhile_append)
    have grow: "\<exists>ys. hd (split_scan sp a s) = rev a @ ys" for sp a s
      by (induction sp a s rule: split_scan.induct) auto
    obtain ys where "hd (split_scan (x # sep) (c # acc) cs) = rev acc @ x # ys"
      using grow [of "x # sep" "c # acc" cs] True by auto
    with True tw [of "[]"] tw [of "x # ys"] 2(3) show ?thesis by (auto simp: takeWhile_append)
  next
    case False
    with 2 show ?thesis by (simp add: HasPrefix_def)
  qed
qed

lemma takeWhile_hd_Split:
  "takeWhile (\<lambda>c. c \<noteq> x) (hd (Split s (x # sep))) = takeWhile (\<lambda>c. c \<noteq> x) s"
  by (simp add: Split_def takeWhile_hd_split_scan)

lemma split_scan_first:
  "x \<notin> set a \<Longrightarrow>
   split_scan (x # sep) acc (a @ (x # sep) @ b) = (rev acc @ a) # split_scan (x # sep) [] b"
  by (induction a arbitrary: acc) (auto simp: HasPrefix_def)

lemma Split_first: "x \<notin> set a \<Longrightarrow> Split (a @ (x # sep) @ b) (x # sep) = a # Split b (x # sep)"
  using split_scan_first [of x a sep "[]" b] by (simp add: Split_def)

lemma Contains_append: "Contains (a @ sub @ b) sub"
proof (induction a)
  case Nil
  have "HasPrefix (sub @ b) sub" by simp
  then show ?case by (cases "sub @ b") auto
next
  case (Cons c a)
  then show ?case by simp
qed

section \<open>How a call ends\<close>

text \<open>A call returns a value, panics, or runs for ever.\<close>

datatype 'a outcome = Returns 'a | Panics | Diverges

fun outcome_bind :: "'a outcome \<Rightarrow> ('a \<Rightarrow> 'b outcome) \<Rightarrow> 'b outcome" where
  "outcome_bind (Returns a) f = f a"
| "outcome_bind Panics f = Panics"
| "outcome_bind Diverges f = Diverges"

fun outcome_of_option :: "'a option \<Rightarrow> 'a outcome" where
  "outcome_of_option (Some a) = Returns a"
| "outcome_of_option None = Diverges"

lemma outcome_bind_Returns:
  "outcome_bind x f = Returns b \<longleftrightarrow> (\<exists>a. x = Returns a \<and> f a = Returns b)"
  by (cases x) auto

lemma outcome_of_option_Returns: "outcome_of_option x = Returns a \<longleftrightarrow> x = Some a"
  by (cases x) auto

text \<open>A call that neither panics nor runs for ever.\<close>

definition returns :: "'a outcome \<Rightarrow> bool" where
  "returns x \<longleftrightarrow> (\<exists>a. x = Returns a)"

lemma returns_simps [simp]: "returns (Returns a)" "\<not> returns Panics" "\<not> returns Diverges"
  by (simp_all add: returns_def)

lemma returns_bind: "returns x \<Longrightarrow> (\<And>a. returns (f a)) \<Longrightarrow> returns (outcome_bind x f)"
  by (auto simp: returns_def)

lemma returns_of_option: "x \<noteq> None \<Longrightarrow> returns (outcome_of_option x)"
  by auto

text \<open>The slice expression \<open>s[:n]\<close> panics when the string is shorter.\<close>

definition slice_to :: "nat \<Rightarrow> string \<Rightarrow> string outcome" where
  "slice_to n s = (if n \<le> length s then Returns (take n s) else Panics)"

declare slice_to_def [go_eval] ctx_Background_def [go_eval] ctx_WithTimeout_def [go_eval]

end
