(* ===== verification/Interfaces.thy ===== *)
theory Interfaces
  imports Go_Prelude
begin

text \<open>
  The interfaces the components rely on, as records of operations with a locale for the contract
  of each: the port manager and the Docker service the rental executor calls
  (\<open>PortManagerInterface\<close> and \<open>DockerServiceInterface\<close> of \<open>internal/rental/executor.go\<close>),
  with the container types of \<open>internal/container/docker.go\<close> that the second one passes around.
\<close>

section \<open>The port manager\<close>

record 'p PortManagerInterface =
  pi_Allocate :: "time \<Rightarrow> string \<Rightarrow> 'p \<Rightarrow> (error + int) \<times> 'p"
  pi_Release :: "time \<Rightarrow> int \<Rightarrow> 'p \<Rightarrow> error option \<times> 'p"

text \<open>A sequence of calls, each at its own clock reading.\<close>

datatype port_op = OpAllocate time string | OpRelease time int

fun port_op_time :: "port_op \<Rightarrow> time" where
  "port_op_time (OpAllocate t s) = t"
| "port_op_time (OpRelease t p) = t"

fun port_step :: "'p PortManagerInterface \<Rightarrow> port_op \<Rightarrow> 'p \<Rightarrow> 'p" where
  "port_step P (OpAllocate t s) pm = snd (pi_Allocate P t s pm)"
| "port_step P (OpRelease t p) pm = snd (pi_Release P t p pm)"

fun port_run :: "'p PortManagerInterface \<Rightarrow> port_op list \<Rightarrow> 'p \<Rightarrow> 'p" where
  "port_run P [] pm = pm"
| "port_run P (x # xs) pm = port_run P xs (port_step P x pm)"

fun releases :: "int \<Rightarrow> port_op \<Rightarrow> bool" where
  "releases p (OpRelease t q) = (p = q)"
| "releases p (OpAllocate t s) = False"

text \<open>
  The contract, over the ports in use (\<open>hold\<close>) and an invariant: an allocation hands out a port
  nobody holds and changes nothing else, a failed one changes nothing, a release frees exactly the
  port it names, and releasing a port that is not in use is refused.
\<close>

locale port_service =
  fixes P :: "'p PortManagerInterface"
    and pinv :: "'p \<Rightarrow> bool"
    and hold :: "'p \<Rightarrow> int \<rightharpoonup> string"
  assumes alloc_ok: "pinv pm \<Longrightarrow> pi_Allocate P t s pm = (Inr p, pm') \<Longrightarrow>
      pinv pm' \<and> hold pm p = None \<and> hold pm' = (hold pm)(p \<mapsto> s)"
    and alloc_err: "pi_Allocate P t s pm = (Inl e, pm') \<Longrightarrow> pm' = pm"
    and release_held: "pinv pm \<Longrightarrow> hold pm p = Some s \<Longrightarrow>
      \<exists>pm'. pi_Release P t p pm = (None, pm') \<and> pinv pm' \<and> hold pm' = (hold pm)(p := None)"
    and release_free: "hold pm p = None \<Longrightarrow> pi_Release P t p pm = (Some ErrPortNotAllocated, pm)"
begin

lemma release_effect:
  assumes "pinv pm"
  shows "pinv (snd (pi_Release P t p pm)) \<and> hold (snd (pi_Release P t p pm)) = (hold pm)(p := None)"
proof (cases "hold pm p")
  case None
  then show ?thesis using assms release_free [of pm p t] by (simp add: fun_upd_idem)
next
  case (Some s)
  then show ?thesis using release_held [OF assms, of p s t] by auto
qed

lemmas inv_release = release_effect [THEN conjunct1]
lemmas hold_release = release_effect [THEN conjunct2]

lemma inv_allocate: "pinv pm \<Longrightarrow> pinv (snd (pi_Allocate P t s pm))"
  using alloc_ok [of pm t s] alloc_err [of t s pm]
  by (cases "pi_Allocate P t s pm"; cases "fst (pi_Allocate P t s pm)") auto

lemma hold_allocate_keeps:
  "pinv pm \<Longrightarrow> hold pm p = Some u \<Longrightarrow> hold (snd (pi_Allocate P t s pm)) p = Some u"
  using alloc_ok [of pm t s] alloc_err [of t s pm]
  by (cases "pi_Allocate P t s pm"; cases "fst (pi_Allocate P t s pm)") auto

lemma inv_step: "pinv pm \<Longrightarrow> pinv (port_step P x pm)"
  by (cases x) (simp_all add: inv_allocate inv_release)

lemma inv_run: "pinv pm \<Longrightarrow> pinv (port_run P xs pm)"
  by (induction xs arbitrary: pm) (simp_all add: inv_step)

lemma hold_step_keeps:
  "pinv pm \<Longrightarrow> hold pm p = Some u \<Longrightarrow> \<not> releases p x \<Longrightarrow> hold (port_step P x pm) p = Some u"
  by (cases x) (auto simp: hold_allocate_keeps hold_release)

lemma hold_run_keeps:
  "pinv pm \<Longrightarrow> hold pm p = Some u \<Longrightarrow> \<forall>x \<in> set xs. \<not> releases p x \<Longrightarrow>
   hold (port_run P xs pm) p = Some u"
  by (induction xs arbitrary: pm) (auto simp: hold_step_keeps inv_step)

lemma held_not_handed_out:
  "pinv pm \<Longrightarrow> hold pm p = Some u \<Longrightarrow> fst (pi_Allocate P t s pm) \<noteq> Inr p"
  using alloc_ok [of pm t s p] by (cases "pi_Allocate P t s pm") auto

lemma exclusive_until_released:
  assumes "pinv pm" and "pi_Allocate P t s pm = (Inr p, pm')" and "\<forall>x \<in> set xs. \<not> releases p x"
  shows "hold (port_run P xs pm') p = Some s \<and>
         fst (pi_Allocate P t' s' (port_run P xs pm')) \<noteq> Inr p"
proof -
  from assms(1,2) have pinv': "pinv pm'" and h: "hold pm' p = Some s"
    using alloc_ok by auto
  from pinv' h assms(3) have "hold (port_run P xs pm') p = Some s" by (rule hold_run_keeps)
  with pinv' show ?thesis using held_not_handed_out inv_run by blast
qed

end

section \<open>The Docker service\<close>

record ContainerConfig =
  cc_SessionID :: string
  cc_Image :: string
  cc_GPUDeviceID :: string
  cc_SSHPassword :: string
  cc_SSHPort :: int
  cc_MemoryBytes :: int64
  cc_CPUCount :: int64
  cc_UseImageEntrypoint :: bool

record ContainerInfo =
  ci_ContainerID :: string
  ci_SSHPort :: int
  ci_State :: string
  ci_Health :: string

text \<open>
  \<open>CreateContainer\<close> keeps Go's pair of results, because its caller reads the container ID also
  when there is an error.
\<close>

record 'd DockerServiceInterface =
  di_CreateContainer :: "'d ctx \<Rightarrow> ContainerConfig \<Rightarrow> 'd world \<Rightarrow> (string \<times> error option) \<times> 'd world"
  di_StartContainer :: "'d ctx \<Rightarrow> string \<Rightarrow> 'd world \<Rightarrow> error option \<times> 'd world"
  di_StopContainer :: "'d ctx \<Rightarrow> string \<Rightarrow> int \<Rightarrow> 'd world \<Rightarrow> error option \<times> 'd world"
  di_RemoveContainer :: "'d ctx \<Rightarrow> string \<Rightarrow> bool \<Rightarrow> 'd world \<Rightarrow> error option \<times> 'd world"
  di_InspectContainer :: "'d ctx \<Rightarrow> string \<Rightarrow> 'd world \<Rightarrow> (error + ContainerInfo) \<times> 'd world"

text \<open>
  What its clients rely on: a failed creation names no container, and inspecting a container does
  not turn the clock back.
\<close>

locale docker_service =
  fixes D :: "'d DockerServiceInterface"
  assumes create_failed: "di_CreateContainer D ctx cfg w = ((cid, Some e), w') \<Longrightarrow> cid = ''''"
    and inspect_clock: "di_InspectContainer D ctx cid w = (r, w') \<Longrightarrow> w_clock w \<le> w_clock w'"

text \<open>
  A service on which everything succeeds, as the default answers of \<open>MockDockerService\<close> in
  \<open>internal/rental/executor_test.go\<close>, and a world to run it in; the witnesses use both.
\<close>

definition mock_docker :: "'d DockerServiceInterface" where
  "mock_docker =
     \<lparr>di_CreateContainer = (\<lambda>ctx cfg w. ((''container-123'', None), w)),
      di_StartContainer = (\<lambda>ctx cid w. (None, w)),
      di_StopContainer = (\<lambda>ctx cid t w. (None, w)),
      di_RemoveContainer = (\<lambda>ctx cid force w. (None, w)),
      di_InspectContainer = (\<lambda>ctx cid w.
        (Inr \<lparr>ci_ContainerID = cid, ci_SSHPort = 30000, ci_State = ''running'', ci_Health = ''healthy''\<rparr>, w))\<rparr>"

lemma mock_docker_simps [simp]:
  "di_CreateContainer mock_docker ctx cfg w = ((''container-123'', None), w)"
  "di_StartContainer mock_docker ctx cid w = (None, w)"
  "di_StopContainer mock_docker ctx cid t w = (None, w)"
  "di_RemoveContainer mock_docker ctx cid force w = (None, w)"
  "di_InspectContainer mock_docker ctx cid w =
     (Inr \<lparr>ci_ContainerID = cid, ci_SSHPort = 30000, ci_State = ''running'', ci_Health = ''healthy''\<rparr>, w)"
  by (simp_all add: mock_docker_def)

definition quiet_world :: "unit world" where
  "quiet_world = \<lparr>w_clock = 0, w_lag = (\<lambda>_. 0), w_ext = ()\<rparr>"

end
