(* ===== verification/Rental_Executor.thy ===== *)
theory Rental_Executor
  imports Interfaces
begin

text \<open>
  The rental executor of \<open>internal/rental/executor.go\<close>, over any Docker service and port manager
  that satisfy the two interfaces.  An operation that waits for the health check may in principle
  not return, which is the value \<open>None\<close>; the operations themselves run here from start to end,
  and their interleaving with other goroutines is the subject of \<open>Rental_Concurrency\<close>.
\<close>

record RentalState =
  rs_SessionID :: string
  rs_ContainerID :: string
  rs_SSHPort :: int
  rs_StartedAt :: time
  rs_StoppedAt :: "time option"

record ConnectionInfo =
  cx_Host :: string
  cx_Port :: int
  cx_User :: string
  cx_Command :: string
  cx_ContainerID :: string

record StartRentalRequest =
  sr_SessionID :: string
  sr_Image :: string
  sr_GPUDeviceID :: string
  sr_SSHPassword :: string
  sr_MemoryBytes :: int64
  sr_CPUCount :: int64
  sr_Host :: string

record 'p RentalExecutor =
  re_portManager :: 'p
  re_activeRentals :: "string \<rightharpoonup> RentalState"
  re_gracePeriod :: duration
  re_healthTimeout :: duration
  re_healthInterval :: duration

definition NewRentalExecutor :: "'p \<Rightarrow> duration \<Rightarrow> 'p RentalExecutor" where
  "NewRentalExecutor portManager gracePeriod =
     \<lparr>re_portManager = portManager, re_activeRentals = Map.empty, re_gracePeriod = gracePeriod,
      re_healthTimeout = 60 * second, re_healthInterval = 2 * second\<rparr>"

lemma NewRentalExecutor_simps [simp]:
  "re_portManager (NewRentalExecutor pm g) = pm"
  "re_activeRentals (NewRentalExecutor pm g) = Map.empty"
  "re_gracePeriod (NewRentalExecutor pm g) = g"
  "re_healthTimeout (NewRentalExecutor pm g) = 60 * second"
  "re_healthInterval (NewRentalExecutor pm g) = 2 * second"
  by (simp_all add: NewRentalExecutor_def)

section \<open>Waiting for the health check\<close>

text \<open>What one inspection tells \<open>waitForHealth\<close> to do.\<close>

datatype health_result = Healthy | Unhealthy error | PollAgain

definition health_verdict :: "ContainerInfo \<Rightarrow> health_result" where
  "health_verdict info =
     (if ci_State info = ''running'' \<and> (ci_Health info = '''' \<or> ci_Health info = ''healthy'') then Healthy
      else if ci_State info = ''running'' \<and> ci_Health info = ''starting'' then PollAgain
      else if ci_State info = ''running'' \<and> ci_Health info = ''unhealthy'' then
        Unhealthy ErrContainerNotHealthy
      else if ci_State info = ''exited'' \<or> ci_State info = ''dead'' then
        Unhealthy (ErrorString (''container stopped during startup: state='' @ ci_State info))
      else PollAgain)"

partial_function (option) health_loop ::
  "'d DockerServiceInterface \<Rightarrow> duration \<Rightarrow> time \<Rightarrow> 'd ctx \<Rightarrow> string \<Rightarrow> 'd world \<Rightarrow>
   (error option \<times> 'd world) option" where
  "health_loop D interval deadline ctx containerID w =
     (if deadline < w_clock w then Some (Some ErrContainerNotHealthy, w)
      else case ctx w of
        Some e \<Rightarrow> Some (Some e, w)
      | None \<Rightarrow>
          (case di_InspectContainer D ctx containerID w of
             (r, w1) \<Rightarrow>
               (case r of
                  Inl e \<Rightarrow> Some (Some (Wrap ''failed to inspect container'' e), w1)
                | Inr info \<Rightarrow>
                    (case health_verdict info of
                       Healthy \<Rightarrow> Some (None, w1)
                     | Unhealthy e \<Rightarrow> Some (Some e, w1)
                     | PollAgain \<Rightarrow>
                         health_loop D interval deadline ctx containerID (time_Sleep interval w1)))))"

definition waitForHealth ::
  "'d DockerServiceInterface \<Rightarrow> 'd ctx \<Rightarrow> string \<Rightarrow> 'p RentalExecutor \<Rightarrow> 'd world \<Rightarrow>
   (error option \<times> 'd world) option" where
  "waitForHealth D ctx containerID re w =
     health_loop D (re_healthInterval re) (w_clock w + re_healthTimeout re) ctx containerID w"

section \<open>Starting a rental\<close>

definition rental_containerConfig :: "StartRentalRequest \<Rightarrow> int \<Rightarrow> ContainerConfig" where
  "rental_containerConfig req sshPort =
     \<lparr>cc_SessionID = sr_SessionID req, cc_Image = sr_Image req, cc_GPUDeviceID = sr_GPUDeviceID req,
      cc_SSHPassword = sr_SSHPassword req, cc_SSHPort = sshPort, cc_MemoryBytes = sr_MemoryBytes req,
      cc_CPUCount = sr_CPUCount req, cc_UseImageEntrypoint = False\<rparr>"

text \<open>
  The closure \<open>cleanupOnError\<close>: remove the container if there is one, then release the port; the
  errors of both are dropped.
\<close>

definition cleanupOnError ::
  "'d DockerServiceInterface \<Rightarrow> 'p PortManagerInterface \<Rightarrow> string \<Rightarrow> int \<Rightarrow>
   'p RentalExecutor \<Rightarrow> 'd world \<Rightarrow> 'p RentalExecutor \<times> 'd world" where
  "cleanupOnError D P containerID sshPort re w =
     (let w1 = (if containerID \<noteq> '''' then snd (di_RemoveContainer D ctx_Background containerID True w) else w)
      in (re\<lparr>re_portManager := snd (pi_Release P (w_clock w1) sshPort (re_portManager re))\<rparr>, w1))"

definition connection_info :: "StartRentalRequest \<Rightarrow> int \<Rightarrow> string \<Rightarrow> ConnectionInfo" where
  "connection_info req sshPort containerID =
     \<lparr>cx_Host = sr_Host req, cx_Port = sshPort, cx_User = ''ubuntu'',
      cx_Command = ''ssh -p '' @ Itoa sshPort @ '' ubuntu@'' @ sr_Host req,
      cx_ContainerID = containerID\<rparr>"

definition rental_state :: "StartRentalRequest \<Rightarrow> int \<Rightarrow> string \<Rightarrow> time \<Rightarrow> RentalState" where
  "rental_state req sshPort containerID now =
     \<lparr>rs_SessionID = sr_SessionID req, rs_ContainerID = containerID, rs_SSHPort = sshPort,
      rs_StartedAt = now, rs_StoppedAt = None\<rparr>"

definition StartRental ::
  "'d DockerServiceInterface \<Rightarrow> 'p PortManagerInterface \<Rightarrow> 'd ctx \<Rightarrow> StartRentalRequest \<Rightarrow>
   'p RentalExecutor \<Rightarrow> 'd world \<Rightarrow> ((error + ConnectionInfo) \<times> 'p RentalExecutor \<times> 'd world) option" where
  "StartRental D P ctx req re w =
     (if re_activeRentals re (sr_SessionID req) \<noteq> None then Some (Inl ErrSessionAlreadyActive, re, w)
      else case pi_Allocate P (w_clock w) (sr_SessionID req) (re_portManager re) of
        (Inl e, pm) \<Rightarrow> Some (Inl (Wrap ''failed to allocate port'' e), re\<lparr>re_portManager := pm\<rparr>, w)
      | (Inr sshPort, pm) \<Rightarrow>
          let re1 = re\<lparr>re_portManager := pm\<rparr> in
          (case di_CreateContainer D ctx (rental_containerConfig req sshPort) w of
             ((containerID, Some e), w1) \<Rightarrow>
               Some (Inl (Wrap ''failed to create container'' e), cleanupOnError D P containerID sshPort re1 w1)
           | ((containerID, None), w1) \<Rightarrow>
               (case di_StartContainer D ctx containerID w1 of
                  (Some e, w2) \<Rightarrow>
                    Some (Inl (Wrap ''failed to start container'' e), cleanupOnError D P containerID sshPort re1 w2)
                | (None, w2) \<Rightarrow>
                    (case waitForHealth D ctx containerID re1 w2 of
                       None \<Rightarrow> None
                     | Some (Some e, w3) \<Rightarrow>
                         Some (Inl (Wrap ''failed health check'' e), cleanupOnError D P containerID sshPort re1 w3)
                     | Some (None, w3) \<Rightarrow>
                         Some (Inr (connection_info req sshPort containerID),
                               re1\<lparr>re_activeRentals := (re_activeRentals re1)(sr_SessionID req \<mapsto>
                                     rental_state req sshPort containerID (w_clock w3))\<rparr>, w3)))))"

section \<open>Stopping a rental\<close>

text \<open>
  The arguments of a \<open>go re.scheduleCleanup(...)\<close> statement: the goroutine that \<open>StopRental\<close>
  leaves behind.
\<close>

record cleanup_job =
  cj_sessionID :: string
  cj_containerID :: string
  cj_sshPort :: int

definition StopRental ::
  "'d DockerServiceInterface \<Rightarrow> 'd ctx \<Rightarrow> string \<Rightarrow> 'p RentalExecutor \<Rightarrow> 'd world \<Rightarrow>
   error option \<times> cleanup_job option \<times> 'p RentalExecutor \<times> 'd world" where
  "StopRental D ctx sessionID re w =
     (case re_activeRentals re sessionID of
        None \<Rightarrow> (Some ErrSessionNotFound, None, re, w)
      | Some state \<Rightarrow>
          let re1 = re\<lparr>re_activeRentals :=
                (re_activeRentals re)(sessionID \<mapsto> state\<lparr>rs_StoppedAt := Some (w_clock w)\<rparr>)\<rparr> in
          (case di_StopContainer D ctx (rs_ContainerID state) 10 w of
             (Some e, w1) \<Rightarrow> (Some (Wrap ''failed to stop container'' e), None, re1, w1)
           | (None, w1) \<Rightarrow>
               (None,
                Some \<lparr>cj_sessionID = sessionID, cj_containerID = rs_ContainerID state,
                      cj_sshPort = rs_SSHPort state\<rparr>,
                re1, w1)))"

text \<open>The body of the cleanup goroutine, once its sleep is over.\<close>

definition cleanup_after_sleep ::
  "'d DockerServiceInterface \<Rightarrow> 'p PortManagerInterface \<Rightarrow> cleanup_job \<Rightarrow>
   'p RentalExecutor \<Rightarrow> 'd world \<Rightarrow> 'p RentalExecutor \<times> 'd world" where
  "cleanup_after_sleep D P job re w =
     (let w1 = snd (di_RemoveContainer D ctx_Background (cj_containerID job) True w);
          re1 = re\<lparr>re_portManager := snd (pi_Release P (w_clock w1) (cj_sshPort job) (re_portManager re))\<rparr>
      in (re1\<lparr>re_activeRentals := (re_activeRentals re1)(cj_sessionID job := None)\<rparr>, w1))"

definition scheduleCleanup ::
  "'d DockerServiceInterface \<Rightarrow> 'p PortManagerInterface \<Rightarrow> cleanup_job \<Rightarrow>
   'p RentalExecutor \<Rightarrow> 'd world \<Rightarrow> 'p RentalExecutor \<times> 'd world" where
  "scheduleCleanup D P job re w = cleanup_after_sleep D P job re (time_Sleep (re_gracePeriod re) w)"

section \<open>Queries\<close>

definition GetRentalStatus :: "string \<Rightarrow> 'p RentalExecutor \<Rightarrow> error + RentalState" where
  "GetRentalStatus sessionID re =
     (case re_activeRentals re sessionID of None \<Rightarrow> Inl ErrSessionNotFound | Some state \<Rightarrow> Inr state)"

text \<open>
  \<open>ListActiveRentals\<close> ranges over a map, whose order is unspecified: the keys in the order the
  runtime visits them are the argument \<open>order\<close>.
\<close>

definition ListActiveRentals :: "string list \<Rightarrow> 'p RentalExecutor \<Rightarrow> RentalState list" where
  "ListActiveRentals order re =
     concat (map (\<lambda>k. case re_activeRentals re k of None \<Rightarrow> [] | Some state \<Rightarrow> [state]) order)"

section \<open>The backend contract and what the executor makes of it\<close>

definition healthy_info :: "ContainerInfo \<Rightarrow> bool" where
  "healthy_info info \<longleftrightarrow>
     ci_State info = ''running'' \<and> (ci_Health info = '''' \<or> ci_Health info = ''healthy'')"

lemma health_verdict_Healthy [simp]: "health_verdict info = Healthy \<longleftrightarrow> healthy_info info"
  by (auto simp: health_verdict_def healthy_info_def)

lemma cleanupOnError_active [simp]:
  "re_activeRentals (fst (cleanupOnError D P cid p re w)) = re_activeRentals re"
  by (simp add: cleanupOnError_def Let_def)

text \<open>A health check that succeeds ended with an inspection that found the container healthy.\<close>

definition found_healthy :: "'d DockerServiceInterface \<Rightarrow> time \<Rightarrow> 'd ctx \<Rightarrow> string \<Rightarrow> 'd world \<Rightarrow> bool" where
  "found_healthy D deadline ctx cid w' \<longleftrightarrow>
     (\<exists>w0 info. w_clock w0 \<le> deadline \<and> ctx w0 = None \<and>
        di_InspectContainer D ctx cid w0 = (Inr info, w') \<and> healthy_info info)"

lemma health_loop_sound:
  assumes "health_loop D interval deadline ctx cid w = Some (None, w')"
  shows "found_healthy D deadline ctx cid w'"
proof -
  let ?rw = "(None :: error option, w')"
  have "fst ?rw = None \<longrightarrow> found_healthy D deadline ctx cid (snd ?rw)"
  proof (rule health_loop.raw_induct [where P = "\<lambda>D interval deadline ctx cid w rw.
        fst rw = None \<longrightarrow> found_healthy D deadline ctx cid (snd rw)", OF _ assms], goal_cases)
    case (1 loop D interval deadline ctx cid w rw)
    show ?case
    proof (cases "deadline < w_clock w \<or> ctx w \<noteq> None")
      case True
      with 1(2) show ?thesis by (auto split: if_splits option.splits)
    next
      case False
      obtain r1 w1 where ins: "di_InspectContainer D ctx cid w = (r1, w1)" by fastforce
      show ?thesis
      proof (cases r1)
        case (Inl e)
        with False ins 1(2) show ?thesis by auto
      next
        case (Inr info)
        have "healthy_info info \<Longrightarrow> found_healthy D deadline ctx cid w1"
          using False ins Inr by (auto simp: found_healthy_def not_less)
        with False ins Inr 1 show ?thesis
          by (cases "health_verdict info") (auto dest: 1(1))
      qed
    qed
  qed
  then show ?thesis by simp
qed

context docker_service
begin

lemma health_loop_returns:
  "0 < interval \<Longrightarrow> \<exists>r. health_loop D interval deadline ctx cid w = Some r"
proof (induction "nat (deadline + 1 - w_clock w)" arbitrary: w rule: less_induct)
  case less
  show ?case
  proof (cases "deadline < w_clock w")
    case True
    then show ?thesis by (subst health_loop.simps) simp
  next
    case False
    obtain r1 w1 where ins: "di_InspectContainer D ctx cid w = (r1, w1)" by fastforce
    let ?w2 = "time_Sleep interval w1"
    have "w_clock w < w_clock ?w2"
      using inspect_clock [OF ins] time_Sleep_clock(1) [of w1 interval] less.prems by linarith
    with False less.hyps [of ?w2] less.prems
    have "\<exists>r. health_loop D interval deadline ctx cid ?w2 = Some r" by simp
    with False ins show ?thesis
      by (subst health_loop.simps)
         (auto split: option.splits sum.splits health_result.splits)
  qed
qed

end

text \<open>Every active rental holds its own SSH port.\<close>

definition executor_inv :: "('p \<Rightarrow> bool) \<Rightarrow> ('p \<Rightarrow> int \<rightharpoonup> string) \<Rightarrow> 'p RentalExecutor \<Rightarrow> bool" where
  "executor_inv pinv hold re \<longleftrightarrow> pinv (re_portManager re) \<and>
     (\<forall>sid st. re_activeRentals re sid = Some st \<longrightarrow>
        rs_SessionID st = sid \<and> hold (re_portManager re) (rs_SSHPort st) = Some sid)"

lemma executor_inv_ports_distinct:
  "executor_inv pinv hold re \<Longrightarrow> re_activeRentals re s1 = Some st1 \<Longrightarrow> re_activeRentals re s2 = Some st2 \<Longrightarrow>
   rs_SSHPort st1 = rs_SSHPort st2 \<Longrightarrow> s1 = s2"
  unfolding executor_inv_def by (metis option.inject)

definition job_current :: "'p RentalExecutor \<Rightarrow> cleanup_job \<Rightarrow> bool" where
  "job_current re job \<longleftrightarrow> (\<exists>st. re_activeRentals re (cj_sessionID job) = Some st \<and>
     rs_SSHPort st = cj_sshPort job)"

lemma rental_state_simps [simp]:
  "rs_SessionID (rental_state req p cid t) = sr_SessionID req"
  "rs_ContainerID (rental_state req p cid t) = cid"
  "rs_SSHPort (rental_state req p cid t) = p"
  "rs_StartedAt (rental_state req p cid t) = t"
  "rs_StoppedAt (rental_state req p cid t) = None"
  by (simp_all add: rental_state_def)

locale rental_backend = docker_service D + port_service P pinv hold
  for D :: "'d DockerServiceInterface" and P :: "'p PortManagerInterface" and pinv hold
begin

lemma cleanupOnError_ports:
  assumes "pinv (re_portManager re)"
  shows "pinv (re_portManager (fst (cleanupOnError D P cid p re w))) \<and>
         hold (re_portManager (fst (cleanupOnError D P cid p re w))) = (hold (re_portManager re))(p := None)"
  using assms by (simp add: cleanupOnError_def Let_def inv_release hold_release)

text \<open>The two ways a call of \<open>StartRental\<close> can end, as far as ports and rentals go.\<close>

lemma cleanupOnError_restores:
  assumes "pinv (re_portManager re)"
    and "pi_Allocate P t sid (re_portManager re) = (Inr p, pm)"
    and "cleanupOnError D P cid p (re\<lparr>re_portManager := pm\<rparr>) w = (re', w')"
  shows "pinv (re_portManager re') \<and> re_activeRentals re' = re_activeRentals re \<and>
         hold (re_portManager re') = hold (re_portManager re)"
  using cleanupOnError_ports [of "re\<lparr>re_portManager := pm\<rparr>" cid p w] alloc_ok [OF assms(1,2)] assms(3)
    cleanupOnError_active [of D P cid p "re\<lparr>re_portManager := pm\<rparr>" w]
  by (auto simp: fun_upd_idem)

lemma StartRental_error:
  assumes pinv: "pinv (re_portManager re)" and run: "StartRental D P ctx req re w = Some (Inl e, re', w')"
  shows "pinv (re_portManager re') \<and> re_activeRentals re' = re_activeRentals re \<and>
         hold (re_portManager re') = hold (re_portManager re)"
proof (cases "re_activeRentals re (sr_SessionID req)")
  case (Some st)
  with run pinv show ?thesis by (simp add: StartRental_def)
next
  case None
  obtain r1 pm where al: "pi_Allocate P (w_clock w) (sr_SessionID req) (re_portManager re) = (r1, pm)"
    by fastforce
  show ?thesis
  proof (cases r1)
    case (Inl e1)
    with al have "pm = re_portManager re" using alloc_err by blast
    with None al Inl run pinv show ?thesis by (auto simp: StartRental_def)
  next
    case (Inr p)
    with None al run cleanupOnError_restores [OF pinv, of _ _ p pm] show ?thesis
      by (auto simp: StartRental_def Let_def split: prod.splits option.splits)
  qed
qed

lemma StartRental_success:
  assumes pinv: "pinv (re_portManager re)"
    and run: "StartRental D P ctx req re w = Some (Inr info, re', w')"
  obtains p cid d where "info = connection_info req p cid"
    and "re_activeRentals re (sr_SessionID req) = None"
    and "pinv (re_portManager re')" and "hold (re_portManager re) p = None"
    and "hold (re_portManager re') = (hold (re_portManager re))(p \<mapsto> sr_SessionID req)"
    and "re_activeRentals re' =
           (re_activeRentals re)(sr_SessionID req \<mapsto> rental_state req p cid (w_clock w'))"
    and "found_healthy D d ctx cid w'"
proof -
  from run have none: "re_activeRentals re (sr_SessionID req) = None"
    by (auto simp: StartRental_def split: if_splits)
  obtain r1 pm where al: "pi_Allocate P (w_clock w) (sr_SessionID req) (re_portManager re) = (r1, pm)"
    by fastforce
  with none run obtain p where r1: "r1 = Inr p" by (cases r1) (auto simp: StartRental_def)
  from run none al r1 obtain cid w2 where
    wait: "waitForHealth D ctx cid (re\<lparr>re_portManager := pm\<rparr>) w2 = Some (None, w')"
    and info: "info = connection_info req p cid"
    and re': "re' = re\<lparr>re_portManager := pm, re_activeRentals := (re_activeRentals re)
                (sr_SessionID req \<mapsto> rental_state req p cid (w_clock w'))\<rparr>"
    by (auto simp: StartRental_def Let_def split: prod.splits option.splits)
  from wait have "found_healthy D (w_clock w2 + re_healthTimeout re) ctx cid w'"
    by (auto simp: waitForHealth_def dest: health_loop_sound)
  with that [of p cid] info none re' alloc_ok [OF pinv al [unfolded r1]] show thesis
    by simp
qed

lemma waitForHealth_returns:
  "0 < re_healthInterval re \<Longrightarrow> waitForHealth D ctx cid re w \<noteq> None"
  using health_loop_returns [of "re_healthInterval re" "w_clock w + re_healthTimeout re" ctx cid w]
  by (auto simp: waitForHealth_def)

lemma StartRental_returns:
  assumes "0 < re_healthInterval re"
  shows "StartRental D P ctx req re w \<noteq> None"
proof -
  have never: "waitForHealth D ctx cid (re\<lparr>re_portManager := pm\<rparr>) w0 = None \<longleftrightarrow> False" for cid pm w0
    using waitForHealth_returns [of "re\<lparr>re_portManager := pm\<rparr>" ctx cid w0] assms by simp
  show ?thesis
    by (simp add: StartRental_def Let_def never split: prod.splits option.splits sum.splits)
qed

section \<open>The invariant is kept by every operation\<close>

lemma StartRental_inv:
  assumes "executor_inv pinv hold re" and "StartRental D P ctx req re w = Some (r, re', w')"
  shows "executor_inv pinv hold re'"
proof (cases r)
  case (Inl e)
  with assms StartRental_error [of re ctx req w e re' w'] show ?thesis
    by (auto simp: executor_inv_def)
next
  case (Inr info)
  from assms(1) have pinv: "pinv (re_portManager re)" by (simp add: executor_inv_def)
  from StartRental_success [OF pinv assms(2) [unfolded Inr]] obtain p cid where
    "pinv (re_portManager re')" "hold (re_portManager re) p = None"
    "hold (re_portManager re') = (hold (re_portManager re))(p \<mapsto> sr_SessionID req)"
    "re_activeRentals re' =
       (re_activeRentals re)(sr_SessionID req \<mapsto> rental_state req p cid (w_clock w'))"
    by metis
  with assms(1) show ?thesis by (auto simp: executor_inv_def)
qed

lemma StopRental_inv:
  "executor_inv pinv hold re \<Longrightarrow> StopRental D ctx sid re w = (r, job, re', w') \<Longrightarrow> executor_inv pinv hold re'"
  by (auto simp: StopRental_def executor_inv_def Let_def split: option.splits prod.splits if_splits)

lemma cleanup_ports:
  assumes "pinv (re_portManager re)"
  shows "pinv (re_portManager (fst (cleanup_after_sleep D P job re w))) \<and>
         hold (re_portManager (fst (cleanup_after_sleep D P job re w))) =
           (hold (re_portManager re))(cj_sshPort job := None)"
  using assms by (simp add: cleanup_after_sleep_def Let_def inv_release hold_release)

text \<open>
  A cleanup job keeps the invariant when the rental it was scheduled for is still the active one of
  its session.
\<close>

lemma cleanup_inv:
  assumes pinv: "executor_inv pinv hold re" and cur: "job_current re job"
  shows "executor_inv pinv hold (fst (cleanup_after_sleep D P job re w))"
proof -
  from cur obtain st0 where st0: "re_activeRentals re (cj_sessionID job) = Some st0"
      "rs_SSHPort st0 = cj_sshPort job"
    by (auto simp: job_current_def)
  have "rs_SSHPort st \<noteq> cj_sshPort job"
    if "re_activeRentals re sid = Some st" "sid \<noteq> cj_sessionID job" for sid st
    using that st0 executor_inv_ports_distinct [OF pinv] by metis
  with pinv cleanup_ports [of re job w] show ?thesis
    by (auto simp: executor_inv_def) (auto simp: cleanup_after_sleep_def Let_def split: if_splits)
qed

end

text \<open>A request for the witnesses.\<close>

definition demo_request :: StartRentalRequest where
  "demo_request =
     \<lparr>sr_SessionID = ''s1'', sr_Image = ''ubuntu:22.04'', sr_GPUDeviceID = ''GPU-1'', sr_SSHPassword = ''pw'',
      sr_MemoryBytes = 1024, sr_CPUCount = 2, sr_Host = ''node.example''\<rparr>"

end
