(* ===== verification/Go_Json.thy ===== *)
theory Go_Json
  imports Go_Prelude Complex_Main
begin

text \<open>
  The value level of \<open>encoding/json\<close>: JSON values and how the decoder stores an object in a Go
  struct.  A document that is no JSON text is \<open>None\<close> here; the text level is in \<open>Go_Json_Text\<close>.
\<close>

datatype json =
    JNull
  | JBool bool
  | JNum string
  | JStr string
  | JArr "json list"
  | JObj "(string \<times> json) list"

text \<open>
  Keys match field names up to case folding.  Besides the ASCII letters two code points fold to one:
  the long s (\<open>0x17F\<close>) and the Kelvin sign (\<open>0x212A\<close>).
\<close>

definition lower :: "char \<Rightarrow> char" where
  "lower c =
     (let n = (of_char c :: nat) in if 65 \<le> n \<and> n \<le> 90 then char_of (n + 32) else c)"

function fold_name :: "string \<Rightarrow> string" where
  "fold_name [] = []"
| "fold_name (c # s) =
     (if HasPrefix (c # s) [CHR 0xC5, CHR 0xBF] then CHR ''s'' # fold_name (drop 1 s)
      else if HasPrefix (c # s) [CHR 0xE2, CHR 0x84, CHR 0xAA] then CHR ''k'' # fold_name (drop 2 s)
      else lower c # fold_name s)"
  by pat_completeness auto
termination
  by (relation "measure length") auto

definition key_is :: "string \<Rightarrow> string \<Rightarrow> bool" where
  "key_is field key = (fold_name field = fold_name key)"

lemma key_is_refl [simp]: "key_is k k"
  by (simp add: key_is_def)

text \<open>
  Storing a value in a string or an \<open>int64\<close> field: null leaves the field as it is, a value of
  another kind is an error, and so is a number that is not an integer literal of 64 bits.
\<close>

fun decode_string :: "json \<Rightarrow> string \<Rightarrow> string option" where
  "decode_string JNull cur = Some cur"
| "decode_string (JStr s) cur = Some s"
| "decode_string _ cur = None"

fun decode_int64 :: "json \<Rightarrow> int64 \<Rightarrow> int64 option" where
  "decode_int64 JNull cur = Some cur"
| "decode_int64 (JNum lit) cur = map_option word_of_int (Atoi lit)"
| "decode_int64 _ cur = None"

text \<open>The members of an object in their order, each stored by \<open>store\<close>; then a whole document.\<close>

fun decode_members :: "(string \<Rightarrow> json \<Rightarrow> 'r \<Rightarrow> 'r option) \<Rightarrow> (string \<times> json) list \<Rightarrow> 'r \<Rightarrow> 'r option" where
  "decode_members store [] r = Some r"
| "decode_members store ((k, v) # ms) r =
     (case store k v r of None \<Rightarrow> None | Some r' \<Rightarrow> decode_members store ms r')"

definition decode_struct :: "(string \<Rightarrow> json \<Rightarrow> 'r \<Rightarrow> 'r option) \<Rightarrow> 'r \<Rightarrow> json option \<Rightarrow> 'r option" where
  "decode_struct store zero body =
     (case body of
        None \<Rightarrow> None
      | Some JNull \<Rightarrow> Some zero
      | Some (JObj ms) \<Rightarrow> decode_members store ms zero
      | Some _ \<Rightarrow> None)"

section \<open>Values of type interface{}\<close>

text \<open>
  What the decoder stores in a \<open>map[string]interface{}\<close>: numbers become \<open>float64\<close>, which is kept
  as the rational number it denotes.
\<close>

datatype iface =
    INil
  | IBool bool
  | IFloat rat
  | IString string
  | IList "iface list"
  | IMap "(string \<times> iface) list"

type_synonym payload = "string \<rightharpoonup> iface"

text \<open>The two type assertions the node makes, \<open>v.(string)\<close> and \<open>v.(float64)\<close>.\<close>

definition payload_string :: "payload \<Rightarrow> string \<Rightarrow> string" where
  "payload_string p k = (case p k of Some (IString s) \<Rightarrow> s | _ \<Rightarrow> '''')"

definition payload_float :: "payload \<Rightarrow> string \<Rightarrow> rat option" where
  "payload_float p k = (case p k of Some (IFloat v) \<Rightarrow> Some v | _ \<Rightarrow> None)"

text \<open>
  The conversion \<open>int64(v)\<close> drops the fraction; for a value outside the range the language leaves
  the result to the implementation, which is the argument \<open>impl\<close>.
\<close>

definition trunc_rat :: "rat \<Rightarrow> int" where
  "trunc_rat v = (if 0 \<le> v then \<lfloor>v\<rfloor> else \<lceil>v\<rceil>)"

definition float_to_int64 :: "(rat \<Rightarrow> int64) \<Rightarrow> rat \<Rightarrow> int64" where
  "float_to_int64 impl v =
     (if - (2 ^ 63) \<le> trunc_rat v \<and> trunc_rat v < 2 ^ 63 then word_of_int (trunc_rat v) else impl v)"

lemma trunc_rat_of_int [simp]: "trunc_rat (of_int i) = i"
  by (simp add: trunc_rat_def)

lemma float_to_int64_of_int:
  "- (2 ^ 63) \<le> i \<Longrightarrow> i < 2 ^ 63 \<Longrightarrow> float_to_int64 impl (of_int i) = word_of_int i"
  by (simp add: float_to_int64_def)

section \<open>Instants as text\<close>

text \<open>
  \<open>t.Format(time.RFC3339)\<close> for an instant in nanoseconds since the Unix epoch and a zone offset in
  seconds: the proleptic Gregorian date of the day number, then the time of day.
\<close>

definition civil_date :: "int \<Rightarrow> int \<times> int \<times> int" where
  "civil_date days =
     (let z = days + 719468;
          era = z div 146097;
          doe = z mod 146097;
          yoe = (doe - doe div 1460 + doe div 36524 - doe div 146096) div 365;
          doy = doe - (365 * yoe + yoe div 4 - yoe div 100);
          mp = (5 * doy + 2) div 153;
          d = doy - (153 * mp + 2) div 5 + 1;
          m = (if mp < 10 then mp + 3 else mp - 9)
      in (yoe + era * 400 + (if m \<le> 2 then 1 else 0), m, d))"

definition pad :: "nat \<Rightarrow> int \<Rightarrow> string" where
  "pad n i = (let s = Itoa i in replicate (n - length s) CHR ''0'' @ s)"

definition format_RFC3339 :: "int \<Rightarrow> time \<Rightarrow> string" where
  "format_RFC3339 offset t =
     (let secs = t div 1000000000 + offset;
          (y, m, d) = civil_date (secs div 86400);
          sod = secs mod 86400;
          zone = (if offset = 0 then ''Z''
                  else (if offset < 0 then ''-'' else ''+'') @ pad 2 (\<bar>offset\<bar> div 3600) @ '':'' @
                       pad 2 (\<bar>offset\<bar> mod 3600 div 60))
      in pad 4 y @ ''-'' @ pad 2 m @ ''-'' @ pad 2 d @ ''T'' @ pad 2 (sod div 3600) @ '':'' @
         pad 2 (sod mod 3600 div 60) @ '':'' @ pad 2 (sod mod 60) @ zone)"

text \<open>
  \<open>time.Time\<close> in JSON: the same with the fraction of the second in front of the zone, its trailing
  zeros left out.
\<close>

definition fraction_text :: "time \<Rightarrow> string" where
  "fraction_text t =
     (let ns = t mod 1000000000 in
      if ns = 0 then [] else CHR ''.'' # rev (dropWhile (\<lambda>c. c = CHR ''0'') (rev (pad 9 ns))))"

definition format_RFC3339Nano :: "int \<Rightarrow> time \<Rightarrow> string" where
  "format_RFC3339Nano offset t =
     (let s = format_RFC3339 offset t in take 19 s @ fraction_text t @ drop 19 s)"

lemma format_RFC3339_example:
  "format_RFC3339 0 (1700000000 * 1000000000) = ''2023-11-14T22:13:20Z''"
  by code_simp

end
