(* ===== verification/Go_Utf8.thy ===== *)
theory Go_Utf8
  imports Go_Prelude
begin

text \<open>
  Package \<open>unicode/utf8\<close> as far as \<open>encoding/json\<close> uses it: a Go string is a list of bytes, and
  \<open>DecodeRune\<close> reads one code point from its front.
\<close>

abbreviation byte :: "char \<Rightarrow> nat" where
  "byte c \<equiv> of_char c"

definition RuneError :: nat where
  "RuneError = 0xFFFD"

definition between :: "nat \<Rightarrow> nat \<Rightarrow> nat \<Rightarrow> bool" where
  "between lo hi b = (lo \<le> b \<and> b \<le> hi)"

definition continuation :: "nat \<Rightarrow> bool" where
  "continuation b = between 0x80 0xBF b"

text \<open>
  What may follow a first byte: how many bytes the code point has, and the bounds of the second
  byte, which exclude overlong forms, surrogates and values above \<open>0x10FFFF\<close>.
\<close>

definition lead :: "nat \<Rightarrow> (nat \<times> nat \<times> nat) option" where
  "lead b =
     (if between 0xC2 0xDF b then Some (2, 0x80, 0xBF)
      else if b = 0xE0 then Some (3, 0xA0, 0xBF)
      else if b = 0xED then Some (3, 0x80, 0x9F)
      else if between 0xE1 0xEF b then Some (3, 0x80, 0xBF)
      else if b = 0xF0 then Some (4, 0x90, 0xBF)
      else if between 0xF1 0xF3 b then Some (4, 0x80, 0xBF)
      else if b = 0xF4 then Some (4, 0x80, 0x8F)
      else None)"

definition DecodeRune :: "string \<Rightarrow> nat \<times> nat" where
  "DecodeRune s =
     (case map byte s of
        [] \<Rightarrow> (RuneError, 0)
      | b0 # t \<Rightarrow>
          if b0 < 0x80 then (b0, 1)
          else case lead b0 of
            None \<Rightarrow> (RuneError, 1)
          | Some (n, lo, hi) \<Rightarrow>
              (case t of
                 b1 # t1 \<Rightarrow>
                   if \<not> between lo hi b1 then (RuneError, 1)
                   else if n = 2 then (64 * (b0 - 0xC0) + (b1 - 0x80), 2)
                   else (case t1 of
                      b2 # t2 \<Rightarrow>
                        if \<not> continuation b2 then (RuneError, 1)
                        else if n = 3 then (4096 * (b0 - 0xE0) + 64 * (b1 - 0x80) + (b2 - 0x80), 3)
                        else (case t2 of
                           b3 # t3 \<Rightarrow>
                             if \<not> continuation b3 then (RuneError, 1)
                             else (262144 * (b0 - 0xF0) + 4096 * (b1 - 0x80) + 64 * (b2 - 0x80) + (b3 - 0x80), 4)
                         | [] \<Rightarrow> (RuneError, 1))
                    | [] \<Rightarrow> (RuneError, 1))
               | [] \<Rightarrow> (RuneError, 1)))"

definition surrogate :: "nat \<Rightarrow> bool" where
  "surrogate r = between 0xD800 0xDFFF r"

definition EncodeRune :: "nat \<Rightarrow> string" where
  "EncodeRune r =
     map char_of
       (if r < 0x80 then [r]
        else if r < 0x800 then [0xC0 + r div 64, 0x80 + r mod 64]
        else if 0x10FFFF < r \<or> surrogate r then [0xEF, 0xBF, 0xBD]
        else if r < 0x10000 then [0xE0 + r div 4096, 0x80 + r div 64 mod 64, 0x80 + r mod 64]
        else [0xF0 + r div 262144, 0x80 + r div 4096 mod 64, 0x80 + r div 64 mod 64, 0x80 + r mod 64])"

text \<open>A rune that was read well: not the replacement for one bad byte.\<close>

definition good_rune :: "string \<Rightarrow> bool" where
  "good_rune s = (DecodeRune s \<noteq> (RuneError, 1) \<and> s \<noteq> [])"

lemmas utf8_defs = DecodeRune_def lead_def between_def continuation_def RuneError_def
  surrogate_def good_rune_def

lemma byte_less: "byte c < 256"
  using of_char_mod_256 [of c, where 'a = nat] by (metis mod_less_divisor zero_less_numeral)

lemma DecodeRune_size: "s \<noteq> [] \<Longrightarrow> DecodeRune s = (r, n) \<Longrightarrow> 1 \<le> n \<and> n \<le> length s"
  by (cases s) (auto simp: utf8_defs map_eq_Cons_conv split: list.splits if_splits)

lemma DecodeRune_size_pos [simp]: "0 < snd (DecodeRune (c # s))"
  using DecodeRune_size [of "c # s"] by (cases "DecodeRune (c # s)") simp

lemma DecodeRune_ascii [simp]: "byte c < 0x80 \<Longrightarrow> DecodeRune (c # s) = (byte c, 1)"
  by (simp add: DecodeRune_def)

text \<open>A code point of several bytes, as its bytes.\<close>

lemma good_rune_cases:
  assumes "good_rune s" and "DecodeRune s = (r, n)"
  obtains (one) c t where "s = c # t" "byte c < 0x80" "r = byte c" "n = 1"
  | (two) c0 c1 t where "s = c0 # c1 # t" "n = 2" "lead (byte c0) = Some (2, 0x80, 0xBF)"
      "between 0x80 0xBF (byte c1)" "r = 64 * (byte c0 - 0xC0) + (byte c1 - 0x80)"
  | (three) c0 c1 c2 t lo hi where "s = c0 # c1 # c2 # t" "n = 3" "lead (byte c0) = Some (3, lo, hi)"
      "between lo hi (byte c1)" "continuation (byte c2)"
      "r = 4096 * (byte c0 - 0xE0) + 64 * (byte c1 - 0x80) + (byte c2 - 0x80)"
  | (four) c0 c1 c2 c3 t lo hi where "s = c0 # c1 # c2 # c3 # t" "n = 4" "lead (byte c0) = Some (4, lo, hi)"
      "between lo hi (byte c1)" "continuation (byte c2)" "continuation (byte c3)"
      "r = 262144 * (byte c0 - 0xF0) + 4096 * (byte c1 - 0x80) + 64 * (byte c2 - 0x80) + (byte c3 - 0x80)"
proof -
  from assms(1) obtain c0 t where s: "s = c0 # t" by (cases s) (auto simp: good_rune_def)
  consider "byte c0 < 0x80" | lo hi where "\<not> byte c0 < 0x80" "lead (byte c0) = Some (2, lo, hi)"
    | lo hi where "\<not> byte c0 < 0x80" "lead (byte c0) = Some (3, lo, hi)"
    | lo hi where "\<not> byte c0 < 0x80" "lead (byte c0) = Some (4, lo, hi)"
    using assms(1) s by (auto simp: good_rune_def DecodeRune_def lead_def split: if_splits)
  then show thesis
  proof cases
    case 1
    with assms s show thesis by (auto intro: one)
  next
    case 2
    then have "lead (byte c0) = Some (2, 0x80, 0xBF)" by (auto simp: lead_def split: if_splits)
    with assms s 2(1) show thesis
      by (auto simp: good_rune_def DecodeRune_def map_eq_Cons_conv intro!: two split: list.splits if_splits)
  next
    case 3
    with assms s show thesis
      by (auto simp: good_rune_def DecodeRune_def map_eq_Cons_conv intro!: three split: list.splits if_splits)
  next
    case 4
    with assms s show thesis
      by (auto simp: good_rune_def DecodeRune_def map_eq_Cons_conv intro!: four split: list.splits if_splits)
  qed
qed

lemma lead_ascii [simp]: "b < 0x80 \<Longrightarrow> lead b = None"
  by (simp add: lead_def between_def)

lemma between_offset: "between lo hi b \<longleftrightarrow> (\<exists>x. b = lo + x \<and> x \<le> hi - lo \<and> lo \<le> hi)"
  by (auto simp: between_def intro: exI [of _ "b - lo"])

lemma split64: "z < 64 \<Longrightarrow> (64 * a + z) div 64 = a \<and> (64 * a + z) mod 64 = (z::nat)"
  by simp

lemma EncodeRune_DecodeRune:
  assumes "good_rune s" and "DecodeRune s = (r, n)"
  shows "EncodeRune r = take n s"
  using assms
proof (cases rule: good_rune_cases)
  case (one c t)
  then show ?thesis by (simp add: EncodeRune_def)
next
  case (two c0 c1 t)
  from two(3,4) obtain x y where "byte c0 = 0xC0 + x" "2 \<le> x" "x < 32" "byte c1 = 0x80 + y" "y < 64"
    by (auto simp: lead_def between_offset split: if_splits)
  moreover from this two have "r div 64 = x" "r mod 64 = y" "0x80 \<le> r" "r < 0x800" by simp_all
  moreover have "c0 = char_of (byte c0)" "c1 = char_of (byte c1)" by simp_all
  ultimately show ?thesis using two(1,2) by (simp add: EncodeRune_def)
next
  case (three c0 c1 c2 t lo hi)
  from three(3-5) obtain x y z where b: "byte c0 = 0xE0 + x" "x < 16" "byte c1 = 0x80 + y" "y < 64"
      "byte c2 = 0x80 + z" "z < 64" "x = 0 \<longrightarrow> 32 \<le> y" "x = 13 \<longrightarrow> y < 32"
    by (auto simp: lead_def continuation_def between_offset split: if_splits)
  with three have r: "r = 4096 * x + 64 * y + z" by simp
  from b have d: "r div 64 = 64 * x + y" "r mod 64 = z"
    using split64 [of z "64 * x + y"] by (simp_all add: r)
  then have "r div 4096 = x" using b split64 [of y x] div_mult2_eq [of r 64 64] by simp
  note d this
  moreover have "\<not> surrogate r"
  proof -
    consider "x \<le> 12" | "x = 13" "y < 32" | "14 \<le> x" using b by linarith
    then show ?thesis using b by cases (simp_all add: r surrogate_def between_def)
  qed
  moreover from b have "0x800 \<le> r" "r < 0x10000" by (auto simp: r)
  moreover have "c0 = char_of (byte c0)" "c1 = char_of (byte c1)" "c2 = char_of (byte c2)" by simp_all
  ultimately show ?thesis using three(1,2) b by (simp add: EncodeRune_def)
next
  case (four c0 c1 c2 c3 t lo hi)
  from four(3-6) obtain x y z u where b: "byte c0 = 0xF0 + x" "x < 5" "byte c1 = 0x80 + y" "y < 64"
      "byte c2 = 0x80 + z" "z < 64" "byte c3 = 0x80 + u" "u < 64" "x = 0 \<longrightarrow> 16 \<le> y" "x = 4 \<longrightarrow> y < 16"
    by (auto simp: lead_def continuation_def between_offset split: if_splits)
  with four have r: "r = 262144 * x + 4096 * y + 64 * z + u" by simp
  from b have d: "r div 64 = 4096 * x + 64 * y + z" "r mod 64 = u"
    using split64 [of u "4096 * x + 64 * y + z"] by (simp_all add: r)
  then have d2: "r div 4096 = 64 * x + y"
    using b split64 [of z "64 * x + y"] div_mult2_eq [of r 64 64] by simp
  then have "r div 262144 = x" using b split64 [of y x] div_mult2_eq [of r 4096 64] by simp
  moreover have "r div 4096 mod 64 = y" "r div 64 mod 64 = z"
    using b split64 [of y x] split64 [of z "64 * x + y"] by (simp_all add: d d2)
  note d d2 this
  moreover from b have "0x10000 \<le> r" "r \<le> 0x10FFFF" "\<not> surrogate r"
    by (auto simp: r surrogate_def between_def)
  moreover have "c0 = char_of (byte c0)" "c1 = char_of (byte c1)" "c2 = char_of (byte c2)" "c3 = char_of (byte c3)"
    by simp_all
  ultimately show ?thesis using four(1,2) b by (simp add: EncodeRune_def)
qed

text \<open>A code point is read from its own bytes, whatever follows them.\<close>

lemma DecodeRune_take:
  assumes "good_rune s" and "DecodeRune s = (r, n)"
  shows "DecodeRune (take n s @ rest) = (r, n)"
  using assms by (cases rule: good_rune_cases) (auto simp: DecodeRune_def split: if_splits)

text \<open>\<open>utf8.ValidString\<close>.\<close>

function ValidString :: "string \<Rightarrow> bool" where
  "ValidString [] = True"
| "ValidString (c # s) = (good_rune (c # s) \<and> ValidString (drop (snd (DecodeRune (c # s))) (c # s)))"
  by pat_completeness auto
termination
proof (relation "measure length", goal_cases)
  case (2 c s)
  then show ?case using DecodeRune_size_pos [of c s] by (simp del: DecodeRune_size_pos)
qed simp

lemma ValidString_Cons_ascii [simp]: "byte c < 0x80 \<Longrightarrow> ValidString (c # s) = ValidString s"
  by (simp add: good_rune_def RuneError_def)

abbreviation ascii :: "string \<Rightarrow> bool" where
  "ascii s \<equiv> list_all (\<lambda>c. byte c < 0x80) s"

lemma ValidString_ascii: "ascii s \<Longrightarrow> ValidString s"
  by (induction s) (simp_all add: good_rune_def RuneError_def)

text \<open>What is encoded is read back; a value that is no code point is written as the replacement.\<close>

definition scalar :: "nat \<Rightarrow> bool" where
  "scalar r = (r \<le> 0x10FFFF \<and> \<not> surrogate r)"

lemma glue: "r = 64 * q + z \<Longrightarrow> q = 64 * x + y \<Longrightarrow> r = 4096 * x + 64 * y + (z::nat)"
  by simp

lemma DecodeRune_EncodeRune:
  assumes "scalar r"
  shows "DecodeRune (EncodeRune r @ s) = (r, length (EncodeRune r)) \<and> good_rune (EncodeRune r @ s)"
proof -
  consider "r < 0x80" | "0x80 \<le> r" "r < 0x800" | "0x800 \<le> r" "r < 0x10000" | "0x10000 \<le> r" by linarith
  then show ?thesis
  proof cases
    case 1
    then show ?thesis by (simp add: EncodeRune_def good_rune_def RuneError_def)
  next
    case 2
    define x y where "x = r div 64" and "y = r mod 64"
    have "r = 64 * x + y" "y < 64" by (simp_all add: x_def y_def)
    with 2 show ?thesis by (simp add: EncodeRune_def utf8_defs)
  next
    case 3
    define x y z where "x = r div 64 div 64" and "y = r div 64 mod 64" and "z = r mod 64"
    have "r = 64 * (r div 64) + z" "r div 64 = 64 * x + y" by (simp_all add: x_def y_def z_def)
    then have r: "r = 4096 * x + 64 * y + z" by (rule glue)
    have lt: "y < 64" "z < 64" by (simp_all add: y_def z_def)
    have e: "EncodeRune r = map char_of [0xE0 + x, 0x80 + y, 0x80 + z]"
      using 3 assms by (simp add: EncodeRune_def scalar_def x_def y_def z_def flip: div_mult2_eq)
    consider "x = 0" "32 \<le> y" | "1 \<le> x" "x \<le> 12" | "x = 13" "y < 32" | "14 \<le> x" "x < 16"
      using 3 lt assms by (auto simp: r scalar_def surrogate_def between_def) linarith
    then show ?thesis using lt unfolding e by cases (simp_all add: r utf8_defs)
  next
    case 4
    define x y z u where "x = r div 64 div 64 div 64" and "y = r div 64 div 64 mod 64"
      and "z = r div 64 mod 64" and "u = r mod 64"
    have "r = 64 * (r div 64) + u" "r div 64 = 64 * (r div 64 div 64) + z" "r div 64 div 64 = 64 * x + y"
      by (simp_all add: x_def y_def z_def u_def)
    then have "r = 4096 * (64 * x + y) + 64 * z + u" by (metis glue)
    then have r: "r = 262144 * x + 4096 * y + 64 * z + u" by simp
    have lt: "y < 64" "z < 64" "u < 64" by (simp_all add: y_def z_def u_def)
    have e: "EncodeRune r = map char_of [0xF0 + x, 0x80 + y, 0x80 + z, 0x80 + u]"
      using 4 assms by (simp add: EncodeRune_def scalar_def x_def y_def z_def u_def flip: div_mult2_eq)
    consider "x = 0" "16 \<le> y" | "1 \<le> x" "x \<le> 3" | "x = 4" "y < 16"
      using 4 lt assms by (auto simp: r scalar_def) linarith
    then show ?thesis using lt unfolding e by cases (simp_all add: r utf8_defs)
  qed
qed

lemma EncodeRune_bad: "\<not> scalar r \<Longrightarrow> EncodeRune r = EncodeRune RuneError"
  by (auto simp: scalar_def EncodeRune_def surrogate_def between_def RuneError_def)

lemma ValidString_EncodeRune [simp]: "ValidString (EncodeRune r @ s) = ValidString s"
proof -
  have step: "ValidString (EncodeRune q @ s) = ValidString s" if "scalar q" for q
  proof -
    obtain c t where ct: "EncodeRune q = c # t" by (cases "EncodeRune q") (simp_all add: EncodeRune_def split: if_splits)
    with DecodeRune_EncodeRune [OF that, of s] show ?thesis by simp
  qed
  show ?thesis
  proof (cases "scalar r")
    case True
    then show ?thesis by (rule step)
  next
    case False
    with step [of RuneError] show ?thesis
      by (simp add: EncodeRune_bad scalar_def surrogate_def between_def RuneError_def)
  qed
qed

text \<open>Every byte that belongs to no code point replaced by the replacement rune.\<close>

function coerce_utf8 :: "string \<Rightarrow> string" where
  "coerce_utf8 [] = []"
| "coerce_utf8 (c # s) =
     EncodeRune (fst (DecodeRune (c # s))) @ coerce_utf8 (drop (snd (DecodeRune (c # s))) (c # s))"
  by pat_completeness auto
termination
proof (relation "measure length", goal_cases)
  case (2 c s)
  then show ?case using DecodeRune_size_pos [of c s] by (simp del: DecodeRune_size_pos)
qed simp

lemma ValidString_coerce [simp]: "ValidString (coerce_utf8 s)"
  by (induction s rule: coerce_utf8.induct) simp_all

lemma coerce_valid [simp]: "ValidString s \<Longrightarrow> coerce_utf8 s = s"
proof (induction s rule: coerce_utf8.induct)
  case (2 c s)
  obtain r n where d: "DecodeRune (c # s) = (r, n)" by fastforce
  with 2 EncodeRune_DecodeRune [OF _ d] have "coerce_utf8 (c # s) = take n (c # s) @ drop n (c # s)"
    by (simp del: append_take_drop_id)
  then show ?case by simp
qed simp

lemma ValidString_append: "ValidString a \<Longrightarrow> ValidString (a @ b) = ValidString b"
proof (induction a rule: ValidString.induct)
  case (2 c s)
  obtain r n where d: "DecodeRune (c # s) = (r, n)" by fastforce
  from 2(2) have good: "good_rune (c # s)" by simp
  from DecodeRune_size [OF _ d] have n: "n \<le> length (c # s)" by simp
  have "take n (c # s) @ drop n (c # s) @ b = (c # s) @ b" by (simp flip: append_assoc)
  with DecodeRune_take [OF good d, of "drop n (c # s) @ b"] have d': "DecodeRune (c # s @ b) = (r, n)" by simp
  with good d have "good_rune (c # s @ b)" by (simp add: good_rune_def)
  moreover from n have "drop n (c # s @ b) = drop n (c # s) @ b" by (cases n) auto
  ultimately show ?case using 2 d d' by (simp del: drop_append)
qed simp

declare ValidString.simps(2) [simp del] coerce_utf8.simps(2) [simp del]

end
