(* ===== verification/Go_Json_Text.thy ===== *)
theory Go_Json_Text
  imports Go_Json Go_Utf8 "HOL-Library.Monad_Syntax"
begin

text \<open>
  The text level of \<open>encoding/json\<close>, as the node uses it: \<open>Marshal\<close> writes a value without
  white space, \<open>Unmarshal\<close> reads a whole text and \<open>Decoder.Decode\<close> the first value of a stream.
  Both readers are the same scanner; a reader here returns what it read and the text it left.
\<close>

section \<open>Hexadecimal digits and escapes\<close>

definition hex_digit :: "nat \<Rightarrow> char" where
  "hex_digit n = (if n < 10 then char_of (48 + n) else char_of (87 + n))"

definition hex_value :: "char \<Rightarrow> nat option" where
  "hex_value c =
     (let b = byte c in
      if between 48 57 b then Some (b - 48)
      else if between 97 102 b then Some (b - 87)
      else if between 65 70 b then Some (b - 55)
      else None)"

text \<open>Four hexadecimal digits, and \<open>getu4\<close>: an escape \<open>\u\<close> with its four digits.\<close>

fun hex4 :: "string \<Rightarrow> (nat \<times> string) option" where
  "hex4 (a # b # c # d # r) =
     do { x \<leftarrow> hex_value a; y \<leftarrow> hex_value b; z \<leftarrow> hex_value c; u \<leftarrow> hex_value d;
          Some (4096 * x + 256 * y + 16 * z + u, r) }"
| "hex4 _ = None"

definition backslash :: char where
  "backslash = CHR 0x5C"

definition quotation :: char where
  "quotation = CHR 0x22"

definition getu4 :: "string \<Rightarrow> (nat \<times> string) option" where
  "getu4 s = (case s of b # u # r \<Rightarrow> if b = backslash \<and> u = CHR ''u'' then hex4 r else None | _ \<Rightarrow> None)"

text \<open>
  What an escape stands for, after its backslash.  A \<open>\u\<close> escape of a surrogate is joined with the
  one that follows when they make a pair; a surrogate on its own becomes the replacement rune.
\<close>

definition surrogate_pair :: "nat \<Rightarrow> nat \<Rightarrow> nat option" where
  "surrogate_pair hi lo =
     (if between 0xD800 0xDBFF hi \<and> between 0xDC00 0xDFFF lo
      then Some (1024 * (hi - 0xD800) + (lo - 0xDC00) + 0x10000) else None)"

definition unescape_u :: "nat \<Rightarrow> string \<Rightarrow> string \<times> string" where
  "unescape_u r s =
     (if surrogate r then
        (case getu4 s of
           Some (r1, s1) \<Rightarrow>
             (case surrogate_pair r r1 of Some q \<Rightarrow> (EncodeRune q, s1) | None \<Rightarrow> (EncodeRune RuneError, s))
         | None \<Rightarrow> (EncodeRune RuneError, s))
      else (EncodeRune r, s))"

definition simple_escape :: "char \<Rightarrow> char option" where
  "simple_escape c =
     (if c = quotation \<or> c = backslash \<or> c = CHR ''/'' then Some c
      else if c = CHR ''b'' then Some CHR 0x08
      else if c = CHR ''f'' then Some CHR 0x0C
      else if c = CHR ''n'' then Some CHR 0x0A
      else if c = CHR ''r'' then Some CHR 0x0D
      else if c = CHR ''t'' then Some CHR 0x09
      else None)"

definition unescape :: "string \<Rightarrow> (string \<times> string) option" where
  "unescape s =
     (case s of
        [] \<Rightarrow> None
      | c # r \<Rightarrow>
          if c = CHR ''u'' then do { (x, r1) \<leftarrow> hex4 r; Some (unescape_u x r1) }
          else do { d \<leftarrow> simple_escape c; Some ([d], r) })"

lemma hex4_shorter: "hex4 s = Some (x, r) \<Longrightarrow> length r < length s"
  by (induction s rule: hex4.induct) (auto split: bind_splits)

lemma getu4_shorter: "getu4 s = Some (x, r) \<Longrightarrow> length r < length s"
  by (auto simp: getu4_def split: list.splits if_splits dest!: hex4_shorter)

lemma unescape_u_shorter: "unescape_u x s = (t, r) \<Longrightarrow> length r \<le> length s"
  by (auto simp: unescape_u_def split: if_splits option.splits dest!: getu4_shorter)

lemma unescape_shorter: "unescape s = Some (t, r) \<Longrightarrow> length r < length s"
  by (auto simp: unescape_def split: list.splits if_splits bind_splits
      dest!: hex4_shorter unescape_u_shorter)

section \<open>Strings\<close>

text \<open>
  The inside of a string up to its closing quotation mark.  Control characters are refused; bytes
  that are not UTF-8 become the replacement rune.
\<close>

function p_string :: "string \<Rightarrow> (string \<times> string) option" where
  "p_string [] = None"
| "p_string (c # s) =
     (if c = quotation then Some ([], s)
      else if c = backslash then
        (case unescape s of
           None \<Rightarrow> None
         | Some (t, s1) \<Rightarrow> map_option (\<lambda>(u, r). (t @ u, r)) (p_string s1))
      else if byte c < 0x20 then None
      else if byte c < 0x80 then map_option (\<lambda>(u, r). (c # u, r)) (p_string s)
      else map_option (\<lambda>(u, r). (EncodeRune (fst (DecodeRune (c # s))) @ u, r))
             (p_string (drop (snd (DecodeRune (c # s))) (c # s))))"
  by pat_completeness auto
termination
proof (relation "measure length", goal_cases)
  case (4 c s)
  then show ?case using DecodeRune_size_pos [of c s] by (simp del: DecodeRune_size_pos)
qed (auto dest: unescape_shorter)

declare p_string.simps(2) [simp del]

text \<open>
  \<open>appendString\<close> of the encoder, which escapes the characters that HTML treats specially as well.
\<close>

definition escape_ascii :: "char \<Rightarrow> string" where
  "escape_ascii c =
     (let b = byte c in
      if c = backslash \<or> c = quotation then [backslash, c]
      else if b = 8 then [backslash, CHR ''b'']
      else if b = 12 then [backslash, CHR ''f'']
      else if b = 10 then [backslash, CHR ''n'']
      else if b = 13 then [backslash, CHR ''r'']
      else if b = 9 then [backslash, CHR ''t'']
      else if b < 0x20 \<or> c = CHR ''<'' \<or> c = CHR ''>'' \<or> c = CHR ''&''
        then backslash # ''u00'' @ [hex_digit (b div 16), hex_digit (b mod 16)]
      else [c])"

definition quote_rune :: "string \<Rightarrow> string" where
  "quote_rune s =
     (case DecodeRune s of
        (r, n) \<Rightarrow>
          if r = RuneError \<and> n = 1 then backslash # ''ufffd''
          else if r = 0x2028 \<or> r = 0x2029 then backslash # ''u202'' @ [hex_digit (r mod 16)]
          else take n s)"

function quote_body :: "string \<Rightarrow> string" where
  "quote_body [] = []"
| "quote_body (c # s) =
     (if byte c < 0x80 then escape_ascii c @ quote_body s
      else quote_rune (c # s) @ quote_body (drop (snd (DecodeRune (c # s))) (c # s)))"
  by pat_completeness auto
termination
proof (relation "measure length", goal_cases)
  case (3 c s)
  then show ?case using DecodeRune_size_pos [of c s] by (simp del: DecodeRune_size_pos)
qed simp_all

definition quote :: "string \<Rightarrow> string" where
  "quote s = quotation # quote_body s @ [quotation]"

text \<open>The string the encoder wrote is the string that is read.\<close>

lemma hex_value_digit [simp]: "n < 16 \<Longrightarrow> hex_value (hex_digit n) = Some n"
  by (auto simp: hex_value_def hex_digit_def between_def Let_def)

lemma byte_hex_digit: "n < 16 \<Longrightarrow> byte (hex_digit n) < 0x80"
  by (simp add: hex_digit_def)

lemma hex_value_char [simp]: "hex_value CHR ''0'' = Some 0" "hex_value CHR ''2'' = Some 2"
  by (simp_all add: hex_value_def between_def)

lemma byte_special [simp]: "byte backslash = 92" "byte quotation = 34"
  by (simp_all add: backslash_def quotation_def)

lemma special_neq [simp]: "backslash \<noteq> quotation" "quotation \<noteq> backslash"
  by (simp_all add: backslash_def quotation_def)

lemma byte_eq_iff: "byte c = n \<longleftrightarrow> n < 256 \<and> c = char_of n"
  using byte_less [of c] by auto

lemma p_string_quotation [simp]: "p_string (quotation # s) = Some ([], s)"
  by (subst p_string.simps) simp

lemma p_string_backslash:
  "unescape s = Some (t, s1) \<Longrightarrow> p_string (backslash # s) = map_option (\<lambda>(u, r). (t @ u, r)) (p_string s1)"
  by (subst p_string.simps) simp

lemma p_string_plain:
  "c \<noteq> quotation \<Longrightarrow> c \<noteq> backslash \<Longrightarrow> 0x20 \<le> byte c \<Longrightarrow> byte c < 0x80 \<Longrightarrow>
   p_string (c # s) = map_option (\<lambda>(u, r). (c # u, r)) (p_string s)"
  by (subst p_string.simps) simp

lemma p_string_multi:
  "0x80 \<le> byte c \<Longrightarrow> DecodeRune (c # s) = (x, n) \<Longrightarrow>
   p_string (c # s) = map_option (\<lambda>(u, r). (EncodeRune x @ u, r)) (p_string (drop n (c # s)))"
  by (subst p_string.simps) auto

lemma unescape_u00:
  "byte c < 0x80 \<Longrightarrow>
   unescape (''u00'' @ hex_digit (byte c div 16) # hex_digit (byte c mod 16) # s) = Some ([c], s)"
  using div_mult_mod_eq [of "byte c" 16]
  by (simp add: unescape_def unescape_u_def surrogate_def between_def EncodeRune_def less_mult_imp_div_less)

lemma unescape_simple:
  "simple_escape c = Some d \<Longrightarrow> unescape (c # s) = Some ([d], s)"
  by (auto simp: unescape_def simple_escape_def quotation_def backslash_def split: if_splits)

lemma simple_escape_chars [simp]:
  "simple_escape backslash = Some backslash" "simple_escape quotation = Some quotation"
  "simple_escape CHR ''b'' = Some CHR 0x08" "simple_escape CHR ''f'' = Some CHR 0x0C"
  "simple_escape CHR ''n'' = Some CHR 0x0A" "simple_escape CHR ''r'' = Some CHR 0x0D"
  "simple_escape CHR ''t'' = Some CHR 0x09"
  by (simp_all add: simple_escape_def quotation_def backslash_def)

lemma escape_ascii_letter:
  assumes "byte c \<in> {8, 9, 10, 12, 13}"
  shows "\<exists>d. escape_ascii c = [backslash, d] \<and> simple_escape d = Some c"
proof -
  have "char_of (8 :: nat) = CHR 0x08" "char_of (9 :: nat) = CHR 0x09" "char_of (10 :: nat) = CHR 0x0A"
    "char_of (12 :: nat) = CHR 0x0C" "char_of (13 :: nat) = CHR 0x0D"
    by (simp_all add: char_of_def bit_0)
  with assms have "c = CHR 0x08 \<or> c = CHR 0x09 \<or> c = CHR 0x0A \<or>
      c = CHR 0x0C \<or> c = CHR 0x0D"
    by (auto simp: byte_eq_iff)
  then show ?thesis
    by (elim disjE) (simp_all add: escape_ascii_def quotation_def backslash_def Let_def simple_escape_def)
qed

lemma p_string_escape_ascii:
  assumes "byte c < 0x80"
  shows "p_string (escape_ascii c @ s) = map_option (\<lambda>(u, r). (c # u, r)) (p_string s)"
proof (cases "c = backslash \<or> c = quotation")
  case True
  then have "escape_ascii c = [backslash, c]" "simple_escape c = Some c" by (auto simp: escape_ascii_def)
  then show ?thesis by (simp add: p_string_backslash unescape_simple)
next
  case special: False
  show ?thesis
  proof (cases "byte c \<in> {8, 9, 10, 12, 13}")
    case True
    with escape_ascii_letter obtain d where "escape_ascii c = [backslash, d]" "simple_escape d = Some c" by blast
    then show ?thesis by (simp add: p_string_backslash unescape_simple)
  next
    case letter: False
    show ?thesis
    proof (cases "byte c < 0x20 \<or> c = CHR ''<'' \<or> c = CHR ''>'' \<or> c = CHR ''&''")
      case True
      with special letter
      have "escape_ascii c = backslash # ''u00'' @ [hex_digit (byte c div 16), hex_digit (byte c mod 16)]"
        by (simp add: escape_ascii_def Let_def)
      with unescape_u00 [OF assms, of s] show ?thesis by (simp add: p_string_backslash)
    next
      case False
      with special letter assms show ?thesis by (simp add: escape_ascii_def Let_def p_string_plain)
    qed
  qed
qed

lemma unescape_ufffd: "unescape (''ufffd'' @ s) = Some (EncodeRune RuneError, s)"
  by (simp add: unescape_def unescape_u_def surrogate_def between_def hex_value_def RuneError_def)

lemma p_string_quote_rune:
  assumes "0x80 \<le> byte c" and d: "DecodeRune (c # t) = (r, n)"
  shows "p_string (quote_rune (c # t) @ s) = map_option (\<lambda>(u, v). (EncodeRune r @ u, v)) (p_string s)"
proof (cases "good_rune (c # t)")
  case False
  with d have "r = RuneError" "quote_rune (c # t) = backslash # ''ufffd''"
    by (auto simp: good_rune_def quote_rune_def)
  with unescape_ufffd [of s] show ?thesis by (simp add: p_string_backslash)
next
  case good: True
  from EncodeRune_DecodeRune [OF good d] have enc: "EncodeRune r = take n (c # t)" .
  from DecodeRune_size [OF _ d] obtain m where n: "n = Suc m" by (cases n) auto
  show ?thesis
  proof (cases "r = 0x2028 \<or> r = 0x2029")
    case True
    then have "quote_rune (c # t) = backslash # ''u202'' @ [hex_digit (r mod 16)]"
      by (auto simp: quote_rune_def d RuneError_def)
    moreover from True have "unescape (''u202'' @ hex_digit (r mod 16) # s) = Some (EncodeRune r, s)"
      by (auto simp: unescape_def unescape_u_def surrogate_def between_def)
    ultimately show ?thesis by (simp add: p_string_backslash)
  next
    case False
    with good d have "quote_rune (c # t) = take n (c # t)" by (auto simp: quote_rune_def good_rune_def)
    moreover from DecodeRune_take [OF good d, of s] have "DecodeRune (c # take m t @ s) = (r, Suc m)" by (simp add: n)
    moreover from DecodeRune_size [OF _ d] n have "length (take m t) = m" by simp
    ultimately show ?thesis using assms(1) by (simp add: n p_string_multi)
  qed
qed

lemma p_string_quote_body [simp]:
  "p_string (quote_body s @ quotation # rest) = Some (coerce_utf8 s, rest)"
proof (induction s rule: quote_body.induct)
  case 1
  then show ?case by simp
next
  case (2 c s)
  obtain r n where d: "DecodeRune (c # s) = (r, n)" by fastforce
  show ?case
  proof (cases "byte c < 0x80")
    case True
    with 2 show ?thesis by (simp add: p_string_escape_ascii EncodeRune_def coerce_utf8.simps(2))
  next
    case False
    with 2 d p_string_quote_rune [of c s r n] show ?thesis by (simp add: coerce_utf8.simps(2))
  qed
qed

section \<open>Values\<close>

definition is_space :: "char \<Rightarrow> bool" where
  "is_space c = (byte c \<in> {0x20, 0x09, 0x0A, 0x0D})"

definition skip_ws :: "string \<Rightarrow> string" where
  "skip_ws s = dropWhile is_space s"

definition expect :: "char \<Rightarrow> string \<Rightarrow> string option" where
  "expect c s = (case skip_ws s of [] \<Rightarrow> None | d # r \<Rightarrow> if d = c then Some r else None)"

text \<open>
  A number: a sign, digits without a leading zero, a fraction and an exponent.  Each part returns the
  text it took.
\<close>

definition digits1 :: "string \<Rightarrow> (string \<times> string) option" where
  "digits1 s = (case takeWhile is_digit s of [] \<Rightarrow> None | ds \<Rightarrow> Some (ds, dropWhile is_digit s))"

definition int_part :: "string \<Rightarrow> (string \<times> string) option" where
  "int_part s =
     (case s of
        [] \<Rightarrow> None
      | c # r \<Rightarrow> if c = CHR ''0'' then Some ([c], r) else digits1 s)"

definition frac_part :: "string \<Rightarrow> (string \<times> string) option" where
  "frac_part s =
     (case s of
        [] \<Rightarrow> Some ([], [])
      | c # r \<Rightarrow> if c = CHR ''.'' then do { (ds, r1) \<leftarrow> digits1 r; Some (c # ds, r1) } else Some ([], s))"

definition exp_sign :: "string \<Rightarrow> string \<times> string" where
  "exp_sign s =
     (case s of [] \<Rightarrow> ([], []) | c # r \<Rightarrow> if c = CHR ''+'' \<or> c = CHR ''-'' then ([c], r) else ([], s))"

definition exp_part :: "string \<Rightarrow> (string \<times> string) option" where
  "exp_part s =
     (case s of
        [] \<Rightarrow> Some ([], [])
      | c # r \<Rightarrow>
          if c = CHR ''e'' \<or> c = CHR ''E'' then
            (case exp_sign r of (sg, r1) \<Rightarrow> do { (ds, r2) \<leftarrow> digits1 r1; Some (c # sg @ ds, r2) })
          else Some ([], s))"

definition then_read ::
  "(string \<Rightarrow> (string \<times> string) option) \<Rightarrow> (string \<Rightarrow> (string \<times> string) option) \<Rightarrow> string \<Rightarrow> (string \<times> string) option" where
  "then_read p f s = do { (t, r) \<leftarrow> p s; (u, r1) \<leftarrow> f r; Some (t @ u, r1) }"

definition p_unsigned :: "string \<Rightarrow> (string \<times> string) option" where
  "p_unsigned = then_read int_part (then_read frac_part exp_part)"

definition p_number :: "string \<Rightarrow> (string \<times> string) option" where
  "p_number s =
     (case s of
        [] \<Rightarrow> None
      | c # r \<Rightarrow>
          if c = CHR ''-'' then do { (l, r1) \<leftarrow> p_unsigned r; Some (c # l, r1) } else p_unsigned s)"

definition p_literal :: "string \<Rightarrow> 'a \<Rightarrow> string \<Rightarrow> ('a \<times> string) option" where
  "p_literal lit v s = (if HasPrefix s lit then Some (v, drop (length lit) s) else None)"

text \<open>
  Items separated by commas, up to a closing character.  The test of the length only makes the
  recursion well-founded: every item reader used below takes at least one character.
\<close>

function sep_list :: "(string \<Rightarrow> ('a \<times> string) option) \<Rightarrow> char \<Rightarrow> string \<Rightarrow> ('a list \<times> string) option" where
  "sep_list item close s =
     (case item s of
        None \<Rightarrow> None
      | Some (x, r) \<Rightarrow>
          (case skip_ws r of
             [] \<Rightarrow> None
           | c # r1 \<Rightarrow>
               if c = close then Some ([x], r1)
               else if c = CHR '','' \<and> length r1 < length s then
                 map_option (\<lambda>(xs, r2). (x # xs, r2)) (sep_list item close r1)
               else None))"
  by pat_completeness auto
termination
  by (relation "measure (\<lambda>(_, _, s). length s)") auto

declare sep_list.simps [simp del]

definition p_member :: "(string \<Rightarrow> (json \<times> string) option) \<Rightarrow> string \<Rightarrow> ((string \<times> json) \<times> string) option" where
  "p_member item s =
     do { r \<leftarrow> expect quotation s; (k, r1) \<leftarrow> p_string r; r2 \<leftarrow> expect CHR '':'' r1; (v, r3) \<leftarrow> item r2;
          Some ((k, v), r3) }"

text \<open>
  A value, with the reader of the values nested in it, or nothing when no deeper nesting is allowed.
\<close>

definition p_object :: "(string \<Rightarrow> (json \<times> string) option) \<Rightarrow> string \<Rightarrow> (json \<times> string) option" where
  "p_object item r =
     (case expect CHR ''}'' r of
        Some r1 \<Rightarrow> Some (JObj [], r1)
      | None \<Rightarrow> map_option (\<lambda>(ms, r1). (JObj ms, r1)) (sep_list (p_member item) CHR ''}'' r))"

definition p_array :: "(string \<Rightarrow> (json \<times> string) option) \<Rightarrow> string \<Rightarrow> (json \<times> string) option" where
  "p_array item r =
     (case expect CHR '']'' r of
        Some r1 \<Rightarrow> Some (JArr [], r1)
      | None \<Rightarrow> map_option (\<lambda>(vs, r1). (JArr vs, r1)) (sep_list item CHR '']'' r))"

definition p_step ::
  "(string \<Rightarrow> (json \<times> string) option) option \<Rightarrow> string \<Rightarrow> (json \<times> string) option" where
  "p_step inner s =
     (case skip_ws s of
        [] \<Rightarrow> None
      | c # r \<Rightarrow>
          if c = CHR ''{'' then do { item \<leftarrow> inner; p_object item r }
          else if c = CHR ''['' then do { item \<leftarrow> inner; p_array item r }
          else if c = quotation then map_option (\<lambda>(t, r1). (JStr t, r1)) (p_string r)
          else if c = CHR ''t'' then p_literal ''true'' (JBool True) (c # r)
          else if c = CHR ''f'' then p_literal ''false'' (JBool False) (c # r)
          else if c = CHR ''n'' then p_literal ''null'' JNull (c # r)
          else map_option (\<lambda>(l, r1). (JNum l, r1)) (p_number (c # r)))"

primrec p_value :: "nat \<Rightarrow> string \<Rightarrow> (json \<times> string) option" where
  "p_value 0 = p_step None"
| "p_value (Suc d) = p_step (Some (p_value d))"

text \<open>The scanner allows ten thousand levels of nesting.\<close>

definition maxNestingDepth :: nat where
  "maxNestingDepth = 10000"

definition Unmarshal :: "string \<Rightarrow> json option" where
  "Unmarshal s = do { (v, r) \<leftarrow> p_value maxNestingDepth s; if skip_ws r = [] then Some v else None }"

definition Decode :: "string \<Rightarrow> json option" where
  "Decode s = map_option fst (p_value maxNestingDepth s)"

section \<open>Writing\<close>

fun commas :: "string list \<Rightarrow> string" where
  "commas [] = []"
| "commas [x] = x"
| "commas (x # xs) = x @ '','' @ commas xs"

fun Marshal :: "json \<Rightarrow> string" where
  "Marshal JNull = ''null''"
| "Marshal (JBool b) = (if b then ''true'' else ''false'')"
| "Marshal (JNum l) = l"
| "Marshal (JStr s) = quote s"
| "Marshal (JArr vs) = ''['' @ commas (map Marshal vs) @ '']''"
| "Marshal (JObj ms) = ''{'' @ commas (map (\<lambda>(k, v). quote k @ '':'' @ Marshal v) ms) @ ''}''"

text \<open>
  The values that have a text are those whose number literals are numbers; a string that is not
  UTF-8 is written with the replacement rune.  The nesting depth of a value.
\<close>

fun num_json :: "json \<Rightarrow> bool" where
  "num_json (JNum l) = (p_number l = Some (l, []))"
| "num_json (JArr vs) = list_all num_json vs"
| "num_json (JObj ms) = list_all (\<lambda>(k, v). num_json v) ms"
| "num_json _ = True"

fun coerce_json :: "json \<Rightarrow> json" where
  "coerce_json (JStr s) = JStr (coerce_utf8 s)"
| "coerce_json (JArr vs) = JArr (map coerce_json vs)"
| "coerce_json (JObj ms) = JObj (map (\<lambda>(k, v). (coerce_utf8 k, coerce_json v)) ms)"
| "coerce_json j = j"

fun wf_json :: "json \<Rightarrow> bool" where
  "wf_json (JNum l) = (p_number l = Some (l, []))"
| "wf_json (JStr s) = ValidString s"
| "wf_json (JArr vs) = list_all wf_json vs"
| "wf_json (JObj ms) = list_all (\<lambda>(k, v). ValidString k \<and> wf_json v) ms"
| "wf_json _ = True"

fun json_depth :: "json \<Rightarrow> nat" where
  "json_depth (JArr vs) = Suc (fold max (map json_depth vs) 0)"
| "json_depth (JObj ms) = Suc (fold max (map (\<lambda>(k, v). json_depth v) ms) 0)"
| "json_depth _ = 0"

end
