(* ===== verification/Go_Json_Laws.thy ===== *)
theory Go_Json_Laws
  imports Go_Json_Text
begin

text \<open>
  The laws of the JSON text layer: a value that is written is read back, whatever is read is well
  formed and can be written and read again, and a text that holds more than one value or less than
  one is refused.
\<close>

section \<open>Reading with more text behind\<close>

text \<open>
  A number ends where no digit, point or exponent follows; a reader that ended before the end of the
  text, or at a place where the number may end, takes the same when more text follows.
\<close>

definition num_end :: "string \<Rightarrow> bool" where
  "num_end s = (case s of [] \<Rightarrow> True | c # _ \<Rightarrow> \<not> is_digit c \<and> c \<notin> {CHR ''.'', CHR ''e'', CHR ''E''})"

definition extends :: "(string \<Rightarrow> (string \<times> string) option) \<Rightarrow> bool" where
  "extends p \<longleftrightarrow> (\<forall>s t r q. p s = Some (t, r) \<longrightarrow>
     s = t @ r \<and> (r \<noteq> [] \<or> num_end q \<longrightarrow> p (s @ q) = Some (t, r @ q)))"

lemma extends_split: "extends p \<Longrightarrow> p s = Some (t, r) \<Longrightarrow> s = t @ r"
  by (simp add: extends_def)

lemma extends_append: "extends p \<Longrightarrow> p s = Some (t, r) \<Longrightarrow> r \<noteq> [] \<or> num_end q \<Longrightarrow> p (s @ q) = Some (t, r @ q)"
  by (simp add: extends_def)

lemma takeWhile_dropWhile_append:
  "dropWhile P s \<noteq> [] \<or> q = [] \<or> \<not> P (hd q) \<Longrightarrow>
   takeWhile P (s @ q) = takeWhile P s \<and> dropWhile P (s @ q) = dropWhile P s @ q"
  by (induction s) (auto simp: takeWhile_eq_Nil_iff dropWhile_eq_self_iff)

lemma digits1_extends: "extends digits1"
proof -
  have "digits1 (s @ q) = Some (t, r @ q)" if "digits1 s = Some (t, r)" "r \<noteq> [] \<or> num_end q" for s t r q
  proof -
    from that have "dropWhile is_digit s \<noteq> [] \<or> q = [] \<or> \<not> is_digit (hd q)"
      by (auto simp: digits1_def num_end_def split: list.splits)
    with that(1) takeWhile_dropWhile_append [of is_digit s q] show ?thesis
      by (auto simp: digits1_def split: list.splits)
  qed
  moreover have "s = t @ r" if "digits1 s = Some (t, r)" for s t r
    using that takeWhile_dropWhile_id [of is_digit s] by (auto simp: digits1_def split: list.splits)
  ultimately show ?thesis by (auto simp: extends_def)
qed

lemma extendsI:
  assumes "\<And>s t r. p s = Some (t, r) \<Longrightarrow> s = t @ r"
    and "\<And>s t r q. p s = Some (t, r) \<Longrightarrow> r \<noteq> [] \<or> num_end q \<Longrightarrow> p (s @ q) = Some (t, r @ q)"
  shows "extends p"
  using assms by (simp add: extends_def)

lemma then_read_Some:
  "then_read p f s = Some (v, r1) \<longleftrightarrow> (\<exists>t r u. p s = Some (t, r) \<and> f r = Some (u, r1) \<and> v = t @ u)"
  by (auto simp: then_read_def split: bind_splits)

lemma then_read_extends:
  assumes p: "extends p" and f: "extends f"
  shows "extends (then_read p f)"
proof (rule extendsI)
  fix s v r1
  assume "then_read p f s = Some (v, r1)"
  then obtain t r u where run: "p s = Some (t, r)" "f r = Some (u, r1)" "v = t @ u" by (auto simp: then_read_Some)
  with extends_split [OF p] extends_split [OF f] show "s = v @ r1" by auto
  fix q
  assume "r1 \<noteq> [] \<or> num_end q"
  moreover from this extends_split [OF f run(2)] have "r \<noteq> [] \<or> num_end q" by auto
  ultimately show "then_read p f (s @ q) = Some (v, r1 @ q)"
    using run extends_append [OF p run(1)] extends_append [OF f run(2)] by (auto simp: then_read_Some)
qed

lemma num_end_Cons: "num_end (c # r) \<longleftrightarrow> \<not> is_digit c \<and> c \<notin> {CHR ''.'', CHR ''e'', CHR ''E''}"
  by (simp add: num_end_def)

lemma int_part_extends: "extends int_part"
proof (rule extendsI)
  fix s t r
  assume run: "int_part s = Some (t, r)"
  then obtain c s' where s: "s = c # s'" by (cases s) (auto simp: int_part_def)
  from run show "s = t @ r" using extends_split [OF digits1_extends] by (auto simp: s int_part_def split: if_splits)
  fix q
  assume "r \<noteq> [] \<or> num_end q"
  with run show "int_part (s @ q) = Some (t, r @ q)"
    using extends_append [OF digits1_extends, of s t r q] by (auto simp: s int_part_def split: if_splits)
qed

lemma frac_part_extends: "extends frac_part"
proof (rule extendsI)
  fix s t r
  assume run: "frac_part s = Some (t, r)"
  then show "s = t @ r"
    by (auto simp: frac_part_def split: list.splits if_splits bind_splits dest: extends_split [OF digits1_extends])
  fix q
  assume "r \<noteq> [] \<or> num_end q"
  with run show "frac_part (s @ q) = Some (t, r @ q)"
    by (cases s; cases q)
      (auto simp: frac_part_def num_end_Cons extends_append [OF digits1_extends] split: if_splits bind_splits)
qed

lemma exp_part_extends: "extends exp_part"
proof (rule extendsI)
  fix s t r
  assume run: "exp_part s = Some (t, r)"
  then show "s = t @ r"
    by (auto simp: exp_part_def exp_sign_def split: list.splits if_splits bind_splits
        dest: extends_split [OF digits1_extends])
  fix q
  assume fin: "r \<noteq> [] \<or> num_end q"
  show "exp_part (s @ q) = Some (t, r @ q)"
  proof (cases s)
    case Nil
    with run fin show ?thesis by (cases q) (auto simp: exp_part_def num_end_Cons)
  next
    case (Cons c u)
    show ?thesis
    proof (cases "c = CHR ''e'' \<or> c = CHR ''E''")
      case True
      obtain sg r1 where sg: "exp_sign u = (sg, r1)" by fastforce
      from run True Cons sg obtain ds where ds: "digits1 r1 = Some (ds, r)" "t = c # sg @ ds"
        by (auto simp: exp_part_def split: bind_splits)
      then have "r1 \<noteq> []" by (auto simp: digits1_def)
      with sg have "exp_sign (u @ q) = (sg, r1 @ q)" by (auto simp: exp_sign_def split: list.splits if_splits)
      with True Cons ds extends_append [OF digits1_extends ds(1) fin] show ?thesis
        by (auto simp: exp_part_def)
    next
      case False
      with run Cons show ?thesis by (auto simp: exp_part_def)
    qed
  qed
qed

lemma p_unsigned_extends: "extends p_unsigned"
  unfolding p_unsigned_def
  by (intro then_read_extends int_part_extends frac_part_extends exp_part_extends)

lemma p_number_extends: "extends p_number"
proof (rule extendsI)
  fix s t r
  assume run: "p_number s = Some (t, r)"
  then obtain c u where s: "s = c # u" by (cases s) (auto simp: p_number_def)
  from run show "s = t @ r" using extends_split [OF p_unsigned_extends]
    by (auto simp: s p_number_def split: if_splits bind_splits)
  fix q
  assume "r \<noteq> [] \<or> num_end q"
  with run show "p_number (s @ q) = Some (t, r @ q)"
    using extends_append [OF p_unsigned_extends, of s t r q] extends_append [OF p_unsigned_extends, of u _ r q]
    by (auto simp: s p_number_def split: if_splits bind_splits)
qed

section \<open>What is written is read back\<close>

lemma skip_ws_simps [simp]: "skip_ws [] = []" "\<not> is_space c \<Longrightarrow> skip_ws (c # s) = c # s"
  by (simp_all add: skip_ws_def)

lemma not_space [simp]:
  "\<not> is_space CHR ''{''" "\<not> is_space CHR ''}''" "\<not> is_space CHR ''[''" "\<not> is_space CHR '']''"
  "\<not> is_space CHR '',''" "\<not> is_space CHR '':''" "\<not> is_space quotation" "\<not> is_space CHR ''t''"
  "\<not> is_space CHR ''f''" "\<not> is_space CHR ''n''" "\<not> is_space CHR ''-''"
  by (simp_all add: is_space_def)

lemma digit_not_space [simp]: "is_digit c \<Longrightarrow> \<not> is_space c"
  by (auto simp: is_space_def is_digit_def)

lemma num_end_simps [simp]:
  "num_end []" "num_end (CHR '','' # s)" "num_end (CHR ''}'' # s)" "num_end (CHR '']'' # s)"
  by (simp_all add: num_end_def is_digit_def)

lemma quotation_neq [simp]:
  "quotation \<noteq> CHR ''{''" "quotation \<noteq> CHR ''}''" "quotation \<noteq> CHR ''[''" "quotation \<noteq> CHR '']''"
  by (simp_all add: quotation_def)

lemma expect_Cons: "\<not> is_space d \<Longrightarrow> expect c (d # s) = (if d = c then Some s else None)"
  by (simp add: expect_def)

lemma sep_list_commas:
  assumes "\<And>x q. x \<in> set xs \<Longrightarrow> num_end q \<Longrightarrow> item (pr x @ q) = Some (co x, q)"
    and "xs \<noteq> []" and "close \<in> {CHR ''}'', CHR '']''}"
  shows "sep_list item close (commas (map pr xs) @ close # rest) = Some (map co xs, rest)"
  using assms(1,2)
proof (induction xs)
  case (Cons x xs)
  show ?case
  proof (cases xs)
    case Nil
    with Cons.prems(1) [of x "close # rest"] assms(3) show ?thesis
      by (subst sep_list.simps) auto
  next
    case (Cons y ys)
    with Cons.IH Cons.prems(1) [of x "CHR '','' # commas (map pr xs) @ close # rest"] Cons.prems assms(3) show ?thesis
      by (subst sep_list.simps) auto
  qed
qed simp

text \<open>The first character of a value, which tells what it is.\<close>

definition starts_value :: "string \<Rightarrow> bool" where
  "starts_value s = (case s of [] \<Rightarrow> False | c # _ \<Rightarrow> \<not> is_space c \<and> c \<noteq> CHR ''}'' \<and> c \<noteq> CHR '']'')"

lemma digits1_Some: "digits1 s = Some (t, r) \<Longrightarrow> s \<noteq> [] \<and> is_digit (hd s)"
  by (cases s) (auto simp: digits1_def split: list.splits if_splits)

lemma p_number_first:
  assumes "p_number s = Some (l, r)"
  shows "\<exists>c u. s = c # u \<and> (is_digit c \<or> c = CHR ''-'')"
proof -
  have zero: "is_digit CHR ''0''" by (simp add: is_digit_def)
  from assms show ?thesis
    by (cases s) (auto simp: p_number_def p_unsigned_def then_read_Some int_part_def zero
        split: if_splits list.splits dest: digits1_Some)
qed

lemma Marshal_starts: "num_json j \<Longrightarrow> starts_value (Marshal j @ q)"
proof (cases j)
  case (JNum l)
  assume "num_json j"
  with JNum p_number_first [of l l "[]"] show ?thesis by (auto simp: starts_value_def is_digit_def)
qed (auto simp: starts_value_def quote_def)

lemma expect_close: "starts_value s \<Longrightarrow> c \<in> {CHR ''}'', CHR '']''} \<Longrightarrow> expect c s = None"
  by (cases s) (auto simp: starts_value_def expect_Cons)

lemma commas_starts:
  "xs \<noteq> [] \<Longrightarrow> (\<And>q. starts_value (hd xs @ q)) \<Longrightarrow> starts_value (commas xs @ q)"
  by (cases xs rule: commas.cases) auto

lemma fold_max_le [simp]: "fold max xs a \<le> d \<longleftrightarrow> a \<le> (d::nat) \<and> (\<forall>x \<in> set xs. x \<le> d)"
  by (induction xs arbitrary: a) auto

lemma fold_max_eq_0 [simp]: "fold max xs a = 0 \<longleftrightarrow> a = (0::nat) \<and> (\<forall>x \<in> set xs. x = 0)"
  using fold_max_le [of xs a 0] by (simp del: fold_max_le)

lemma p_member_quote:
  "p_member item (quote k @ CHR '':'' # s) = do { (v, r) \<leftarrow> item s; Some ((coerce_utf8 k, v), r) }"
  by (simp add: p_member_def quote_def expect_Cons)

lemma p_value_step: "(\<And>inner. p_step inner s = x) \<Longrightarrow> p_value d s = x"
  by (cases d) simp_all

lemma p_value_number:
  assumes "p_number l = Some (l, [])" and "num_end q"
  shows "p_value d (l @ q) = Some (JNum l, q)"
proof -
  obtain c u where l: "l = c # u" "is_digit c \<or> c = CHR ''-''" using p_number_first [OF assms(1)] by blast
  from extends_append [OF p_number_extends assms(1)] assms(2) have run: "p_number (l @ q) = Some (l, q)" by simp
  have "c \<notin> {CHR ''{'', CHR ''['', quotation, CHR ''t'', CHR ''f'', CHR ''n''}" "\<not> is_space c"
    using l(2) by (auto simp: is_digit_def quotation_def)
  with run show ?thesis by (intro p_value_step) (simp add: p_step_def l(1))
qed

lemma p_value_Marshal:
  "num_json j \<Longrightarrow> json_depth j \<le> d \<Longrightarrow> num_end q \<Longrightarrow> p_value d (Marshal j @ q) = Some (coerce_json j, q)"
proof (induction j arbitrary: d q rule: Marshal.induct)
  case 1
  show ?case by (rule p_value_step) (simp add: p_step_def p_literal_def HasPrefix_def quotation_def)
next
  case (2 b)
  show ?case by (rule p_value_step) (simp add: p_step_def p_literal_def HasPrefix_def quotation_def)
next
  case (3 l)
  then show ?case by (simp add: p_value_number)
next
  case (4 s)
  then show ?case by (intro p_value_step) (simp add: p_step_def quote_def)
next
  case (5 vs)
  then obtain d' where d: "d = Suc d'" by (cases d) auto
  show ?case
  proof (cases "vs = []")
    case True
    then show ?thesis by (simp add: d p_step_def p_array_def expect_Cons)
  next
    case False
    have item: "p_value d' (Marshal v @ r) = Some (coerce_json v, r)" if "v \<in> set vs" "num_end r" for v r
      using that 5 d by (auto simp: list_all_iff)
    have "starts_value (commas (map Marshal vs) @ r)" for r
      using False 5(2) by (intro commas_starts) (auto simp: hd_map list_all_iff intro: Marshal_starts)
    then have "expect CHR '']'' (commas (map Marshal vs) @ r) = None" for r by (simp add: expect_close)
    with False sep_list_commas [of vs "p_value d'" Marshal coerce_json "CHR '']''", OF item] show ?thesis
      by (simp add: d p_step_def p_array_def)
  qed
next
  case (6 ms)
  then obtain d' where d: "d = Suc d'" by (cases d) auto
  let ?pr = "\<lambda>(k, v). quote k @ '':'' @ Marshal v" and ?co = "\<lambda>(k, v). (coerce_utf8 k, coerce_json v)"
  show ?case
  proof (cases "ms = []")
    case True
    then show ?thesis by (simp add: d p_step_def p_object_def expect_Cons)
  next
    case False
    have item: "p_member (p_value d') (?pr m @ r) = Some (?co m, r)" if "m \<in> set ms" "num_end r" for m r
    proof -
      obtain k v where m: "m = (k, v)" by (cases m)
      with that 6(2,3) d have wf: "num_json v" "json_depth v \<le> d'" by (auto simp: list_all_iff)
      have "p_value d' (Marshal v @ r) = Some (coerce_json v, r)"
        using that m by (intro 6(1) [OF _ refl]) (simp_all add: wf)
      then show ?thesis by (simp add: m p_member_quote)
    qed
    have "starts_value (commas (map ?pr ms) @ r)" for r
      using False by (intro commas_starts) (auto simp: hd_map split_beta starts_value_def quote_def)
    then have "expect CHR ''}'' (commas (map ?pr ms) @ r) = None" for r by (simp add: expect_close)
    with False sep_list_commas [of ms "p_member (p_value d')" ?pr ?co "CHR ''}''", OF item] show ?thesis
      by (simp add: d p_step_def p_object_def)
  qed
qed

lemma wf_json_coerce: "wf_json j \<Longrightarrow> num_json j \<and> coerce_json j = j"
  by (induction j rule: wf_json.induct) (auto simp: list_all_iff intro!: map_idI)

lemma Unmarshal_Marshal:
  "num_json j \<Longrightarrow> json_depth j \<le> maxNestingDepth \<Longrightarrow> Unmarshal (Marshal j) = Some (coerce_json j)"
  using p_value_Marshal [of j maxNestingDepth "[]"] by (simp add: Unmarshal_def)

lemma Unmarshal_Marshal_wf:
  "wf_json j \<Longrightarrow> json_depth j \<le> maxNestingDepth \<Longrightarrow> Unmarshal (Marshal j) = Some j"
  using Unmarshal_Marshal wf_json_coerce by simp

lemma Decode_Marshal:
  "num_json j \<Longrightarrow> json_depth j \<le> maxNestingDepth \<Longrightarrow> num_end q \<Longrightarrow> Decode (Marshal j @ q) = Some (coerce_json j)"
  using p_value_Marshal [of j maxNestingDepth q] by (simp add: Decode_def)

lemma Decode_Marshal_wf:
  "wf_json j \<Longrightarrow> json_depth j \<le> maxNestingDepth \<Longrightarrow> Decode (Marshal j) = Some j"
  using Decode_Marshal [of j "[]"] wf_json_coerce by simp

text \<open>\<open>Encoder.Encode\<close> ends the text with a newline.\<close>

lemma Unmarshal_Encode:
  "num_json j \<Longrightarrow> json_depth j \<le> maxNestingDepth \<Longrightarrow> Unmarshal (Marshal j @ newline) = Some (coerce_json j)"
  using p_value_Marshal [of j maxNestingDepth newline]
  by (simp add: Unmarshal_def newline_def num_end_def is_digit_def skip_ws_def is_space_def)

text \<open>The texts of numbers and instants are ASCII.\<close>

lemma ascii_digits: "list_all is_digit s \<Longrightarrow> ascii s"
  by (auto simp: list_all_iff is_digit_def)

lemma ascii_Itoa [simp]: "ascii (Itoa i)"
  by (simp add: Itoa_def ascii_digits)

lemma ascii_pad [simp]: "ascii (pad n i)"
proof -
  have "ascii (replicate k CHR ''0'')" for k by (induction k) simp_all
  then show ?thesis by (simp add: pad_def Let_def)
qed

lemma ascii_RFC3339: "ascii (format_RFC3339 z t)"
  by (simp add: format_RFC3339_def Let_def split_beta)

lemma ascii_RFC3339Nano: "ascii (format_RFC3339Nano z t)"
proof -
  have "ascii (fraction_text t)"
    using ascii_pad [of 9 "t mod 1000000000"] set_dropWhileD
    by (fastforce simp: fraction_text_def Let_def list_all_iff)
  moreover have "ascii (take 19 s @ drop 19 s) \<Longrightarrow> ascii (take 19 s) \<and> ascii (drop 19 s)" for s :: string
    by (simp only: list_all_append)
  ultimately show ?thesis using ascii_RFC3339 [of z t] by (simp add: format_RFC3339Nano_def Let_def)
qed

lemmas ValidString_instants [simp] = ValidString_ascii [OF ascii_RFC3339] ValidString_ascii [OF ascii_RFC3339Nano]

section \<open>What is read is well formed\<close>

text \<open>A reader of text that would have taken the same had the text ended earlier.\<close>

definition truncates :: "(string \<Rightarrow> (string \<times> string) option) \<Rightarrow> bool" where
  "truncates p \<longleftrightarrow> (\<forall>s t x y. p s = Some (t, x @ y) \<longrightarrow> p (t @ x) = Some (t, x))"

lemma truncatesI: "(\<And>s t x y. p s = Some (t, x @ y) \<Longrightarrow> p (t @ x) = Some (t, x)) \<Longrightarrow> truncates p"
  by (simp add: truncates_def)

lemma truncatesD: "truncates p \<Longrightarrow> p s = Some (t, x @ y) \<Longrightarrow> p (t @ x) = Some (t, x)"
  unfolding truncates_def by blast

lemma truncates_digits1: "truncates digits1"
proof (rule truncatesI)
  fix s t x y
  assume run: "digits1 s = Some (t, x @ y)"
  then have t: "t = takeWhile is_digit s" "t \<noteq> []" "dropWhile is_digit s = x @ y"
    by (auto simp: digits1_def split: list.splits)
  then have all: "\<forall>c \<in> set t. is_digit c" by (auto dest: set_takeWhileD)
  have "x = [] \<or> \<not> is_digit (hd x)" using t(3) hd_dropWhile [of is_digit s] by (cases x) auto
  with all have "takeWhile is_digit (t @ x) = t" "dropWhile is_digit (t @ x) = x"
    by (cases x; simp)+
  with t(2) show "digits1 (t @ x) = Some (t, x)" by (auto simp: digits1_def split: list.splits)
qed

lemma truncates_then:
  assumes p: "truncates p" "extends p" and f: "truncates f" "extends f"
  shows "truncates (then_read p f)"
  unfolding truncates_def
proof (intro allI impI)
  fix s v x y
  assume "then_read p f s = Some (v, x @ y)"
  then obtain t r u where run: "p s = Some (t, r)" "f r = Some (u, x @ y)" "v = t @ u"
    by (auto simp: then_read_Some)
  with extends_split [OF f(2) run(2)] have "p s = Some (t, (u @ x) @ y)" by simp
  with p(1) have "p (t @ u @ x) = Some (t, u @ x)" unfolding truncates_def by blast
  moreover from f(1) run(2) have "f (u @ x) = Some (u, x)" unfolding truncates_def by blast
  ultimately show "then_read p f (v @ x) = Some (v, x)" using run(3) by (auto simp: then_read_Some)
qed

lemma digits1_first: "digits1 s = Some (t, r) \<Longrightarrow> \<exists>d ds. t = d # ds \<and> is_digit d"
  by (cases s) (auto simp: digits1_def split: list.splits if_splits)

lemma truncates_int_part: "truncates int_part"
proof (rule truncatesI)
  fix s t x y
  assume run: "int_part s = Some (t, x @ y)"
  then obtain c u where s: "s = c # u" by (cases s) (auto simp: int_part_def)
  show "int_part (t @ x) = Some (t, x)"
  proof (cases "c = CHR ''0''")
    case True
    with run show ?thesis by (auto simp: s int_part_def)
  next
    case False
    with run have d: "digits1 s = Some (t, x @ y)" by (simp add: s int_part_def)
    from digits1_first [OF d] extends_split [OF digits1_extends d] False obtain ds where "t = c # ds"
      by (auto simp: s)
    with truncatesD [OF truncates_digits1 d] False show ?thesis by (simp add: int_part_def)
  qed
qed

lemma truncates_frac_part: "truncates frac_part"
proof (rule truncatesI)
  fix s t x y
  assume run: "frac_part s = Some (t, x @ y)"
  show "frac_part (t @ x) = Some (t, x)"
  proof (cases "s \<noteq> [] \<and> hd s = CHR ''.''")
    case True
    with run obtain ds where ds: "digits1 (tl s) = Some (ds, x @ y)" "t = CHR ''.'' # ds"
      by (cases s) (auto simp: frac_part_def split: bind_splits)
    with truncatesD [OF truncates_digits1 ds(1)] show ?thesis by (simp add: frac_part_def)
  next
    case False
    with run have "t = []" "s = x @ y" by (cases s; auto simp: frac_part_def)+
    with False show ?thesis by (cases x) (simp_all add: frac_part_def)
  qed
qed

lemma truncates_exp_part: "truncates exp_part"
proof (rule truncatesI)
  fix s t x y
  assume run: "exp_part s = Some (t, x @ y)"
  show "exp_part (t @ x) = Some (t, x)"
  proof (cases "s \<noteq> [] \<and> hd s \<in> {CHR ''e'', CHR ''E''}")
    case True
    then obtain c u where s: "s = c # u" "c = CHR ''e'' \<or> c = CHR ''E''" by (cases s) auto
    obtain sg r1 where sg: "exp_sign u = (sg, r1)" by fastforce
    with run s obtain ds where ds: "digits1 r1 = Some (ds, x @ y)" "t = c # sg @ ds"
      by (auto simp: exp_part_def split: bind_splits)
    from digits1_first [OF ds(1)] obtain e es where e: "ds = e # es" "is_digit e" by blast
    then have "e \<noteq> CHR ''+''" "e \<noteq> CHR ''-''" by (auto simp: is_digit_def)
    with sg e have "exp_sign (sg @ ds @ x) = (sg, ds @ x)" by (auto simp: exp_sign_def split: list.splits if_splits)
    with truncatesD [OF truncates_digits1 ds(1)] s(2) ds(2) show ?thesis by (auto simp: exp_part_def)
  next
    case False
    with run have "t = []" "s = x @ y" by (cases s; auto simp: exp_part_def)+
    with False show ?thesis by (cases x) (simp_all add: exp_part_def)
  qed
qed

lemma p_number_self: "p_number s = Some (l, r) \<Longrightarrow> p_number l = Some (l, [])"
proof -
  have tr: "truncates p_unsigned"
    unfolding p_unsigned_def
    by (intro truncates_then truncates_int_part truncates_frac_part truncates_exp_part then_read_extends
        int_part_extends frac_part_extends exp_part_extends)
  assume run: "p_number s = Some (l, r)"
  show ?thesis
  proof (cases "hd s = CHR ''-''")
    case True
    with run obtain l' where "p_unsigned (tl s) = Some (l', [] @ r)" "l = CHR ''-'' # l'"
      by (cases s) (auto simp: p_number_def split: bind_splits)
    with truncatesD [OF tr] show ?thesis by (fastforce simp: p_number_def)
  next
    case False
    with run have u: "p_unsigned s = Some (l, [] @ r)" by (cases s) (auto simp: p_number_def)
    with p_number_first [OF run] extends_split [OF p_unsigned_extends u] truncatesD [OF tr u] False show ?thesis
      by (cases l) (auto simp: p_number_def p_unsigned_def then_read_Some int_part_def digits1_def)
  qed
qed

lemma unescape_valid: "unescape s = Some (t, r) \<Longrightarrow> ValidString (t @ u) = ValidString u"
proof -
  have enc: "unescape_u x q = (t, r) \<Longrightarrow> \<exists>y. t = EncodeRune y" for x q
    by (auto simp: unescape_u_def split: if_splits option.splits)
  assume "unescape s = Some (t, r)"
  then show ?thesis
    by (auto simp: unescape_def simple_escape_def split: list.splits if_splits bind_splits dest!: enc)
qed

lemma p_string_elim:
  assumes "p_string s = Some (t, r)"
  obtains (close) "s = quotation # r" "t = []"
  | (escape) s1 u s2 t' where "s = backslash # s1" "unescape s1 = Some (u, s2)" "p_string s2 = Some (t', r)" "t = u @ t'"
  | (plain) c s1 t' where "s = c # s1" "c \<noteq> quotation" "c \<noteq> backslash" "0x20 \<le> byte c" "byte c < 0x80"
      "p_string s1 = Some (t', r)" "t = c # t'"
  | (multi) c s1 x n t' where "s = c # s1" "0x80 \<le> byte c" "DecodeRune (c # s1) = (x, n)"
      "p_string (drop n (c # s1)) = Some (t', r)" "t = EncodeRune x @ t'"
proof (cases s)
  case Nil
  with assms show thesis by simp
next
  case (Cons c s1)
  obtain x n where d: "DecodeRune (c # s1) = (x, n)" by fastforce
  consider "c = quotation" | "c = backslash" | "c \<noteq> quotation" "c \<noteq> backslash" "byte c < 0x80"
    | "0x80 \<le> byte c" by linarith
  then show thesis
  proof cases
    case 1
    with assms Cons close show thesis by simp
  next
    case 2
    with assms Cons obtain u s2 where u: "unescape s1 = Some (u, s2)"
      by (auto simp: p_string.simps(2) split: option.splits)
    moreover from this 2 assms Cons obtain t' where "p_string s2 = Some (t', r)" "t = u @ t'"
      by (auto simp: p_string_backslash)
    ultimately obtain u s2 t' where "unescape s1 = Some (u, s2)" "p_string s2 = Some (t', r)" "t = u @ t'" by blast
    with 2 Cons escape show thesis by simp
  next
    case 3
    with assms Cons have "0x20 \<le> byte c" by (auto simp: p_string.simps(2) [of c s1] split: if_splits)
    moreover from 3 assms Cons obtain t' where "p_string s1 = Some (t', r)" "t = c # t'"
      by (auto simp: p_string.simps(2) [of c s1] split: if_splits)
    ultimately show thesis using 3 Cons plain by simp
  next
    case 4
    with assms Cons obtain t' where "p_string (drop n (c # s1)) = Some (t', r)" "t = EncodeRune x @ t'"
      by (auto simp: p_string_multi [OF 4 d])
    with 4 Cons d multi show thesis by simp
  qed
qed

lemma drop_DecodeRune_shorter: "DecodeRune (c # s) = (x, n) \<Longrightarrow> length (drop n (c # s)) < length (c # s)"
  using DecodeRune_size [of "c # s"] by fastforce

lemma p_string_valid: "p_string s = Some (t, r) \<Longrightarrow> ValidString t \<and> length r < length s"
proof (induction s arbitrary: t rule: measure_induct_rule [where f = length])
  case (less s)
  from less.prems show ?case
  proof (cases rule: p_string_elim)
    case (escape s1 u s2 t')
    with unescape_shorter [OF escape(2)] less.IH [OF _ escape(3)] show ?thesis by (simp add: unescape_valid)
  next
    case (plain c s1 t')
    with less.IH [OF _ plain(6)] show ?thesis by simp
  next
    case (multi c s1 x n t')
    with drop_DecodeRune_shorter [OF multi(3)] less.IH [OF _ multi(4)] show ?thesis by simp
  qed simp
qed

lemma skip_ws_length: "length (skip_ws s) \<le> length s"
  by (simp add: skip_ws_def length_dropWhile_le)

lemma expect_shorter: "expect c s = Some r \<Longrightarrow> length r < length s"
  using skip_ws_length [of s] by (auto simp: expect_def split: list.splits if_splits)

lemma sep_list_all:
  assumes item: "\<And>s x r. item s = Some (x, r) \<Longrightarrow> P x \<and> length r < length s"
  shows "sep_list item close s = Some (xs, r) \<Longrightarrow> list_all P xs \<and> length r < length s"
  using item
proof (induction item close s arbitrary: xs r rule: sep_list.induct)
  case (1 item close s)
  from 1(2) obtain x r0 c r1 where x: "item s = Some (x, r0)" "skip_ws r0 = c # r1"
    by (subst (asm) sep_list.simps) (auto split: option.splits list.splits)
  with 1(3) skip_ws_length [of r0] have px: "P x" "length r1 < length s" by fastforce+
  show ?case
  proof (cases "c = close")
    case True
    with 1(2) x px show ?thesis by (subst (asm) sep_list.simps) auto
  next
    case False
    with 1(2) x obtain xs' where "c = CHR '',''" "sep_list item close r1 = Some (xs', r)" "xs = x # xs'"
      by (subst (asm) sep_list.simps) (auto split: if_splits)
    with 1(1) [OF x(1) refl x(2) False _ _ 1(3)] px show ?thesis by fastforce
  qed
qed

lemma p_member_Some:
  "p_member item s = Some ((k, v), r3) \<longleftrightarrow>
   (\<exists>r r1 r2. expect quotation s = Some r \<and> p_string r = Some (k, r1) \<and> expect CHR '':'' r1 = Some r2 \<and>
      item r2 = Some (v, r3))"
  by (auto simp: p_member_def bind_eq_Some_conv)

lemma p_member_all:
  assumes item: "\<And>s x r. item s = Some (x, r) \<Longrightarrow> P x \<and> length r < length s"
    and run: "p_member item s = Some ((k, v), r3)"
  shows "(ValidString k \<and> P v) \<and> length r3 < length s"
proof -
  from run obtain r r1 r2 where "expect quotation s = Some r" and k: "p_string r = Some (k, r1)"
    and "expect CHR '':'' r1 = Some r2" and "item r2 = Some (v, r3)"
    by (auto simp: p_member_Some)
  then have "length r < length s" "length r2 < length r1" "P v" "length r3 < length r2"
    by (auto dest: expect_shorter item)
  with p_string_valid [OF k] show ?thesis by simp
qed

text \<open>What one step of the reader makes of a text, when it reads something.\<close>

lemma p_step_elim:
  assumes "p_step inner s = Some (j, r)"
  obtains (empty_object) item s1 where "inner = Some item" "skip_ws s = CHR ''{'' # s1" "expect CHR ''}'' s1 = Some r" "j = JObj []"
  | (object) item s1 ms where "inner = Some item" "skip_ws s = CHR ''{'' # s1" "expect CHR ''}'' s1 = None"
      "sep_list (p_member item) CHR ''}'' s1 = Some (ms, r)" "j = JObj ms"
  | (empty_array) item s1 where "inner = Some item" "skip_ws s = CHR ''['' # s1" "expect CHR '']'' s1 = Some r" "j = JArr []"
  | (array) item s1 vs where "inner = Some item" "skip_ws s = CHR ''['' # s1" "expect CHR '']'' s1 = None"
      "sep_list item CHR '']'' s1 = Some (vs, r)" "j = JArr vs"
  | (str) s1 t where "skip_ws s = quotation # s1" "p_string s1 = Some (t, r)" "j = JStr t"
  | (lit) l where "l \<noteq> []" "skip_ws s = l @ r" "j \<in> {JNull, JBool True, JBool False}"
      "\<And>q inner'. p_step inner' (l @ q) = Some (j, q)" "\<not> is_space (hd l)"
  | (num) c s1 l where "skip_ws s = c # s1" "p_number (c # s1) = Some (l, r)" "j = JNum l"
      "c \<notin> {CHR ''{'', CHR ''['', quotation, CHR ''t'', CHR ''f'', CHR ''n''}"
proof -
  from assms obtain c s1 where s: "skip_ws s = c # s1" by (auto simp: p_step_def split: list.splits)
  have word: thesis if "p_literal w v (c # s1) = Some (j, r)" "w = [x] @ w'" "\<not> is_space x" "v \<in> {JNull, JBool True, JBool False}"
      "\<And>q inner'. p_step inner' (w @ q) = Some (v, q)" for w v x w'
  proof -
    from that(1) have "j = v" "c # s1 = w @ r"
      by (auto simp: p_literal_def HasPrefix_iff split: if_splits)
    with that s show thesis by (intro lit [of w]) auto
  qed
  have letters: "\<not> is_space CHR ''t''" "\<not> is_space CHR ''f''" "\<not> is_space CHR ''n''"
    "quotation \<noteq> CHR ''t''" "quotation \<noteq> CHR ''f''" "quotation \<noteq> CHR ''n''"
    by (simp_all add: is_space_def quotation_def)
  note words = word [of "''true''" "JBool True" "CHR ''t''" "''rue''"]
    word [of "''false''" "JBool False" "CHR ''f''" "''alse''"] word [of "''null''" JNull "CHR ''n''" "''ull''"]
  consider "c = CHR ''{''" | "c = CHR ''[''" | "c = quotation" | "c = CHR ''t''" | "c = CHR ''f''" | "c = CHR ''n''"
    | "c \<notin> {CHR ''{'', CHR ''['', quotation, CHR ''t'', CHR ''f'', CHR ''n''}" by blast
  then show thesis
  proof cases
    case 1
    with assms s show thesis
      by (auto simp: p_step_def p_object_def split: option.splits bind_splits intro: empty_object object)
  next
    case 2
    with assms s show thesis
      by (auto simp: p_step_def p_array_def split: option.splits bind_splits intro: empty_array array)
  next
    case 3
    with assms s show thesis by (auto simp: p_step_def intro: str)
  next
    case 4
    with assms s letters show thesis
      by (intro words(1)) (auto simp: p_step_def p_literal_def HasPrefix_def)
  next
    case 5
    with assms s letters show thesis
      by (intro words(2)) (auto simp: p_step_def p_literal_def HasPrefix_def)
  next
    case 6
    with assms s letters show thesis
      by (intro words(3)) (auto simp: p_step_def p_literal_def HasPrefix_def)
  next
    case 7
    with assms s show thesis by (auto simp: p_step_def intro: num)
  qed
qed

definition good_value :: "nat \<Rightarrow> json \<Rightarrow> bool" where
  "good_value d j = (wf_json j \<and> json_depth j \<le> d)"

lemma p_step_good:
  assumes item: "\<And>item s x r. inner = Some item \<Longrightarrow> item s = Some (x, r) \<Longrightarrow> 0 < d \<and> good_value (d - 1) x \<and> length r < length s"
    and pos: "inner \<noteq> None \<Longrightarrow> 0 < d"
    and run: "p_step inner s = Some (j, r)"
  shows "good_value d j \<and> length r < length s"
  using run
proof (cases rule: p_step_elim)
  case (object item s1 ms)
  have "list_all (\<lambda>(k, v). ValidString k \<and> good_value (d - 1) v) ms \<and> length r < length s1"
  proof (rule sep_list_all [OF _ object(4)])
    fix s x r
    assume "p_member item s = Some (x, r)"
    with p_member_all [of item "good_value (d - 1)"] item [OF object(1)]
    show "(case x of (k, v) \<Rightarrow> ValidString k \<and> good_value (d - 1) v) \<and> length r < length s"
      by (cases x) fastforce
  qed
  with object pos skip_ws_length [of s] show ?thesis
    by (cases d) (auto simp: good_value_def list_all_iff)
next
  case (array item s1 vs)
  have "list_all (good_value (d - 1)) vs \<and> length r < length s1"
    by (rule sep_list_all [OF _ array(4)]) (use item [OF array(1)] in blast)
  with array pos skip_ws_length [of s] show ?thesis
    by (cases d) (auto simp: good_value_def list_all_iff)
next
  case (lit l)
  with skip_ws_length [of s] show ?thesis by (cases l) (auto simp: good_value_def)
next
  case (num c s1 l)
  from p_number_self [OF num(2)] num(3) have "good_value d j" by (simp add: good_value_def)
  moreover from extends_split [OF p_number_extends num(2)] p_number_first [OF p_number_self [OF num(2)]]
  have "length r < length (c # s1)" by auto
  ultimately show ?thesis using skip_ws_length [of s] num(1) by simp
qed (use pos skip_ws_length [of s] in \<open>auto simp: good_value_def dest!: expect_shorter p_string_valid\<close>)

lemma p_value_good: "p_value d s = Some (j, r) \<Longrightarrow> good_value d j \<and> length r < length s"
proof (induction d arbitrary: s j r)
  case 0
  then show ?case by (intro p_step_good [of None 0 s]) simp_all
next
  case (Suc d)
  from Suc.prems show ?case by (intro p_step_good [of "Some (p_value d)" "Suc d" s]) (use Suc.IH in simp_all)
qed

section \<open>Values with more text behind\<close>

lemma skip_ws_append: "skip_ws s = c # r \<Longrightarrow> skip_ws (s @ q) = c # r @ q"
  by (induction s) (auto simp: skip_ws_def split: if_splits)

lemma expect_append: "expect c s = Some r \<Longrightarrow> expect c (s @ q) = Some (r @ q)"
  by (auto simp: expect_def split: list.splits if_splits dest: skip_ws_append [of s _ _ q])

lemma expect_None_append: "expect c s = None \<Longrightarrow> skip_ws s \<noteq> [] \<Longrightarrow> expect c (s @ q) = None"
  by (auto simp: expect_def split: list.splits if_splits dest: skip_ws_append [of s _ _ q])

text \<open>A string ends at its quotation mark, so bytes that follow do not matter.\<close>

lemma p_string_high: "list_all (\<lambda>c. 0x80 \<le> byte c) s \<Longrightarrow> p_string s = None"
proof (induction s rule: measure_induct_rule [where f = length])
  case (less s)
  show ?case
  proof (rule ccontr)
    assume "p_string s \<noteq> None"
    then obtain t r where "p_string s = Some (t, r)" by auto
    then show False
    proof (cases rule: p_string_elim)
      case (multi c s1 x n t')
      with less.prems have "list_all (\<lambda>c. 0x80 \<le> byte c) (drop n (c # s1))"
        by (metis in_set_dropD list_all_iff)
      with less.IH [of "drop n (c # s1)"] drop_DecodeRune_shorter [OF multi(3)] multi(1,4) show False by simp
    qed (use less.prems in auto)
  qed
qed

lemma DecodeRune_append:
  "s \<noteq> [] \<Longrightarrow> DecodeRune (s @ q) = DecodeRune s \<or> list_all (\<lambda>c. 0x80 \<le> byte c) s"
proof (cases "good_rune s")
  case True
  obtain r n where d: "DecodeRune s = (r, n)" by fastforce
  have "take n s @ drop n s @ q = s @ q" by (simp flip: append_assoc)
  with DecodeRune_take [OF True d, of "drop n s @ q"] d show ?thesis by simp
next
  case False
  have high: "lead b = Some (n, lo, hi) \<Longrightarrow> 0x80 \<le> lo" for b n lo hi
    by (auto simp: lead_def split: if_splits)
  have "\<not> between lo hi b \<or> 0x80 \<le> b" if "0x80 \<le> lo" for lo hi b
    using that by (auto simp: between_def)
  assume "s \<noteq> []"
  with False show ?thesis
    by (cases s; cases "tl s"; cases "tl (tl s)"; cases "tl (tl (tl s))")
      (auto simp: good_rune_def DecodeRune_def continuation_def between_def split: option.splits if_splits dest: high)
qed

lemma hex4_append: "hex4 (s @ q) = map_option (\<lambda>(x, r). (x, r @ q)) (hex4 s) \<or> length s < 4"
  by (cases s rule: hex4.cases) (auto split: bind_splits)

lemma hex4_short: "length s < 4 \<Longrightarrow> hex4 s = None"
  by (cases s rule: hex4.cases) auto

lemma p_string_u_short: "length r < 4 \<Longrightarrow> p_string (backslash # CHR ''u'' # r) = None"
  by (subst p_string.simps) (simp add: unescape_def hex4_short)

lemma getu4_append:
  assumes "p_string s \<noteq> None"
  shows "getu4 (s @ q) = map_option (\<lambda>(x, r). (x, r @ q)) (getu4 s)"
proof -
  consider b where "s = [b]" | b u r where "s = b # u # r"
    using assms by (cases s; cases "tl s") auto
  then show ?thesis
  proof cases
    case 1
    have "p_string [backslash] = None" by (subst p_string.simps) (simp add: unescape_def)
    with 1 assms have "b \<noteq> backslash" by auto
    with 1 show ?thesis by (simp add: getu4_def split: list.split)
  next
    case 2
    show ?thesis
    proof (cases "b = backslash \<and> u = CHR ''u''")
      case True
      with 2 assms p_string_u_short [of r] hex4_append [of r q] show ?thesis
        by (auto simp: getu4_def)
    next
      case False
      with 2 show ?thesis by (auto simp: getu4_def)
    qed
  qed
qed

lemma hex4_append_Some: "hex4 s = Some (x, r) \<Longrightarrow> hex4 (s @ q) = Some (x, r @ q)"
  using hex4_append [of s q] hex4_short [of s] by auto

lemma getu4_append_Some: "getu4 s = Some (x, r) \<Longrightarrow> getu4 (s @ q) = Some (x, r @ q)"
  by (auto simp: getu4_def split: list.splits if_splits dest: hex4_append_Some [where q = q])

lemma unescape_u_append:
  assumes "unescape_u x s = (t, r)" and "p_string r \<noteq> None"
  shows "unescape_u x (s @ q) = (t, r @ q)"
proof (cases "getu4 s")
  case None
  with assms have "r = s" by (auto simp: unescape_u_def split: if_splits)
  with None assms getu4_append [of s q] show ?thesis by (auto simp: unescape_u_def)
next
  case (Some p)
  then obtain y s1 where "getu4 s = Some (y, s1)" by (cases p) auto
  with assms getu4_append_Some [OF this, of q] show ?thesis
    by (auto simp: unescape_u_def split: option.splits if_splits)
qed

lemma unescape_append:
  assumes "unescape s = Some (t, r)" and "p_string r \<noteq> None"
  shows "unescape (s @ q) = Some (t, r @ q)"
proof (cases s)
  case (Cons c s1)
  show ?thesis
  proof (cases "c = CHR ''u''")
    case True
    with assms(1) Cons obtain x s2 where h: "hex4 s1 = Some (x, s2)" "unescape_u x s2 = (t, r)"
      by (auto simp: unescape_def split: bind_splits)
    with True Cons hex4_append_Some [OF h(1), of q] unescape_u_append [OF h(2) assms(2), of q] show ?thesis
      by (simp add: unescape_def)
  next
    case False
    with assms(1) Cons show ?thesis by (auto simp: unescape_def split: bind_splits)
  qed
qed (use assms in \<open>simp add: unescape_def\<close>)

lemma p_string_append: "p_string s = Some (t, r) \<Longrightarrow> p_string (s @ q) = Some (t, r @ q)"
proof (induction s arbitrary: t rule: measure_induct_rule [where f = length])
  case (less s)
  from less.prems show ?case
  proof (cases rule: p_string_elim)
    case (escape s1 u s2 t')
    with unescape_shorter [OF escape(2)] less.IH [OF _ escape(3)] have "p_string (s2 @ q) = Some (t', r @ q)" by simp
    with unescape_append [OF escape(2)] escape show ?thesis by (simp add: p_string_backslash)
  next
    case (plain c s1 t')
    with less.IH [OF _ plain(6)] show ?thesis by (simp add: p_string_plain)
  next
    case (multi c s1 x n t')
    have "\<not> list_all (\<lambda>c. 0x80 \<le> byte c) s" using less.prems p_string_high by fastforce
    with DecodeRune_append [of s q] multi have d: "DecodeRune (c # s1 @ q) = (x, n)" by auto
    have "n \<le> length (c # s1)" using DecodeRune_size [OF _ multi(3)] by simp
    then have "drop n (c # s1 @ q) = drop n (c # s1) @ q" by (cases n) auto
    with d multi drop_DecodeRune_shorter [OF multi(3)] less.IH [OF _ multi(4)] show ?thesis
      by (simp add: p_string_multi del: drop_append)
  qed simp
qed

text \<open>A reader of items takes the same with more text behind, and takes nothing from blank text.\<close>

definition ends_item :: "json \<Rightarrow> string \<Rightarrow> string \<Rightarrow> bool" where
  "ends_item j r q \<longleftrightarrow> r \<noteq> [] \<or> num_end q \<or> (\<forall>l. j \<noteq> JNum l)"

lemma ends_item_rest [simp]: "ends_item j (c # r) q"
  by (simp add: ends_item_def)

lemma sep_list_append:
  assumes item: "\<And>s x r q. item s = Some (x, r) \<Longrightarrow> r \<noteq> [] \<Longrightarrow> item (s @ q) = Some (x, r @ q)"
  shows "sep_list item close s = Some (xs, r) \<Longrightarrow> sep_list item close (s @ q) = Some (xs, r @ q)"
  using item
proof (induction item close s arbitrary: xs rule: sep_list.induct)
  case (1 item close s)
  from 1(2) obtain x r0 c r1 where x: "item s = Some (x, r0)" "skip_ws r0 = c # r1"
    by (subst (asm) sep_list.simps) (auto split: option.splits list.splits)
  then have "r0 \<noteq> []" by auto
  with 1(3) x have x': "item (s @ q) = Some (x, r0 @ q)" "skip_ws (r0 @ q) = c # r1 @ q"
    by (auto dest: skip_ws_append)
  show ?case
  proof (cases "c = close")
    case True
    with 1(2) x x' show ?thesis by (subst (asm) sep_list.simps, subst sep_list.simps) auto
  next
    case False
    with 1(2) x obtain xs' where rec: "c = CHR '',''" "length r1 < length s" "sep_list item close r1 = Some (xs', r)" "xs = x # xs'"
      by (subst (asm) sep_list.simps) (auto split: if_splits)
    with 1(1) [OF x(1) refl x(2) False _ _ 1(3)] have "sep_list item close (r1 @ q) = Some (xs', r @ q)" by blast
    with False rec x' show ?thesis by (subst sep_list.simps) simp
  qed
qed

lemma sep_list_nonblank:
  "sep_list item close s = Some (xs, r) \<Longrightarrow> (\<And>x r. item s = Some (x, r) \<Longrightarrow> skip_ws s \<noteq> []) \<Longrightarrow> skip_ws s \<noteq> []"
  by (subst (asm) sep_list.simps) (auto split: option.splits)

lemma p_step_nonblank: "p_step inner s = Some (j, r) \<Longrightarrow> skip_ws s \<noteq> []"
  by (auto simp: p_step_def)

lemma p_value_nonblank: "p_value d s = Some (j, r) \<Longrightarrow> skip_ws s \<noteq> []"
  by (cases d) (auto dest: p_step_nonblank)

lemma p_member_append:
  assumes item: "\<And>s x r q. item s = Some (x, r) \<Longrightarrow> r \<noteq> [] \<Longrightarrow> item (s @ q) = Some (x, r @ q)"
    and "p_member item s = Some (x, r)" and "r \<noteq> []"
  shows "p_member item (s @ q) = Some (x, r @ q)"
proof -
  obtain k v where x: "x = (k, v)" by (cases x)
  with assms(2) obtain r0 r1 r2 where "expect quotation s = Some r0" "p_string r0 = Some (k, r1)"
    "expect CHR '':'' r1 = Some r2" "item r2 = Some (v, r)"
    by (auto simp: p_member_Some)
  with item assms(3) expect_append p_string_append show ?thesis unfolding x p_member_Some by blast
qed

lemma p_step_append:
  assumes item: "\<And>item s x r q. inner = Some item \<Longrightarrow> item s = Some (x, r) \<Longrightarrow> r \<noteq> [] \<Longrightarrow> item (s @ q) = Some (x, r @ q)"
    and blank: "\<And>item s x r. inner = Some item \<Longrightarrow> item s = Some (x, r) \<Longrightarrow> skip_ws s \<noteq> []"
    and run: "p_step inner s = Some (j, r)" and fin: "ends_item j r q"
  shows "p_step inner (s @ q) = Some (j, r @ q)"
  using run
proof (cases rule: p_step_elim)
  case (object item s1 ms)
  have "p_member item s1 = Some (x, r) \<Longrightarrow> skip_ws s1 \<noteq> []" for x r
    by (cases x) (auto simp: p_member_Some expect_def)
  with sep_list_nonblank [OF object(4)] have "skip_ws s1 \<noteq> []" by blast
  with expect_None_append [OF object(3)] have "expect CHR ''}'' (s1 @ q) = None" .
  moreover have "sep_list (p_member item) CHR ''}'' (s1 @ q) = Some (ms, r @ q)"
    by (rule sep_list_append [OF p_member_append [OF item [OF object(1)]] object(4)])
  ultimately show ?thesis
    using object(1,5) by (simp add: p_step_def p_object_def skip_ws_append [OF object(2)])
next
  case (array item s1 vs)
  have "skip_ws s1 \<noteq> []" by (rule sep_list_nonblank [OF array(4)]) (rule blank [OF array(1)])
  with expect_None_append [OF array(3)] have "expect CHR '']'' (s1 @ q) = None" .
  moreover have "sep_list item CHR '']'' (s1 @ q) = Some (vs, r @ q)"
    by (rule sep_list_append [OF item [OF array(1)] array(4)])
  ultimately show ?thesis
    using array(1,5) by (simp add: p_step_def p_array_def skip_ws_append [OF array(2)])
next
  case (empty_object item s1)
  with expect_append [OF empty_object(3), of q] skip_ws_append [OF empty_object(2), of q] show ?thesis
    by (simp add: p_step_def p_object_def)
next
  case (empty_array item s1)
  with expect_append [OF empty_array(3), of q] skip_ws_append [OF empty_array(2), of q] show ?thesis
    by (simp add: p_step_def p_array_def)
next
  case (str s1 t)
  with p_string_append [OF str(2), of q] skip_ws_append [OF str(1), of q] show ?thesis
    by (simp add: p_step_def)
next
  case (lit l)
  then obtain c l' where l: "l = c # l'" "\<not> is_space c" by (cases l) auto
  with lit skip_ws_append [of s c "l' @ r" q] have "skip_ws (s @ q) = skip_ws (l @ r @ q)" by simp
  with lit(4) [of inner "r @ q"] show ?thesis by (simp add: p_step_def)
next
  case (num c s1 l)
  with fin have "r \<noteq> [] \<or> num_end q" by (auto simp: ends_item_def)
  with num extends_append [OF p_number_extends num(2)] skip_ws_append [OF num(1), of q] show ?thesis
    by (simp add: p_step_def)
qed

lemma p_value_append:
  "p_value d s = Some (j, r) \<Longrightarrow> ends_item j r q \<Longrightarrow> p_value d (s @ q) = Some (j, r @ q)"
proof (induction d arbitrary: s j r q)
  case 0
  have "p_step None (s @ q) = Some (j, r @ q)" by (rule p_step_append) (use 0 in simp_all)
  then show ?case by simp
next
  case (Suc d)
  have "p_step (Some (p_value d)) (s @ q) = Some (j, r @ q)"
  proof (rule p_step_append)
    show "\<And>item s x r q. Some (p_value d) = Some item \<Longrightarrow> item s = Some (x, r) \<Longrightarrow> r \<noteq> [] \<Longrightarrow>
        item (s @ q) = Some (x, r @ q)"
      using Suc.IH by (auto simp: ends_item_def)
  qed (use Suc.prems p_value_nonblank in auto)
  then show ?case by simp
qed

text \<open>
  A text that holds a whole value and then more is refused, and so is a text that was cut before its
  value ended.
\<close>

lemma Unmarshal_two:
  assumes "Unmarshal a = Some j" and "\<forall>l. j \<noteq> JNum l" and "skip_ws b \<noteq> []"
  shows "Unmarshal (a @ b) = None"
proof -
  from assms(1) obtain r where r: "p_value maxNestingDepth a = Some (j, r)" "skip_ws r = []"
    by (auto simp: Unmarshal_def split: bind_splits if_splits)
  with p_value_append [OF r(1), of b] assms(2) have "p_value maxNestingDepth (a @ b) = Some (j, r @ b)"
    by (simp add: ends_item_def)
  moreover from r(2) have "skip_ws (r @ b) = skip_ws b" by (simp add: skip_ws_def dropWhile_eq_Nil_conv dropWhile_append)
  ultimately show ?thesis using assms(3) by (simp add: Unmarshal_def)
qed

lemma p_value_object_first: "p_value d s = Some (JObj ms, r) \<Longrightarrow> \<exists>u. skip_ws s = CHR ''{'' # u"
  by (cases d) (simp; erule p_step_elim; auto)+

lemma p_value_number_first: "p_value d s = Some (JNum l, r) \<Longrightarrow> \<exists>c u. skip_ws s = c # u \<and> c \<noteq> CHR ''{''"
  by (cases d) (simp; erule p_step_elim; auto)+

lemma Unmarshal_cut:
  assumes "Unmarshal (a @ b) = Some (JObj ms)" and "skip_ws b \<noteq> []"
  shows "Unmarshal a = None"
proof (rule ccontr)
  assume "Unmarshal a \<noteq> None"
  then obtain j where j: "Unmarshal a = Some j" by auto
  with Unmarshal_two [OF j _ assms(2)] assms(1) obtain l where "j = JNum l" by auto
  with j obtain r where "p_value maxNestingDepth a = Some (JNum l, r)"
    by (auto simp: Unmarshal_def split: bind_splits if_splits)
  with p_value_number_first obtain c u where c: "skip_ws a = c # u" "c \<noteq> CHR ''{''" by blast
  from assms(1) obtain r' where "p_value maxNestingDepth (a @ b) = Some (JObj ms, r')"
    by (auto simp: Unmarshal_def split: bind_splits if_splits)
  with p_value_object_first skip_ws_append [OF c(1), of b] c(2) show False by fastforce
qed

lemma Unmarshal_wf: "Unmarshal s = Some j \<Longrightarrow> wf_json j \<and> json_depth j \<le> maxNestingDepth"
  by (auto simp: Unmarshal_def good_value_def split: bind_splits if_splits dest!: p_value_good)

lemma Decode_wf: "Decode s = Some j \<Longrightarrow> wf_json j \<and> json_depth j \<le> maxNestingDepth"
  by (auto simp: Decode_def good_value_def dest!: p_value_good)

end
