(* ===== verification/Go_Float.thy ===== *)
theory Go_Float
  imports Go_Json_Laws "HOL-Library.Log_Nat" "HOL-Library.AList" "HOL-Library.List_Lexorder" "HOL-Library.Char_ord"
begin

text \<open>
  Numbers of type \<open>float64\<close>, as rationals: \<open>strconv.ParseFloat\<close> on the literals of JSON, the
  text the encoder writes for a float, and the values of type \<open>interface{}\<close> in between.
\<close>

section \<open>Rounding to float64\<close>

definition pow2 :: "int \<Rightarrow> rat" where
  "pow2 e = (if 0 \<le> e then 2 ^ nat e else 1 / 2 ^ nat (- e))"

definition pow10 :: "int \<Rightarrow> rat" where
  "pow10 e = (if 0 \<le> e then 10 ^ nat e else 1 / 10 ^ nat (- e))"

definition round_half_even :: "rat \<Rightarrow> int" where
  "round_half_even x =
     (let f = \<lfloor>x\<rfloor>; d = x - of_int f in
      if d < 1 / 2 then f else if 1 / 2 < d then f + 1 else if even f then f else f + 1)"

text \<open>The exponent of the leading binary digit of a positive rational.\<close>

definition floor_log2 :: "rat \<Rightarrow> int" where
  "floor_log2 x =
     (let (p, q) = quotient_of x; e = bitlen p - bitlen q in if pow2 e \<le> x then e else e - 1)"

text \<open>
  The nearest float of 53 significant bits, ties to even, with the exponent bounded below for the
  subnormal numbers; nothing when it is too large.
\<close>

definition ulp_exp :: "rat \<Rightarrow> int" where
  "ulp_exp x = max (floor_log2 x - 52) (- 1074)"

definition float_limit :: rat where
  "float_limit = pow2 1024"

definition round64 :: "rat \<Rightarrow> rat option" where
  "round64 x =
     (if x = 0 then Some 0
      else let u = pow2 (ulp_exp \<bar>x\<bar>); v = of_int (round_half_even (\<bar>x\<bar> / u)) * u in
        if float_limit \<le> v then None else Some (sgn x * v))"

lemma round_half_even_of_int [simp]: "round_half_even (of_int i) = i"
  by (simp add: round_half_even_def)

lemma pow2_pos [simp]: "0 < pow2 e"
  by (simp add: pow2_def)

lemma pow2_nat: "pow2 (int n) = 2 ^ n"
  by (simp add: pow2_def)

lemma floor_log2_of_int:
  assumes "0 < i"
  shows "floor_log2 (of_int i) = bitlen i - 1"
proof -
  have "bitlen 1 = 1" by (simp add: bitlen_def floorlog_def)
  moreover have "0 \<le> bitlen i - 1" using assms bitlen_eq_zero_iff [of i] bitlen_nonneg [of i] by linarith
  then have "pow2 (bitlen i - 1) = of_int (2 ^ nat (bitlen i - 1))" by (simp add: pow2_def)
  with bitlen_bounds [OF assms] have "pow2 (bitlen i - 1) \<le> of_int i" by (simp only: of_int_le_iff)
  ultimately show ?thesis by (simp add: floor_log2_def Let_def)
qed

text \<open>Integers of at most 53 bits are floats.\<close>

lemma round64_of_int:
  assumes "\<bar>i\<bar> < 2 ^ 53"
  shows "round64 (of_int i) = Some (of_int i)"
proof (cases "i = 0")
  case False
  define a where "a = \<bar>i\<bar>"
  with False assms have a: "0 < a" "a < 2 ^ 53" by simp_all
  have "bitlen a \<le> 53" using a by (simp add: bitlen_le_iff_power)
  moreover have "0 < bitlen a" using a(1) bitlen_eq_zero_iff [of a] bitlen_nonneg [of a] by linarith
  ultimately obtain k where k: "ulp_exp (of_int a) = - int k" "k \<le> 52"
    using floor_log2_of_int [OF a(1)] by (intro that [of "nat (53 - bitlen a)"]) (auto simp: ulp_exp_def)
  then have u: "pow2 (ulp_exp (of_int a)) = 1 / 2 ^ k" by (cases "k = 0") (simp_all add: pow2_def)
  have "of_int a / (1 / 2 ^ k) = (of_int (a * 2 ^ k) :: rat)" by simp
  then have m: "of_int (round_half_even (of_int a / (1 / 2 ^ k))) * (1 / 2 ^ k) = (of_int a :: rat)"
    by (simp only: round_half_even_of_int) simp
  have "(of_int a :: rat) < of_int (2 ^ 53)" using a(2) by (simp only: of_int_less_iff)
  also have "(of_int (2 ^ 53) :: rat) \<le> float_limit"
    using power_increasing [of 53 1024 "2 :: rat"] by (simp add: float_limit_def pow2_def)
  finally have small: "\<not> float_limit \<le> of_int a" by simp
  have abs: "\<bar>of_int i :: rat\<bar> = of_int a" and sgn: "sgn (of_int i) * of_int a = (of_int i :: rat)"
    by (simp_all add: a_def sgn_if)
  show ?thesis unfolding round64_def Let_def abs u m using small sgn False by simp
qed (simp add: round64_def)

section \<open>Reading a number\<close>

text \<open>The value of a literal: its digits with the point moved by the exponent.\<close>

definition lit_value :: "string \<Rightarrow> rat" where
  "lit_value l =
     (let neg = HasPrefix l ''-''; s = (if neg then drop 1 l else l);
          ip = takeWhile is_digit s; r = dropWhile is_digit s;
          fp = (if HasPrefix r ''.'' then takeWhile is_digit (drop 1 r) else []);
          r' = (if HasPrefix r ''.'' then dropWhile is_digit (drop 1 r) else r);
          ex = (case parse_int (drop 1 r') of None \<Rightarrow> 0 | Some e \<Rightarrow> e);
          v = of_nat (decimal_value (ip @ fp)) * pow10 (ex - int (length fp))
      in if neg then - v else v)"

definition ParseFloat :: "string \<Rightarrow> rat option" where
  "ParseFloat l = round64 (lit_value l)"

lemma takeWhile_digits: "list_all P s \<Longrightarrow> takeWhile P s = s \<and> dropWhile P s = []"
  by (induction s) auto

lemma lit_value_Itoa: "lit_value (Itoa i) = of_int i"
proof -
  have ds: "takeWhile is_digit (nat_decimal n) = nat_decimal n \<and> dropWhile is_digit (nat_decimal n) = []" for n
    by (rule takeWhile_digits) simp
  have "\<not> HasPrefix (nat_decimal n) ''-''" for n
    using hd_nat_decimal [of n] by (cases "nat_decimal n") (auto simp: HasPrefix_def is_digit_def)
  then show ?thesis
    by (simp add: lit_value_def Itoa_def ds parse_int_def pow10_def HasPrefix_def Let_def)
qed

lemma ParseFloat_Itoa: "\<bar>i\<bar> < 2 ^ 53 \<Longrightarrow> ParseFloat (Itoa i) = Some (of_int i)"
  by (simp add: ParseFloat_def lit_value_Itoa round64_of_int)

lemma hd_nat_decimal_nonzero: "0 < n \<Longrightarrow> hd (nat_decimal n) \<noteq> CHR ''0''"
proof (induction n rule: nat_decimal.induct)
  case (1 n)
  have "digit n \<noteq> CHR ''0''" if "n < 10" using of_char_digit [OF that] 1(2) by (intro notI) simp
  with 1 show ?case by (subst nat_decimal.simps) (simp add: hd_append)
qed

lemma p_unsigned_nat: "p_unsigned (nat_decimal n) = Some (nat_decimal n, [])"
proof -
  have ds: "takeWhile is_digit (nat_decimal n) = nat_decimal n \<and> dropWhile is_digit (nat_decimal n) = []"
    by (rule takeWhile_digits) simp
  obtain c cs where c: "nat_decimal n = c # cs" by (cases "nat_decimal n") simp_all
  have "n = 0 \<Longrightarrow> nat_decimal n = ''0''" by (subst nat_decimal.simps) (simp add: digit_def char_of_def bit_0)
  then have "c = CHR ''0'' \<Longrightarrow> cs = []" using c hd_nat_decimal_nonzero [of n] by (cases "n = 0") auto
  with c ds have "int_part (nat_decimal n) = Some (nat_decimal n, [])"
    by (auto simp: int_part_def digits1_def split: list.split)
  then show ?thesis by (simp add: p_unsigned_def then_read_Some frac_part_def exp_part_def)
qed

lemma p_number_Itoa [simp]: "p_number (Itoa i) = Some (Itoa i, [])"
proof (cases "i < 0")
  case True
  then show ?thesis by (simp add: Itoa_def p_number_def p_unsigned_nat)
next
  case False
  obtain c cs where c: "nat_decimal (nat i) = c # cs" by (cases "nat_decimal (nat i)") simp_all
  with hd_nat_decimal [of "nat i"] have "c \<noteq> CHR ''-''" by (auto simp: is_digit_def)
  with False c p_unsigned_nat [of "nat i"] show ?thesis by (simp add: Itoa_def p_number_def)
qed

section \<open>Writing a float\<close>

text \<open>
  The text of a float: the digits of the shortest decimal that reads back as the same float, and of
  those the nearest.  A decimal is \<open>m\<close> times a power of ten; the shortest one has the greatest power.
\<close>

definition decimals_at :: "rat \<Rightarrow> int \<Rightarrow> int list" where
  "decimals_at v e =
     (let f = \<lfloor>v / pow10 e\<rfloor>; ok = (\<lambda>m. round64 (of_int m * pow10 e) = Some v);
          ms = filter ok (if v / pow10 e - of_int f \<le> 1 / 2 then [f, f + 1] else [f + 1, f])
      in ms)"

definition shortest_decimal :: "rat \<Rightarrow> int \<times> int" where
  "shortest_decimal v =
     (case List.find (\<lambda>e. decimals_at v e \<noteq> []) (rev [-324..308]) of
        Some e \<Rightarrow> (hd (decimals_at v e), e)
      | None \<Rightarrow> (0, 0))"

definition zeros :: "int \<Rightarrow> string" where
  "zeros n = replicate (nat n) CHR ''0''"

definition positive_float_text :: "rat \<Rightarrow> string" where
  "positive_float_text v =
     (let (m, e) = shortest_decimal v; ds = Itoa m; point = int (length ds) + e in
      if v < 1 / 10 ^ 6 \<or> 10 ^ 21 \<le> v then
        take 1 ds @ (if length ds = 1 then [] else ''.'' @ drop 1 ds) @
        (if point \<le> 0 then ''e-'' else ''e+'') @ Itoa \<bar>point - 1\<bar>
      else if 0 \<le> e then ds @ zeros e
      else if 0 < point then take (nat point) ds @ ''.'' @ drop (nat point) ds
      else ''0.'' @ zeros (- point) @ ds)"

text \<open>An integer below \<open>2 ^ 53\<close> is written with all its digits.\<close>

definition float_text :: "rat \<Rightarrow> string" where
  "float_text v =
     (if v = of_int \<lfloor>v\<rfloor> \<and> \<bar>v\<bar> < 2 ^ 53 then Itoa \<lfloor>v\<rfloor>
      else if v < 0 then ''-'' @ positive_float_text (- v) else positive_float_text v)"

lemma float_text_of_int: "\<bar>i\<bar> < 2 ^ 53 \<Longrightarrow> float_text (of_int i) = Itoa i"
proof -
  assume "\<bar>i\<bar> < 2 ^ 53"
  then have "\<bar>of_int i :: rat\<bar> < of_int (2 ^ 53)" by (simp only: of_int_abs of_int_less_iff flip: of_int_abs)
  then show ?thesis by (simp add: float_text_def)
qed

section \<open>Values of type interface{}\<close>

text \<open>
  What the decoder makes of a JSON value when the target is \<open>interface{}\<close>: of two members with one
  key, the later one counts.
\<close>

fun iface_of_json :: "json \<Rightarrow> iface option" where
  "iface_of_json JNull = Some INil"
| "iface_of_json (JBool b) = Some (IBool b)"
| "iface_of_json (JNum l) = map_option IFloat (ParseFloat l)"
| "iface_of_json (JStr s) = Some (IString s)"
| "iface_of_json (JArr vs) = map_option IList (those (map iface_of_json vs))"
| "iface_of_json (JObj ms) =
     map_option (\<lambda>kvs. IMap (fold (\<lambda>(k, v) m. AList.update k v m) kvs []))
       (those (map (\<lambda>(k, v). map_option (Pair k) (iface_of_json v)) ms))"

text \<open>Storing a value in a field of type \<open>map[string]interface{}\<close>.\<close>

fun store_entries :: "(string \<times> json) list \<Rightarrow> payload \<Rightarrow> payload option" where
  "store_entries [] p = Some p"
| "store_entries ((k, v) # ms) p =
     (case iface_of_json v of None \<Rightarrow> None | Some x \<Rightarrow> store_entries ms (p(k \<mapsto> x)))"

fun decode_payload :: "json \<Rightarrow> payload \<Rightarrow> payload option" where
  "decode_payload JNull p = Some Map.empty"
| "decode_payload (JObj ms) p = store_entries ms p"
| "decode_payload _ p = None"

text \<open>The other way: the encoder writes the entries of a map in the order of their keys.\<close>

fun json_of_iface :: "iface \<Rightarrow> json" where
  "json_of_iface INil = JNull"
| "json_of_iface (IBool b) = JBool b"
| "json_of_iface (IFloat v) = JNum (float_text v)"
| "json_of_iface (IString s) = JStr s"
| "json_of_iface (IList vs) = JArr (map json_of_iface vs)"
| "json_of_iface (IMap ms) = JObj (sort_key fst (map (\<lambda>(k, v). (k, json_of_iface v)) ms))"

end
