(* ===== verification/Rental_API.thy ===== *)
theory Rental_API
  imports Rental_Executor Go_Float
begin

text \<open>
  The HTTP handlers of \<open>internal/api/handler.go\<close>, over any executor that offers the operations of
  \<open>RentalExecutorInterface\<close>.
\<close>

section \<open>The executor the handlers call\<close>

text \<open>
  The state \<open>'e\<close> is the executor together with the goroutines it has left running.
\<close>

record ('e, 'd) RentalExecutorInterface =
  ei_StartRental :: "'d ctx \<Rightarrow> StartRentalRequest \<Rightarrow> 'e \<Rightarrow> 'd world \<Rightarrow>
     ((error + ConnectionInfo) \<times> 'e \<times> 'd world) option"
  ei_StopRental :: "'d ctx \<Rightarrow> string \<Rightarrow> 'e \<Rightarrow> 'd world \<Rightarrow> error option \<times> 'e \<times> 'd world"
  ei_GetRentalStatus :: "string \<Rightarrow> 'e \<Rightarrow> error + RentalState"

section \<open>Requests and responses\<close>

record api_StartRentalRequest =
  ar_SessionID :: string
  ar_GPUDeviceID :: string
  ar_Image :: string
  ar_SSHPassword :: string
  ar_MemoryBytes :: int64
  ar_CPUCount :: int64

definition zero_start_request :: api_StartRentalRequest where
  "zero_start_request =
     \<lparr>ar_SessionID = '''', ar_GPUDeviceID = '''', ar_Image = '''', ar_SSHPassword = '''',
      ar_MemoryBytes = 0, ar_CPUCount = 0\<rparr>"

definition store_start_field :: "string \<Rightarrow> json \<Rightarrow> api_StartRentalRequest \<Rightarrow> api_StartRentalRequest option" where
  "store_start_field k v r =
     (if key_is ''sessionId'' k then map_option (\<lambda>s. r\<lparr>ar_SessionID := s\<rparr>) (decode_string v (ar_SessionID r))
      else if key_is ''gpuDeviceId'' k then map_option (\<lambda>s. r\<lparr>ar_GPUDeviceID := s\<rparr>) (decode_string v (ar_GPUDeviceID r))
      else if key_is ''image'' k then map_option (\<lambda>s. r\<lparr>ar_Image := s\<rparr>) (decode_string v (ar_Image r))
      else if key_is ''sshPassword'' k then map_option (\<lambda>s. r\<lparr>ar_SSHPassword := s\<rparr>) (decode_string v (ar_SSHPassword r))
      else if key_is ''memoryBytes'' k then map_option (\<lambda>n. r\<lparr>ar_MemoryBytes := n\<rparr>) (decode_int64 v (ar_MemoryBytes r))
      else if key_is ''cpuCount'' k then map_option (\<lambda>n. r\<lparr>ar_CPUCount := n\<rparr>) (decode_int64 v (ar_CPUCount r))
      else Some r)"

text \<open>\<open>StopRentalRequest\<close> has the one field \<open>sessionId\<close>.\<close>

definition store_stop_field :: "string \<Rightarrow> json \<Rightarrow> string \<Rightarrow> string option" where
  "store_stop_field k v sid = (if key_is ''sessionId'' k then decode_string v sid else Some sid)"

record 'd http_request =
  rq_Method :: string
  rq_Body :: string
  rq_query_sessionId :: string
  rq_Context :: "'d ctx"

record StartRentalResponse =
  sp_SessionID :: string
  sp_SSHHost :: string
  sp_SSHPort :: int
  sp_SSHUser :: string
  sp_SSHCommand :: string

datatype response_body =
    StartBody StartRentalResponse
  | StopBody string string
  | StateBody RentalState
  | ErrorBody string string

record http_response =
  hr_ContentType :: string
  hr_Status :: int
  hr_Body :: response_body

text \<open>The JSON value of a body, from the tags of its struct; \<open>zone\<close> is the local time zone.\<close>

fun body_json :: "int \<Rightarrow> response_body \<Rightarrow> json" where
  "body_json zone (StartBody b) =
     JObj [(''sessionId'', JStr (sp_SessionID b)), (''sshHost'', JStr (sp_SSHHost b)),
           (''sshPort'', JNum (Itoa (sp_SSHPort b))), (''sshUser'', JStr (sp_SSHUser b)),
           (''sshCommand'', JStr (sp_SSHCommand b))]"
| "body_json zone (StopBody sid message) = JObj [(''sessionId'', JStr sid), (''message'', JStr message)]"
| "body_json zone (StateBody st) =
     JObj [(''SessionID'', JStr (rs_SessionID st)), (''ContainerID'', JStr (rs_ContainerID st)),
           (''SSHPort'', JNum (Itoa (rs_SSHPort st))),
           (''StartedAt'', JStr (format_RFC3339Nano zone (rs_StartedAt st))),
           (''StoppedAt'', case rs_StoppedAt st of None \<Rightarrow> JNull | Some t \<Rightarrow> JStr (format_RFC3339Nano zone t))]"
| "body_json zone (ErrorBody message code) =
     JObj ((''error'', JStr message) # (if code = '''' then [] else [(''code'', JStr code)]))"

definition response_text :: "int \<Rightarrow> http_response \<Rightarrow> string" where
  "response_text zone resp = Marshal (body_json zone (hr_Body resp)) @ newline"

definition writeJSON :: "int \<Rightarrow> response_body \<Rightarrow> http_response" where
  "writeJSON status data = \<lparr>hr_ContentType = ''application/json'', hr_Status = status, hr_Body = data\<rparr>"

definition writeError :: "int \<Rightarrow> string \<Rightarrow> string \<Rightarrow> http_response" where
  "writeError status message code = writeJSON status (ErrorBody message code)"

section \<open>The handlers\<close>

record ('e, 'd) RentalHandler =
  rh_executor :: "('e, 'd) RentalExecutorInterface"
  rh_hostAddr :: string

definition NewRentalHandler :: "('e, 'd) RentalExecutorInterface \<Rightarrow> string \<Rightarrow> ('e, 'd) RentalHandler" where
  "NewRentalHandler executor hostAddr = \<lparr>rh_executor = executor, rh_hostAddr = hostAddr\<rparr>"

definition default_image :: string where
  "default_image = ''nvidia/cuda:12.1.1-runtime-ubuntu22.04''"

text \<open>The defaults and the request passed on to the executor.\<close>

definition exec_request :: "api_StartRentalRequest \<Rightarrow> string \<Rightarrow> StartRentalRequest" where
  "exec_request req hostAddr =
     \<lparr>sr_SessionID = ar_SessionID req,
      sr_Image = (if ar_Image req = '''' then default_image else ar_Image req),
      sr_GPUDeviceID = ar_GPUDeviceID req,
      sr_SSHPassword = ar_SSHPassword req,
      sr_MemoryBytes = (if ar_MemoryBytes req = 0 then 16 * 1024 * 1024 * 1024 else ar_MemoryBytes req),
      sr_CPUCount = (if ar_CPUCount req = 0 then 8 else ar_CPUCount req),
      sr_Host = hostAddr\<rparr>"

text \<open>The checks before the executor is called: a rejection, or the decoded request.\<close>

definition check_start :: "'d http_request \<Rightarrow> http_response + api_StartRentalRequest" where
  "check_start r =
     (if rq_Method r \<noteq> ''POST'' then Inl (writeError 405 ''method not allowed'' ''METHOD_NOT_ALLOWED'')
      else case decode_struct store_start_field zero_start_request (Decode (rq_Body r)) of
        None \<Rightarrow> Inl (writeError 400 ''invalid request body'' ''INVALID_REQUEST'')
      | Some req \<Rightarrow>
          if ar_SessionID req = '''' then Inl (writeError 400 ''sessionId is required'' ''MISSING_SESSION_ID'')
          else if ar_GPUDeviceID req = '''' then Inl (writeError 400 ''gpuDeviceId is required'' ''MISSING_GPU_DEVICE_ID'')
          else if ar_SSHPassword req = '''' then Inl (writeError 400 ''sshPassword is required'' ''MISSING_SSH_PASSWORD'')
          else Inr req)"

definition start_error_response :: "error \<Rightarrow> http_response" where
  "start_error_response err =
     (if errors_Is err ErrSessionAlreadyActive then writeError 409 ''rental already exists'' ''RENTAL_EXISTS''
      else if errors_Is err ErrContainerNotHealthy then writeError 503 ''container failed to start'' ''CONTAINER_NOT_READY''
      else writeError 500 (error_text err) ''INTERNAL_ERROR'')"

definition HandleStartRental ::
  "('e, 'd) RentalHandler \<Rightarrow> 'd http_request \<Rightarrow> 'e \<Rightarrow> 'd world \<Rightarrow> (http_response \<times> 'e \<times> 'd world) option" where
  "HandleStartRental h r e w =
     (case check_start r of
        Inl resp \<Rightarrow> Some (resp, e, w)
      | Inr req \<Rightarrow>
          map_option (\<lambda>(res, e', w').
            (case res of
               Inl err \<Rightarrow> start_error_response err
             | Inr connInfo \<Rightarrow>
                 writeJSON 200 (StartBody
                   \<lparr>sp_SessionID = ar_SessionID req, sp_SSHHost = cx_Host connInfo,
                    sp_SSHPort = cx_Port connInfo, sp_SSHUser = cx_User connInfo,
                    sp_SSHCommand = cx_Command connInfo\<rparr>),
             e', w'))
            (ei_StartRental (rh_executor h) (rq_Context r) (exec_request req (rh_hostAddr h)) e w))"

definition not_found_or_internal :: "error \<Rightarrow> http_response" where
  "not_found_or_internal err =
     (if errors_Is err ErrSessionNotFound then writeError 404 ''rental not found'' ''RENTAL_NOT_FOUND''
      else writeError 500 (error_text err) ''INTERNAL_ERROR'')"

definition HandleStopRental ::
  "('e, 'd) RentalHandler \<Rightarrow> 'd http_request \<Rightarrow> 'e \<Rightarrow> 'd world \<Rightarrow> http_response \<times> 'e \<times> 'd world" where
  "HandleStopRental h r e w =
     (if rq_Method r \<noteq> ''POST'' then (writeError 405 ''method not allowed'' ''METHOD_NOT_ALLOWED'', e, w)
      else case decode_struct store_stop_field '''' (Decode (rq_Body r)) of
        None \<Rightarrow> (writeError 400 ''invalid request body'' ''INVALID_REQUEST'', e, w)
      | Some sid \<Rightarrow>
          if sid = '''' then (writeError 400 ''sessionId is required'' ''MISSING_SESSION_ID'', e, w)
          else case ei_StopRental (rh_executor h) (rq_Context r) sid e w of
            (Some err, e', w') \<Rightarrow> (not_found_or_internal err, e', w')
          | (None, e', w') \<Rightarrow>
              (writeJSON 200 (StopBody sid ''rental stopped, container will be cleaned up after grace period''),
               e', w'))"

definition HandleGetStatus ::
  "('e, 'd) RentalHandler \<Rightarrow> 'd http_request \<Rightarrow> 'e \<Rightarrow> http_response" where
  "HandleGetStatus h r e =
     (if rq_Method r \<noteq> ''GET'' then writeError 405 ''method not allowed'' ''METHOD_NOT_ALLOWED''
      else if rq_query_sessionId r = '''' then
        writeError 400 ''sessionId query param required'' ''MISSING_SESSION_ID''
      else case ei_GetRentalStatus (rh_executor h) (rq_query_sessionId r) e of
        Inl err \<Rightarrow> not_found_or_internal err
      | Inr state \<Rightarrow> writeJSON 200 (StateBody state))"

section \<open>The contract of the executor, and what the handlers make of it\<close>

text \<open>
  Laws over the table of active rentals: what each operation returns and what it leaves in the
  table.
\<close>

locale rental_service =
  fixes E :: "('e, 'd) RentalExecutorInterface" and active :: "'e \<Rightarrow> string \<rightharpoonup> RentalState"
  assumes start_duplicate: "active e (sr_SessionID req) \<noteq> None \<Longrightarrow>
      ei_StartRental E ctx req e w = Some (Inl ErrSessionAlreadyActive, e, w)"
    and start_failed: "ei_StartRental E ctx req e w = Some (Inl err, e', w') \<Longrightarrow> active e' = active e"
    and start_done: "ei_StartRental E ctx req e w = Some (Inr info, e', w') \<Longrightarrow>
      active e (sr_SessionID req) = None \<and>
      (\<exists>st. active e' = (active e)(sr_SessionID req \<mapsto> st) \<and> rs_SessionID st = sr_SessionID req \<and>
         rs_SSHPort st = cx_Port info \<and> rs_ContainerID st = cx_ContainerID info \<and> rs_StoppedAt st = None) \<and>
      cx_Host info = sr_Host req"
    and stop_unknown: "active e sid = None \<Longrightarrow> ei_StopRental E ctx sid e w = (Some ErrSessionNotFound, e, w)"
    and stop_known: "active e sid = Some st \<Longrightarrow> ei_StopRental E ctx sid e w = (r, e', w') \<Longrightarrow>
      active e' = (active e)(sid \<mapsto> st\<lparr>rs_StoppedAt := Some (w_clock w)\<rparr>)"
    and status: "ei_GetRentalStatus E sid e =
      (case active e sid of None \<Rightarrow> Inl ErrSessionNotFound | Some st \<Rightarrow> Inr st)"
begin

lemma HandleStartRental_rejected:
  "check_start r = Inl resp \<Longrightarrow> HandleStartRental (NewRentalHandler E host) r e w = Some (resp, e, w)"
  by (simp add: HandleStartRental_def)

lemma HandleStartRental_duplicate:
  "check_start r = Inr req \<Longrightarrow> active e (ar_SessionID req) \<noteq> None \<Longrightarrow>
   HandleStartRental (NewRentalHandler E host) r e w =
     Some (writeError 409 ''rental already exists'' ''RENTAL_EXISTS'', e, w)"
  by (simp add: HandleStartRental_def NewRentalHandler_def start_duplicate exec_request_def
      start_error_response_def)

lemma writeJSON_status [simp]: "hr_Status (writeJSON s b) = s" "hr_Body (writeJSON s b) = b"
  by (simp_all add: writeJSON_def)

lemma start_error_not_200: "hr_Status (start_error_response err) \<noteq> 200"
  by (simp add: start_error_response_def writeError_def)

lemma HandleStartRental_call:
  assumes "check_start r = Inr req" and "HandleStartRental (NewRentalHandler E host) r e w = Some (resp, e', w')"
  obtains (failed) err where "ei_StartRental E (rq_Context r) (exec_request req host) e w = Some (Inl err, e', w')"
    "resp = start_error_response err"
  | (started) info where "ei_StartRental E (rq_Context r) (exec_request req host) e w = Some (Inr info, e', w')"
    "resp = writeJSON 200 (StartBody
       \<lparr>sp_SessionID = ar_SessionID req, sp_SSHHost = cx_Host info, sp_SSHPort = cx_Port info,
        sp_SSHUser = cx_User info, sp_SSHCommand = cx_Command info\<rparr>)"
proof -
  from assms obtain res where
    call: "ei_StartRental E (rq_Context r) (exec_request req host) e w = Some (res, e', w')"
    by (auto simp: HandleStartRental_def NewRentalHandler_def)
  with assms that show thesis
    by (cases res) (simp_all add: HandleStartRental_def NewRentalHandler_def)
qed

lemma HandleStartRental_200:
  assumes "HandleStartRental (NewRentalHandler E host) r e w = Some (resp, e', w')" and "hr_Status resp = 200"
  obtains req st where "check_start r = Inr req" and "active e (ar_SessionID req) = None"
    and "active e' = (active e)(ar_SessionID req \<mapsto> st)" and "rs_StoppedAt st = None"
    and "rs_SessionID st = ar_SessionID req"
    and "\<exists>user cmd. hr_Body resp = StartBody \<lparr>sp_SessionID = ar_SessionID req, sp_SSHHost = host,
           sp_SSHPort = rs_SSHPort st, sp_SSHUser = user, sp_SSHCommand = cmd\<rparr>"
proof (cases "check_start r")
  case (Inl resp')
  then have "hr_Status resp' \<noteq> 200"
    by (auto simp: check_start_def writeError_def split: if_splits option.splits)
  with Inl assms show thesis by (simp add: HandleStartRental_def)
next
  case (Inr req)
  show thesis
  proof (rule HandleStartRental_call [OF Inr assms(1)], goal_cases)
    case (1 err)
    with assms(2) start_error_not_200 show thesis by simp
  next
    case (2 info)
    from start_done [OF 2(1)] 2(2) that [OF Inr] show thesis
      by (auto simp: exec_request_def)
  qed
qed

lemma HandleStartRental_not_200:
  assumes "HandleStartRental (NewRentalHandler E host) r e w = Some (resp, e', w')" and "hr_Status resp \<noteq> 200"
  shows "active e' = active e"
proof (cases "check_start r")
  case (Inl resp')
  with assms(1) show ?thesis by (simp add: HandleStartRental_def)
next
  case (Inr req)
  from HandleStartRental_call [OF Inr assms(1)] assms(2) start_failed show ?thesis
    by (metis writeJSON_status(1))
qed

lemma HandleGetStatus_result:
  assumes "rq_Method r = ''GET''" and "rq_query_sessionId r = sid" and "sid \<noteq> ''''"
  shows "HandleGetStatus (NewRentalHandler E host) r e =
     (case active e sid of None \<Rightarrow> writeError 404 ''rental not found'' ''RENTAL_NOT_FOUND''
      | Some st \<Rightarrow> writeJSON 200 (StateBody st))"
  using assms
  by (simp add: HandleGetStatus_def NewRentalHandler_def status not_found_or_internal_def split: option.splits)

lemma HandleStopRental_unknown:
  assumes "rq_Method r = ''POST''" and "decode_struct store_stop_field '''' (Decode (rq_Body r)) = Some sid"
    and "sid \<noteq> ''''" and "active e sid = None"
  shows "HandleStopRental (NewRentalHandler E host) r e w =
     (writeError 404 ''rental not found'' ''RENTAL_NOT_FOUND'', e, w)"
  using assms
  by (simp add: HandleStopRental_def NewRentalHandler_def stop_unknown not_found_or_internal_def)

end

section \<open>The types of the responses\<close>

lemma body_json_num: "num_json (body_json zone b) \<and> json_depth (body_json zone b) \<le> maxNestingDepth"
  by (cases b) (auto simp: maxNestingDepth_def split: option.split)

text \<open>The statuses and codes of the refusals.\<close>

definition refusals :: "(int \<times> string) list" where
  "refusals =
     [(400, ''INVALID_REQUEST''), (400, ''MISSING_SESSION_ID''), (400, ''MISSING_GPU_DEVICE_ID''),
      (400, ''MISSING_SSH_PASSWORD''), (404, ''RENTAL_NOT_FOUND''), (405, ''METHOD_NOT_ALLOWED''),
      (409, ''RENTAL_EXISTS''), (500, ''INTERNAL_ERROR''), (503, ''CONTAINER_NOT_READY'')]"

text \<open>
  The type of a response, for the bodies an endpoint answers with when it succeeds: its content is
  declared as JSON and is one JSON document, with the members of that body for status 200, and with
  an error and a code that belong to the status otherwise.
\<close>

definition typed_response :: "(response_body \<Rightarrow> bool) \<Rightarrow> http_response \<Rightarrow> bool" where
  "typed_response success resp \<longleftrightarrow>
     hr_ContentType resp = ''application/json'' \<and>
     (\<forall>zone. Unmarshal (response_text zone resp) = Some (coerce_json (body_json zone (hr_Body resp)))) \<and>
     (if hr_Status resp = 200 then success (hr_Body resp)
      else \<exists>message code. hr_Body resp = ErrorBody message code \<and> (hr_Status resp, code) \<in> set refusals)"

lemma typed_success: "success b \<Longrightarrow> typed_response success (writeJSON 200 b)"
  by (simp add: typed_response_def writeJSON_def response_text_def Unmarshal_Encode body_json_num)

lemma typed_refusal: "(status, code) \<in> set refusals \<Longrightarrow> typed_response success (writeError status message code)"
  using Unmarshal_Encode [OF conjunct1 [OF body_json_num] conjunct2 [OF body_json_num]]
  by (auto simp: typed_response_def writeJSON_def writeError_def response_text_def refusals_def
      simp del: body_json.simps)

lemma typed_errors:
  "typed_response success (start_error_response err)" "typed_response success (not_found_or_internal err)"
  by (simp_all add: start_error_response_def not_found_or_internal_def typed_refusal refusals_def)

lemma check_start_session: "check_start r = Inr req \<Longrightarrow> ar_SessionID req \<noteq> []"
  by (auto simp: check_start_def split: if_splits option.splits)

lemma typed_check: "check_start r = Inl resp \<Longrightarrow> typed_response success resp"
  by (auto simp: check_start_def typed_refusal refusals_def split: if_splits option.splits)

abbreviation start_body :: "response_body \<Rightarrow> bool" where
  "start_body b \<equiv> (\<exists>x. b = StartBody x)"

abbreviation stop_body :: "string \<Rightarrow> response_body \<Rightarrow> bool" where
  "stop_body sid b \<equiv> (\<exists>message. b = StopBody sid message)"

abbreviation state_body :: "response_body \<Rightarrow> bool" where
  "state_body b \<equiv> (\<exists>x. b = StateBody x)"

text \<open>
  C25. Whatever request arrives and whatever the executor answers, every response of the three
  handlers is well typed: it is declared as JSON, its bytes parse as exactly one JSON document, on
  status 200 that document is the one of its endpoint (for a stop with the session of the request),
  and on any other status it is an error with one of nine pairs of status and code.
\<close>

theorem responses_are_typed:
  "(case HandleStartRental h r e w of None \<Rightarrow> True | Some (resp, _, _) \<Rightarrow> typed_response start_body resp) \<and>
   typed_response (\<lambda>b. \<exists>sid. decode_struct store_stop_field '''' (Decode (rq_Body r)) = Some sid \<and> stop_body sid b)
     (fst (HandleStopRental h r e w)) \<and>
   typed_response state_body (HandleGetStatus h r e)"
proof (intro conjI)
  show "case HandleStartRental h r e w of None \<Rightarrow> True | Some (resp, _, _) \<Rightarrow> typed_response start_body resp"
  proof (cases "check_start r")
    case (Inr req)
    have "typed_response start_body (case res of Inl err \<Rightarrow> start_error_response err | Inr info \<Rightarrow> writeJSON 200 (StartBody (f info)))"
      for res and f :: "ConnectionInfo \<Rightarrow> StartRentalResponse"
      by (cases res) (auto simp: typed_errors typed_success)
    with Inr show ?thesis
      by (cases "ei_StartRental (rh_executor h) (rq_Context r) (exec_request req (rh_hostAddr h)) e w")
        (auto simp: HandleStartRental_def)
  qed (simp add: HandleStartRental_def typed_check)
  show "typed_response (\<lambda>b. \<exists>sid. decode_struct store_stop_field '''' (Decode (rq_Body r)) = Some sid \<and> stop_body sid b)
     (fst (HandleStopRental h r e w))"
    by (auto simp: HandleStopRental_def typed_refusal typed_errors typed_success refusals_def
        split: option.split prod.split)
  show "typed_response state_body (HandleGetStatus h r e)"
    by (auto simp: HandleGetStatus_def typed_refusal typed_errors typed_success refusals_def split: sum.split)
qed

end
