(* ===== verification/Mining_Daemon.thy ===== *)
theory Mining_Daemon
  imports Interfaces
begin

text \<open>
  The mining daemon of \<open>internal/mining/daemon.go\<close> and \<open>config.go\<close>, over the operations of the
  Docker service it calls.  The daemon's state is only touched under its mutex, and a method is
  one atomic state change; \<open>ResumeAfterRental\<close> and a tick of the monitor, which release the mutex
  before they call \<open>Start\<close>, are one step here as well; \<open>Mining_Concurrency\<close> has them in two.  The
  goroutine that \<open>PauseForRental\<close> spawns is returned as a flag and runs later as
  \<open>background_restart\<close>.
\<close>

record MiningConfig =
  mc_Enabled :: bool
  mc_WalletAddress :: string
  mc_Image :: string
  mc_GPUDeviceIDs :: "string list"
  mc_DataDir :: string
  mc_ChainID :: int
  mc_P2PPort :: int
  mc_HTTPRPCPort :: int
  mc_ExtraArgs :: "string list"

definition DefaultMiningConfig :: MiningConfig where
  "DefaultMiningConfig =
     \<lparr>mc_Enabled = True, mc_WalletAddress = '''', mc_Image = ''mingeyom/worldland-mio:latest'',
      mc_GPUDeviceIDs = [], mc_DataDir = ''/data/worldland'', mc_ChainID = 10396,
      mc_P2PPort = 30303, mc_HTTPRPCPort = 8545, mc_ExtraArgs = []\<rparr>"

definition Validate :: "MiningConfig \<Rightarrow> error option" where
  "Validate c = None"

datatype MiningState = MiningStateStopped | MiningStateRunning | MiningStatePaused

fun MiningState_text :: "MiningState \<Rightarrow> string" where
  "MiningState_text MiningStateStopped = ''stopped''"
| "MiningState_text MiningStateRunning = ''running''"
| "MiningState_text MiningStatePaused = ''paused''"

record MiningStatus =
  mst_State :: MiningState
  mst_ContainerID :: string
  mst_GPUCount :: int
  mst_StartedAt :: "time option"
  mst_PausedAt :: "time option"

text \<open>
  \<open>pausedGPUs\<close> is a map whose values are always \<open>true\<close>, so it is its set of keys; the channel
  \<open>stopCh\<close> is only ever closed, so it is whether it has been.
\<close>

record MiningDaemon =
  md_config :: MiningConfig
  md_state :: MiningState
  md_containerID :: string
  md_startedAt :: "time option"
  md_pausedAt :: "time option"
  md_pausedGPUs :: "string set"
  md_stopCh_closed :: bool

definition NewMiningDaemon :: "MiningConfig \<Rightarrow> MiningDaemon" where
  "NewMiningDaemon config =
     \<lparr>md_config = config, md_state = MiningStateStopped, md_containerID = '''', md_startedAt = None,
      md_pausedAt = None, md_pausedGPUs = {}, md_stopCh_closed = False\<rparr>"

definition getAvailableGPUs :: "MiningDaemon \<Rightarrow> string list" where
  "getAvailableGPUs m =
     (if mc_GPUDeviceIDs (md_config m) = [] then
        (if md_pausedGPUs m \<noteq> {} then [] else [''all''])
      else filter (\<lambda>gpu. gpu \<notin> md_pausedGPUs m) (mc_GPUDeviceIDs (md_config m)))"

definition mining_containerConfig :: "MiningDaemon \<Rightarrow> string \<Rightarrow> ContainerConfig" where
  "mining_containerConfig m gpuDeviceID =
     \<lparr>cc_SessionID = ''worldland-mining'', cc_Image = mc_Image (md_config m),
      cc_GPUDeviceID = gpuDeviceID, cc_SSHPassword = '''', cc_SSHPort = 0,
      cc_MemoryBytes = 8 * 1024 * 1024 * 1024, cc_CPUCount = 2, cc_UseImageEntrypoint = True\<rparr>"

text \<open>
  \<open>Start\<close>.  The log line at its end slices the container ID to twelve characters, after the state
  has been updated.
\<close>

definition Start ::
  "'d DockerServiceInterface \<Rightarrow> 'd ctx \<Rightarrow> MiningDaemon \<Rightarrow> 'd world \<Rightarrow>
   (error option \<times> MiningDaemon \<times> 'd world) outcome" where
  "Start D ctx m w =
     (if \<not> mc_Enabled (md_config m) then Returns (None, m, w)
      else if md_state m = MiningStateRunning then Returns (None, m, w)
      else case getAvailableGPUs m of
        [] \<Rightarrow> Returns (None, m\<lparr>md_state := MiningStatePaused, md_pausedAt := Some (w_clock w)\<rparr>, w)
      | gpuDeviceID # _ \<Rightarrow>
          (case di_CreateContainer D ctx (mining_containerConfig m gpuDeviceID) w of
             ((containerID, Some e), w1) \<Rightarrow>
               Returns (Some (Wrap ''failed to create mining container'' e), m, w1)
           | ((containerID, None), w1) \<Rightarrow>
               (case di_StartContainer D ctx containerID w1 of
                  (Some e, w2) \<Rightarrow>
                    Returns (Some (Wrap ''failed to start mining container'' e), m,
                             snd (di_RemoveContainer D ctx containerID True w2))
                | (None, w2) \<Rightarrow>
                    outcome_bind (slice_to 12 containerID) (\<lambda>_.
                      Returns (None,
                        m\<lparr>md_containerID := containerID, md_state := MiningStateRunning,
                          md_startedAt := Some (w_clock w2), md_pausedAt := None\<rparr>, w2)))))"

definition Stop ::
  "'d DockerServiceInterface \<Rightarrow> 'd ctx \<Rightarrow> MiningDaemon \<Rightarrow> 'd world \<Rightarrow>
   (error option \<times> MiningDaemon \<times> 'd world) outcome" where
  "Stop D ctx m w =
     (if md_state m = MiningStateStopped then Returns (None, m, w)
      else
        let m' = m\<lparr>md_containerID := '''', md_state := MiningStateStopped, md_startedAt := None,
                   md_pausedAt := None\<rparr> in
        if md_containerID m \<noteq> '''' then
          let w1 = snd (di_StopContainer D ctx (md_containerID m) 10 w);
              w2 = snd (di_RemoveContainer D ctx (md_containerID m) True w1)
          in outcome_bind (slice_to 12 (md_containerID m)) (\<lambda>_. Returns (None, m', w2))
        else Returns (None, m', w))"

text \<open>
  \<open>PauseForRental\<close> never fails; the first component of its result is whether it spawned the
  restart goroutine.
\<close>

definition PauseForRental ::
  "'d DockerServiceInterface \<Rightarrow> 'd ctx \<Rightarrow> string list \<Rightarrow> MiningDaemon \<Rightarrow> 'd world \<Rightarrow>
   bool \<times> MiningDaemon \<times> 'd world" where
  "PauseForRental D ctx gpuDeviceIDs m w =
     (let m1 = m\<lparr>md_pausedGPUs := md_pausedGPUs m \<union> set gpuDeviceIDs\<rparr> in
      if md_state m1 = MiningStateRunning \<and> md_containerID m1 \<noteq> '''' then
        let w1 = snd (di_StopContainer D ctx (md_containerID m1) 10 w);
            w2 = snd (di_RemoveContainer D ctx (md_containerID m1) True w1);
            m2 = m1\<lparr>md_containerID := ''''\<rparr>
        in (if getAvailableGPUs m2 = [] then
              (False, m2\<lparr>md_state := MiningStatePaused, md_pausedAt := Some (w_clock w2)\<rparr>, w2)
            else (True, m2, w2))
      else (False, m1, w))"

definition background_restart ::
  "'d DockerServiceInterface \<Rightarrow> MiningDaemon \<Rightarrow> 'd world \<Rightarrow> (MiningDaemon \<times> 'd world) outcome" where
  "background_restart D m w =
     outcome_bind (Start D (ctx_WithTimeout ctx_Background (30 * second) w) m w)
       (\<lambda>(_, m', w'). Returns (m', w'))"

definition ResumeAfterRental ::
  "'d DockerServiceInterface \<Rightarrow> 'd ctx \<Rightarrow> string list \<Rightarrow> MiningDaemon \<Rightarrow> 'd world \<Rightarrow>
   (error option \<times> MiningDaemon \<times> 'd world) outcome" where
  "ResumeAfterRental D ctx gpuDeviceIDs m w =
     (let m1 = m\<lparr>md_pausedGPUs := md_pausedGPUs m - set gpuDeviceIDs\<rparr> in
      if md_state m1 = MiningStatePaused \<or> md_state m1 = MiningStateStopped then Start D ctx m1 w
      else Returns (None, m1, w))"

definition Status :: "MiningDaemon \<Rightarrow> MiningStatus" where
  "Status m =
     \<lparr>mst_State = md_state m, mst_ContainerID = md_containerID m,
      mst_GPUCount = int (length (getAvailableGPUs m)),
      mst_StartedAt = md_startedAt m, mst_PausedAt = md_pausedAt m\<rparr>"

section \<open>Monitoring\<close>

text \<open>One tick of \<open>MonitorLoop\<close>.\<close>

definition monitor_tick ::
  "'d DockerServiceInterface \<Rightarrow> 'd ctx \<Rightarrow> MiningDaemon \<Rightarrow> 'd world \<Rightarrow> (MiningDaemon \<times> 'd world) outcome" where
  "monitor_tick D ctx m w =
     (if md_state m = MiningStateRunning \<and> md_containerID m \<noteq> '''' then
        (case di_InspectContainer D ctx (md_containerID m) w of
           (r, w1) \<Rightarrow>
             if (case r of Inl _ \<Rightarrow> True | Inr info \<Rightarrow> ci_State info \<noteq> ''running'') then
               outcome_bind
                 (Start D (ctx_WithTimeout ctx_Background (30 * second) w1)
                    (m\<lparr>md_containerID := '''', md_state := MiningStateStopped\<rparr>) w1)
                 (\<lambda>(_, m', w'). Returns (m', w'))
             else Returns (m, w1))
      else Returns (m, w))"

text \<open>
  The loop, over the sequence of cases its \<open>select\<close> takes; it ends at the first one that is not
  a tick.
\<close>

datatype monitor_event = MonitorCtxDone | MonitorStopped | MonitorTick

fun MonitorLoop ::
  "'d DockerServiceInterface \<Rightarrow> 'd ctx \<Rightarrow> monitor_event list \<Rightarrow> MiningDaemon \<Rightarrow> 'd world \<Rightarrow>
   (MiningDaemon \<times> 'd world) outcome" where
  "MonitorLoop D ctx [] m w = Returns (m, w)"
| "MonitorLoop D ctx (MonitorCtxDone # evs) m w = Returns (m, w)"
| "MonitorLoop D ctx (MonitorStopped # evs) m w = Returns (m, w)"
| "MonitorLoop D ctx (MonitorTick # evs) m w =
     outcome_bind (monitor_tick D ctx m w) (\<lambda>(m', w'). MonitorLoop D ctx evs m' w')"

text \<open>Closing a closed channel panics.\<close>

definition Close_mining :: "MiningDaemon \<Rightarrow> MiningDaemon outcome" where
  "Close_mining m =
     (if md_stopCh_closed m then Panics else Returns (m\<lparr>md_stopCh_closed := True\<rparr>))"

section \<open>Runs of the daemon\<close>

text \<open>
  Everything that can happen to a daemon once it is built: calls from the node, the spawned restart
  goroutine and the monitor's ticks, in any order.
\<close>

datatype 'd mining_op =
    OpStart "'d ctx"
  | OpStop "'d ctx"
  | OpPause "'d ctx" "string list"
  | OpRestart
  | OpResume "'d ctx" "string list"
  | OpTick "'d ctx"

fun mining_exec ::
  "'d DockerServiceInterface \<Rightarrow> 'd mining_op \<Rightarrow> MiningDaemon \<Rightarrow> 'd world \<Rightarrow> (MiningDaemon \<times> 'd world) outcome" where
  "mining_exec D (OpStart ctx) m w = outcome_bind (Start D ctx m w) (\<lambda>(_, mw). Returns mw)"
| "mining_exec D (OpStop ctx) m w = outcome_bind (Stop D ctx m w) (\<lambda>(_, mw). Returns mw)"
| "mining_exec D (OpPause ctx gpus) m w = Returns (snd (PauseForRental D ctx gpus m w))"
| "mining_exec D OpRestart m w = background_restart D m w"
| "mining_exec D (OpResume ctx gpus) m w =
     outcome_bind (ResumeAfterRental D ctx gpus m w) (\<lambda>(_, mw). Returns mw)"
| "mining_exec D (OpTick ctx) m w = monitor_tick D ctx m w"

fun mining_run ::
  "'d DockerServiceInterface \<Rightarrow> 'd mining_op list \<Rightarrow> MiningDaemon \<Rightarrow> 'd world \<Rightarrow> (MiningDaemon \<times> 'd world) outcome" where
  "mining_run D [] m w = Returns (m, w)"
| "mining_run D (x # xs) m w =
     outcome_bind (mining_exec D x m w) (\<lambda>(m', w'). mining_run D xs m' w')"

fun is_stop :: "'d mining_op \<Rightarrow> bool" where
  "is_stop (OpStop ctx) = True"
| "is_stop _ = False"

text \<open>A daemon that is not running names no container.\<close>

definition mining_wf :: "MiningDaemon \<Rightarrow> bool" where
  "mining_wf m \<longleftrightarrow> (md_state m \<noteq> MiningStateRunning \<longrightarrow> md_containerID m = '''')"

lemma getAvailableGPUs_upd [simp]:
  "getAvailableGPUs (m\<lparr>md_containerID := c\<rparr>) = getAvailableGPUs m"
  "getAvailableGPUs (m\<lparr>md_state := st\<rparr>) = getAvailableGPUs m"
  by (simp_all add: getAvailableGPUs_def)

lemma available_not_rented:
  "gpu \<in> set (getAvailableGPUs m) \<Longrightarrow> gpu \<notin> md_pausedGPUs m"
  by (auto simp: getAvailableGPUs_def split: if_splits)

lemma Start_wf: "mining_wf m \<Longrightarrow> Start D ctx m w = Returns (r, m', w') \<Longrightarrow> mining_wf m'"
  by (auto simp: Start_def mining_wf_def slice_to_def
      split: if_splits list.splits prod.splits option.splits)

lemma Stop_wf: "Stop D ctx m w = Returns (r, m', w') \<Longrightarrow> mining_wf m \<Longrightarrow> mining_wf m'"
  by (auto simp: Stop_def mining_wf_def slice_to_def Let_def split: if_splits)

lemma Pause_wf: "mining_wf m \<Longrightarrow> PauseForRental D ctx gpus m w = (b, m', w') \<Longrightarrow> mining_wf m'"
  by (auto simp: PauseForRental_def mining_wf_def Let_def split: if_splits)

lemma Resume_wf: "mining_wf m \<Longrightarrow> ResumeAfterRental D ctx gpus m w = Returns (r, m', w') \<Longrightarrow> mining_wf m'"
  by (auto simp: ResumeAfterRental_def Let_def split: if_splits
      elim!: Start_wf [rotated]) (auto simp: mining_wf_def)

lemma tick_wf: "mining_wf m \<Longrightarrow> monitor_tick D ctx m w = Returns (m', w') \<Longrightarrow> mining_wf m'"
  by (auto simp: monitor_tick_def outcome_bind_Returns split: if_splits prod.splits
      elim!: Start_wf [rotated]) (auto simp: mining_wf_def)

lemma mining_exec_wf: "mining_wf m \<Longrightarrow> mining_exec D x m w = Returns (m', w') \<Longrightarrow> mining_wf m'"
  by (cases x)
     (auto simp: outcome_bind_Returns background_restart_def
       dest: Start_wf Stop_wf Resume_wf tick_wf Pause_wf [of m D _ _ w _ m' w'] split: prod.splits,
      metis Pause_wf prod.collapse snd_conv)

lemma mining_run_wf: "mining_wf m \<Longrightarrow> mining_run D xs m w = Returns (m', w') \<Longrightarrow> mining_wf m'"
  by (induction xs arbitrary: m w) (auto simp: outcome_bind_Returns dest: mining_exec_wf)

section \<open>Running without a container\<close>

text \<open>
  A daemon can be in state running and name no container.  In that state nothing but \<open>Stop\<close>
  changes it: every other operation sees a daemon that claims to run already.
\<close>

definition limbo :: "MiningDaemon \<Rightarrow> bool" where
  "limbo m \<longleftrightarrow> md_state m = MiningStateRunning \<and> md_containerID m = ''''"

lemma Start_limbo: "limbo m \<Longrightarrow> Start D ctx m w = Returns (None, m, w)"
  by (simp add: Start_def limbo_def)

lemma mining_exec_limbo:
  "limbo m \<Longrightarrow> \<not> is_stop x \<Longrightarrow> \<exists>m'. mining_exec D x m w = Returns (m', w) \<and> limbo m'"
  by (cases x)
     (auto simp: Start_limbo background_restart_def ResumeAfterRental_def monitor_tick_def
       PauseForRental_def limbo_def)

lemma mining_run_limbo:
  "limbo m \<Longrightarrow> \<forall>x \<in> set xs. \<not> is_stop x \<Longrightarrow> \<exists>m'. mining_run D xs m w = Returns (m', w) \<and> limbo m'"
proof (induction xs arbitrary: m)
  case (Cons x xs)
  then obtain m1 where "mining_exec D x m w = Returns (m1, w)" "limbo m1"
    using mining_exec_limbo [of m x D w] by auto
  with Cons show ?case by simp
qed simp

lemma Pause_spawns:
  "PauseForRental D ctx gpus m w = (True, m', w') \<Longrightarrow> limbo m'"
  by (auto simp: PauseForRental_def Let_def limbo_def split: if_splits)

section \<open>Rented GPUs\<close>

text \<open>Two services that differ at most on creating containers for rented GPUs.\<close>

definition agree_off_rented ::
  "string set \<Rightarrow> 'd DockerServiceInterface \<Rightarrow> 'd DockerServiceInterface \<Rightarrow> bool" where
  "agree_off_rented rented D D' \<longleftrightarrow>
     (\<forall>ctx cfg w. cc_GPUDeviceID cfg \<notin> rented \<longrightarrow>
        di_CreateContainer D ctx cfg w = di_CreateContainer D' ctx cfg w) \<and>
     di_StartContainer D = di_StartContainer D' \<and> di_RemoveContainer D = di_RemoveContainer D'"

lemma Start_agree:
  assumes "agree_off_rented (md_pausedGPUs m) D D'"
  shows "Start D ctx m w = Start D' ctx m w"
proof (cases "getAvailableGPUs m")
  case Nil
  then show ?thesis by (simp add: Start_def)
next
  case (Cons gpu rest)
  then have "gpu \<notin> md_pausedGPUs m" using available_not_rented [of gpu m] by simp
  with assms have "di_CreateContainer D ctx (mining_containerConfig m gpu) w =
      di_CreateContainer D' ctx (mining_containerConfig m gpu) w"
    by (simp add: agree_off_rented_def mining_containerConfig_def)
  with assms Cons show ?thesis
    by (simp add: Start_def agree_off_rented_def split: prod.splits option.splits)
qed

section \<open>Properties of the mining daemon\<close>

text \<open>
  From a new daemon, after any sequence of starts, stops, pauses, resumes, restarts and monitor
  ticks, on any Docker service, a daemon that is stopped or paused names no container.
\<close>

lemma idle_daemon_has_no_container:
  assumes "mining_run D xs (NewMiningDaemon cfg) w = Returns (m, w')"
    and "md_state m \<noteq> MiningStateRunning"
  shows "md_containerID m = ''''"
proof -
  have "mining_wf (NewMiningDaemon cfg)" by (simp add: mining_wf_def NewMiningDaemon_def)
  with assms(1) have "mining_wf m" by (blast intro: mining_run_wf)
  with assms(2) show ?thesis by (simp add: mining_wf_def)
qed

text \<open>
  \<open>Start\<close> never asks Docker for a container on a GPU that is marked as rented: its result is
  the same on any two services that differ only in what they do with such requests.
\<close>

lemma mining_never_starts_on_rented_gpu:
  assumes "\<forall>ctx cfg w. cc_GPUDeviceID cfg \<notin> md_pausedGPUs m \<longrightarrow>
             di_CreateContainer D ctx cfg w = di_CreateContainer D' ctx cfg w"
    and "di_StartContainer D = di_StartContainer D'" and "di_RemoveContainer D = di_RemoveContainer D'"
  shows "Start D ctx m w = Start D' ctx m w"
  using assms by (intro Start_agree) (simp add: agree_off_rented_def)

text \<open>
  C31. When a rental takes one of several mining GPUs, \<open>PauseForRental\<close> stops the mining container
  and spawns a restart on the remaining GPUs, but the restart does nothing: the daemon stays in
  state running with no container, and so it does under every later operation except \<open>Stop\<close>,
  without another call to Docker.
\<close>

theorem restart_after_pause_is_lost:
  assumes "PauseForRental D ctx gpus m w = (True, m', w')" and "\<forall>x \<in> set xs. \<not> is_stop x"
  shows "background_restart D m' w'' = Returns (m', w'') \<and>
         (\<exists>m''. mining_run D (OpRestart # xs) m' w'' = Returns (m'', w'') \<and>
            md_state m'' = MiningStateRunning \<and> md_containerID m'' = '''')"
proof -
  from assms(1) have limbo: "limbo m'" by (rule Pause_spawns)
  then have "background_restart D m' w'' = Returns (m', w'')"
    by (simp add: background_restart_def Start_limbo)
  with mining_run_limbo [OF limbo assms(2), of D w''] show ?thesis by (auto simp: limbo_def)
qed

theorem restart_after_pause_is_lost_witness:
  "\<exists>m' w'. PauseForRental mock_docker ctx_Background [''GPU-a'']
       (NewMiningDaemon (DefaultMiningConfig\<lparr>mc_GPUDeviceIDs := [''GPU-a'', ''GPU-b'']\<rparr>)
          \<lparr>md_state := MiningStateRunning, md_containerID := ''container-123''\<rparr>) quiet_world = (True, m', w') \<and>
     background_restart mock_docker m' w' = Returns (m', w')"
proof -
  let ?m = "NewMiningDaemon (DefaultMiningConfig\<lparr>mc_GPUDeviceIDs := [''GPU-a'', ''GPU-b'']\<rparr>)
          \<lparr>md_state := MiningStateRunning, md_containerID := ''container-123''\<rparr>"
  obtain m' w' where p: "PauseForRental mock_docker ctx_Background [''GPU-a''] ?m quiet_world = (True, m', w')"
    by (simp add: PauseForRental_def NewMiningDaemon_def DefaultMiningConfig_def getAvailableGPUs_def Let_def)
  from restart_after_pause_is_lost [OF p, of "[]"] p show ?thesis by simp
qed

text \<open>
  Resuming works as intended when the rented GPUs are named: if mining is paused or stopped and
  the returned GPUs leave one free, \<open>ResumeAfterRental\<close> ends in state running on a new container,
  provided Docker creates and starts it and names it with at least twelve characters.
\<close>

lemma resume_restarts_mining:
  assumes "mc_Enabled (md_config m)" and "md_state m \<noteq> MiningStateRunning"
    and "getAvailableGPUs (m\<lparr>md_pausedGPUs := md_pausedGPUs m - set gpus\<rparr>) = gpu # rest"
    and "di_CreateContainer D ctx (mining_containerConfig m gpu) w = ((cid, None), w1)"
    and "di_StartContainer D ctx cid w1 = (None, w2)" and "12 \<le> length cid"
  shows "\<exists>m'. ResumeAfterRental D ctx gpus m w = Returns (None, m', w2) \<and>
           md_state m' = MiningStateRunning \<and> md_containerID m' = cid \<and>
           md_pausedGPUs m' = md_pausedGPUs m - set gpus \<and> gpu \<notin> md_pausedGPUs m'"
proof -
  let ?m = "m\<lparr>md_pausedGPUs := md_pausedGPUs m - set gpus\<rparr>"
  have "gpu \<notin> md_pausedGPUs ?m" using available_not_rented [of gpu ?m] assms(3) by simp
  moreover have "md_state m = MiningStatePaused \<or> md_state m = MiningStateStopped"
    using assms(2) by (cases "md_state m") auto
  moreover have "mining_containerConfig ?m gpu = mining_containerConfig m gpu"
    by (simp add: mining_containerConfig_def)
  ultimately show ?thesis
    using assms by (auto simp: ResumeAfterRental_def Start_def slice_to_def Let_def)
qed

text \<open>
  C32. The monitor tries to restart a crashed mining container once: when Docker refuses to create
  the new container, the daemon is left stopped, and no number of further ticks does anything.
\<close>

theorem monitor_gives_up_after_failed_restart:
  assumes "md_state m = MiningStateRunning" and "md_containerID m \<noteq> ''''" and "mc_Enabled (md_config m)"
    and "di_InspectContainer D ctx (md_containerID m) w = (Inr info, w1)" and "ci_State info \<noteq> ''running''"
    and "getAvailableGPUs m = gpu # rest"
    and "di_CreateContainer D (ctx_WithTimeout ctx_Background (30 * second) w1)
           (mining_containerConfig m gpu) w1 = (('''', Some e), w2)"
  shows "MonitorLoop D ctx (replicate (Suc n) MonitorTick) m w =
           Returns (m\<lparr>md_containerID := '''', md_state := MiningStateStopped\<rparr>, w2)"
proof -
  let ?m = "m\<lparr>md_containerID := '''', md_state := MiningStateStopped\<rparr>"
  have "mining_containerConfig ?m gpu = mining_containerConfig m gpu"
    by (simp add: mining_containerConfig_def)
  with assms have tick: "monitor_tick D ctx m w = Returns (?m, w2)"
    by (simp add: monitor_tick_def Start_def)
  have "MonitorLoop D ctx (replicate k MonitorTick) ?m w2 = Returns (?m, w2)" for k
    by (induction k) (simp_all add: monitor_tick_def)
  with tick show ?thesis by simp
qed

theorem monitor_gives_up_after_failed_restart_witness:
  "\<exists>m'. MonitorLoop
      (mock_docker\<lparr>di_CreateContainer := (\<lambda>ctx cfg w. (('''', Some (ErrorString ''name in use'')), w)),
         di_InspectContainer := (\<lambda>ctx cid w. (Inr \<lparr>ci_ContainerID = cid, ci_SSHPort = 0,
            ci_State = ''exited'', ci_Health = ''''\<rparr>, w))\<rparr>)
      ctx_Background (replicate 3 MonitorTick)
      (NewMiningDaemon DefaultMiningConfig\<lparr>md_state := MiningStateRunning, md_containerID := ''container-123''\<rparr>)
      quiet_world = Returns (m', quiet_world) \<and> md_state m' = MiningStateStopped"
proof -
  let ?D = "mock_docker\<lparr>di_CreateContainer := (\<lambda>ctx cfg w. (('''', Some (ErrorString ''name in use'')), w)),
         di_InspectContainer := (\<lambda>ctx cid w. (Inr \<lparr>ci_ContainerID = cid, ci_SSHPort = 0,
            ci_State = ''exited'', ci_Health = ''''\<rparr>, w))\<rparr>"
  let ?m = "NewMiningDaemon DefaultMiningConfig\<lparr>md_state := MiningStateRunning, md_containerID := ''container-123''\<rparr>"
  have "MonitorLoop ?D ctx_Background (replicate (Suc 2) MonitorTick) ?m quiet_world =
      Returns (?m\<lparr>md_containerID := '''', md_state := MiningStateStopped\<rparr>, quiet_world)"
    by (rule monitor_gives_up_after_failed_restart [where gpu = "''all''" and rest = "[]" and
          info = "\<lparr>ci_ContainerID = ''container-123'', ci_SSHPort = 0, ci_State = ''exited'', ci_Health = ''''\<rparr>"])
       (simp_all add: NewMiningDaemon_def DefaultMiningConfig_def getAvailableGPUs_def)
  then show ?thesis by (simp add: numeral_3_eq_3)
qed

end
