(* ===== verification/Gpu_Provider.thy ===== *)
theory Gpu_Provider
  imports Go_Prelude
begin

text \<open>
  GPU metrics and specifications: the types and the \<open>GPUProvider\<close> interface of
  \<open>internal/domain\<close>, and its three implementations in \<open>internal/adapters/nvml\<close>: the NVML
  provider, the stub built without NVML and the mock.  The NVML library is the record
  \<open>nvml_lib\<close> of calls the provider makes.
\<close>

type_synonym uint32 = "32 word"
type_synonym uint64 = "64 word"

record GPUMetrics =
  gm_UUID :: string
  gm_Name :: string
  gm_MemoryTotal :: uint64
  gm_MemoryUsed :: uint64
  gm_GPUUtil :: uint32
  gm_MemoryUtil :: uint32
  gm_Temperature :: uint32

record GPUSpec =
  gs_UUID :: string
  gs_Name :: string
  gs_MemoryTotal :: uint64
  gs_DriverVer :: string

record 'd GPUProvider =
  gp_Init :: "'d world \<Rightarrow> error option \<times> 'd world"
  gp_Shutdown :: "'d world \<Rightarrow> error option \<times> 'd world"
  gp_GetDeviceCount :: "'d world \<Rightarrow> (error + int) \<times> 'd world"
  gp_GetMetrics :: "'d world \<Rightarrow> (error + GPUMetrics list) \<times> 'd world"
  gp_GetSpecs :: "'d world \<Rightarrow> (error + GPUSpec list) \<times> 'd world"

section \<open>The NVML provider\<close>

text \<open>
  The library's calls.  A return code is \<open>None\<close> for \<open>SUCCESS\<close> and otherwise the text
  \<open>nvml.ErrorString\<close> gives for it.  The queries on a device handle return a value whatever
  their code, which the provider ignores.
\<close>

record ('d, 'h) nvml_lib =
  nv_Init :: "('d, string option) ext_call"
  nv_Shutdown :: "('d, string option) ext_call"
  nv_DeviceGetCount :: "('d, nat \<times> string option) ext_call"
  nv_DeviceGetHandleByIndex :: "nat \<Rightarrow> ('d, 'h \<times> string option) ext_call"
  nv_GetUUID :: "'h \<Rightarrow> ('d, string) ext_call"
  nv_GetName :: "'h \<Rightarrow> ('d, string) ext_call"
  nv_GetMemoryInfo :: "'h \<Rightarrow> ('d, uint64 \<times> uint64) ext_call"
  nv_GetUtilizationRates :: "'h \<Rightarrow> ('d, uint32 \<times> uint32) ext_call"
  nv_GetTemperature :: "'h \<Rightarrow> ('d, uint32) ext_call"
  nv_SystemGetDriverVersion :: "('d, string) ext_call"

definition NVML_Init :: "('d, 'h) nvml_lib \<Rightarrow> 'd world \<Rightarrow> error option \<times> 'd world" where
  "NVML_Init nv w =
     (case ext_run (nv_Init nv) w of
        (Some msg, w1) \<Rightarrow> (Some (ErrorString (''NVML init failed: '' @ msg)), w1)
      | (None, w1) \<Rightarrow> (None, w1))"

definition NVML_Shutdown :: "('d, 'h) nvml_lib \<Rightarrow> 'd world \<Rightarrow> error option \<times> 'd world" where
  "NVML_Shutdown nv w =
     (case ext_run (nv_Shutdown nv) w of
        (Some msg, w1) \<Rightarrow> (Some (ErrorString (''NVML shutdown failed: '' @ msg)), w1)
      | (None, w1) \<Rightarrow> (None, w1))"

definition NVML_GetDeviceCount :: "('d, 'h) nvml_lib \<Rightarrow> 'd world \<Rightarrow> (error + int) \<times> 'd world" where
  "NVML_GetDeviceCount nv w =
     (case ext_run (nv_DeviceGetCount nv) w of
        ((count, Some msg), w1) \<Rightarrow> (Inl (ErrorString (''failed to get device count: '' @ msg)), w1)
      | ((count, None), w1) \<Rightarrow> (Inr (int count), w1))"

definition device_metrics :: "('d, 'h) nvml_lib \<Rightarrow> 'h \<Rightarrow> 'd world \<Rightarrow> GPUMetrics \<times> 'd world" where
  "device_metrics nv device w =
     (let (uuid, w1) = ext_run (nv_GetUUID nv device) w;
          (name, w2) = ext_run (nv_GetName nv device) w1;
          ((total, used), w3) = ext_run (nv_GetMemoryInfo nv device) w2;
          ((gpu, memory), w4) = ext_run (nv_GetUtilizationRates nv device) w3;
          (temp, w5) = ext_run (nv_GetTemperature nv device) w4
      in (\<lparr>gm_UUID = uuid, gm_Name = name, gm_MemoryTotal = total div (1024 * 1024),
           gm_MemoryUsed = used div (1024 * 1024), gm_GPUUtil = gpu, gm_MemoryUtil = memory,
           gm_Temperature = temp\<rparr>, w5))"

definition device_spec :: "('d, 'h) nvml_lib \<Rightarrow> 'h \<Rightarrow> 'd world \<Rightarrow> GPUSpec \<times> 'd world" where
  "device_spec nv device w =
     (let (uuid, w1) = ext_run (nv_GetUUID nv device) w;
          (name, w2) = ext_run (nv_GetName nv device) w1;
          ((total, used), w3) = ext_run (nv_GetMemoryInfo nv device) w2;
          (driver, w4) = ext_run (nv_SystemGetDriverVersion nv) w3
      in (\<lparr>gs_UUID = uuid, gs_Name = name, gs_MemoryTotal = total div (1024 * 1024),
           gs_DriverVer = driver\<rparr>, w4))"

text \<open>
  The loop \<open>for i := 0; i < count; i++\<close> of both queries: a device whose handle cannot be had is
  skipped.
\<close>

fun device_loop ::
  "('d, 'h) nvml_lib \<Rightarrow> ('h \<Rightarrow> 'd world \<Rightarrow> 'r \<times> 'd world) \<Rightarrow> nat list \<Rightarrow> 'd world \<Rightarrow> 'r list \<times> 'd world" where
  "device_loop nv query [] w = ([], w)"
| "device_loop nv query (i # is) w =
     (case ext_run (nv_DeviceGetHandleByIndex nv i) w of
        ((device, Some _), w1) \<Rightarrow> device_loop nv query is w1
      | ((device, None), w1) \<Rightarrow>
          (case query device w1 of
             (r, w2) \<Rightarrow> (case device_loop nv query is w2 of (rs, w3) \<Rightarrow> (r # rs, w3))))"

definition NVML_GetMetrics :: "('d, 'h) nvml_lib \<Rightarrow> 'd world \<Rightarrow> (error + GPUMetrics list) \<times> 'd world" where
  "NVML_GetMetrics nv w =
     (case NVML_GetDeviceCount nv w of
        (Inl e, w1) \<Rightarrow> (Inl e, w1)
      | (Inr count, w1) \<Rightarrow>
          (case device_loop nv (device_metrics nv) [0..<nat count] w1 of (ms, w2) \<Rightarrow> (Inr ms, w2)))"

definition NVML_GetSpecs :: "('d, 'h) nvml_lib \<Rightarrow> 'd world \<Rightarrow> (error + GPUSpec list) \<times> 'd world" where
  "NVML_GetSpecs nv w =
     (case NVML_GetDeviceCount nv w of
        (Inl e, w1) \<Rightarrow> (Inl e, w1)
      | (Inr count, w1) \<Rightarrow>
          (case device_loop nv (device_spec nv) [0..<nat count] w1 of (ss, w2) \<Rightarrow> (Inr ss, w2)))"

definition NVMLProvider :: "('d, 'h) nvml_lib \<Rightarrow> 'd GPUProvider" where
  "NVMLProvider nv =
     \<lparr>gp_Init = NVML_Init nv, gp_Shutdown = NVML_Shutdown nv,
      gp_GetDeviceCount = NVML_GetDeviceCount nv, gp_GetMetrics = NVML_GetMetrics nv,
      gp_GetSpecs = NVML_GetSpecs nv\<rparr>"

section \<open>The stub and the mock\<close>

definition StubProvider :: "'d GPUProvider" where
  "StubProvider =
     \<lparr>gp_Init = (\<lambda>w. (Some (ErrorString ''NVML not available (built with nonvml tag)''), w)),
      gp_Shutdown = (\<lambda>w. (None, w)),
      gp_GetDeviceCount = (\<lambda>w. (Inl (ErrorString ''NVML not available''), w)),
      gp_GetMetrics = (\<lambda>w. (Inl (ErrorString ''NVML not available''), w)),
      gp_GetSpecs = (\<lambda>w. (Inl (ErrorString ''NVML not available''), w))\<rparr>"

record MockGPUProvider =
  mk_Metrics :: "GPUMetrics list"
  mk_Specs :: "GPUSpec list"
  mk_InitErr :: "error option"

definition NewMockGPUProvider :: "GPUMetrics list \<Rightarrow> GPUSpec list \<Rightarrow> MockGPUProvider" where
  "NewMockGPUProvider metrics specs = \<lparr>mk_Metrics = metrics, mk_Specs = specs, mk_InitErr = None\<rparr>"

definition MockProvider :: "MockGPUProvider \<Rightarrow> 'd GPUProvider" where
  "MockProvider p =
     \<lparr>gp_Init = (\<lambda>w. (mk_InitErr p, w)), gp_Shutdown = (\<lambda>w. (None, w)),
      gp_GetDeviceCount = (\<lambda>w. (Inr (int (length (mk_Metrics p))), w)),
      gp_GetMetrics = (\<lambda>w. (Inr (mk_Metrics p), w)), gp_GetSpecs = (\<lambda>w. (Inr (mk_Specs p), w))\<rparr>"

section \<open>The contract of a provider\<close>

text \<open>
  Metrics come from counted devices: there are never more of them than the provider counts, and a
  provider that cannot count cannot measure.
\<close>

locale gpu_provider =
  fixes G :: "'d GPUProvider"
  assumes metrics_counted: "gp_GetMetrics G w = (Inr ms, w') \<Longrightarrow>
      \<exists>n w1. gp_GetDeviceCount G w = (Inr n, w1) \<and> int (length ms) \<le> n"
    and uncounted: "gp_GetDeviceCount G w = (Inl e, w1) \<Longrightarrow> gp_GetMetrics G w = (Inl e, w1)"
begin

lemma no_devices_no_metrics:
  "gp_GetDeviceCount G w = (Inr 0, w1) \<Longrightarrow> gp_GetMetrics G w = (Inr ms, w') \<Longrightarrow> ms = []"
  using metrics_counted [of w ms w'] by auto

end

lemma device_loop_length: "length (fst (device_loop nv query is w)) \<le> length is"
proof (induction "is" arbitrary: w)
  case (Cons i "is")
  then show ?case
    by (auto split: prod.splits option.splits) (metis Suc_le_mono fst_conv, metis fst_conv le_SucI)
qed simp

interpretation nvml: gpu_provider "NVMLProvider nv"
proof (unfold_locales, goal_cases)
  case (1 w ms w')
  then show ?case
    using device_loop_length [of nv "device_metrics nv"]
    by (auto simp: NVMLProvider_def NVML_GetMetrics_def NVML_GetDeviceCount_def split: prod.splits sum.splits option.splits)
       (metis diff_zero fst_conv length_upt)
next
  case (2 w e w1)
  then show ?case by (simp add: NVMLProvider_def NVML_GetMetrics_def)
qed

interpretation stub: gpu_provider StubProvider
  by unfold_locales (simp_all add: StubProvider_def)

interpretation mock: gpu_provider "MockProvider p"
  by unfold_locales (simp_all add: MockProvider_def)

section \<open>Metrics of the NVML provider\<close>

lemma device_loop_all:
  assumes Q: "\<And>h w. Q (fst (query h w))"
  shows "\<forall>r \<in> set (fst (device_loop nv query is w)). Q r"
proof (induction "is" arbitrary: w)
  case (Cons i "is")
  obtain h e w1 where handle: "ext_run (nv_DeviceGetHandleByIndex nv i) w = ((h, e), w1)" by (metis prod.exhaust)
  obtain r w2 where query: "query h w1 = (r, w2)" by fastforce
  with Q [of h w1] have "Q r" by simp
  obtain rs w3 where rest: "device_loop nv query is w2 = (rs, w3)" by fastforce
  with Cons.IH [of w2] Cons.IH [of w1] \<open>Q r\<close> handle query show ?case by (cases e) simp_all
qed simp

text \<open>
  The metrics the NVML provider reports are consistent: there are at most as many as the library
  counts devices, and if the library never reports more memory in use than there is, neither does
  any of the metrics, after the conversion to megabytes.
\<close>

lemma nvml_metrics_consistent:
  assumes lib: "\<forall>h w. case fst (nv_GetMemoryInfo nv h w) of (tot, used) \<Rightarrow> used \<le> tot"
    and run: "NVML_GetMetrics nv w = (Inr ms, w')"
  shows "(\<exists>n w1. NVML_GetDeviceCount nv w = (Inr n, w1) \<and> int (length ms) \<le> n) \<and>
         (\<forall>m \<in> set ms. gm_MemoryUsed m \<le> gm_MemoryTotal m)"
proof
  show "\<exists>n w1. NVML_GetDeviceCount nv w = (Inr n, w1) \<and> int (length ms) \<le> n"
    using nvml.metrics_counted [of nv w ms w'] run by (simp add: NVMLProvider_def)
  have mono: "u div (1024 * 1024) \<le> t div (1024 * 1024)" if "u \<le> t" for u t :: uint64
    using that by (simp add: word_le_nat_alt unat_div div_le_mono)
  have "gm_MemoryUsed (fst (device_metrics nv h w0)) \<le> gm_MemoryTotal (fst (device_metrics nv h w0))" for h w0
    using lib mono by (auto simp: device_metrics_def ext_run_def split: prod.splits) (metis case_prodD fst_conv)
  from device_loop_all [of "\<lambda>m. gm_MemoryUsed m \<le> gm_MemoryTotal m" "device_metrics nv", OF this] run
  show "\<forall>m \<in> set ms. gm_MemoryUsed m \<le> gm_MemoryTotal m"
    by (auto simp: NVML_GetMetrics_def split: prod.split_asm sum.split_asm) (metis fst_conv)
qed

end
