(* ===== verification/Mtls_Client.thy ===== *)
theory Mtls_Client
  imports Go_Float
begin

text \<open>
  The mTLS client of \<open>internal/adapters/mtls/client.go\<close>.  The TLS connection is the record
  \<open>tls_net\<close> of the network calls the client makes.
\<close>

record Command =
  cmd_ID :: string
  cmd_Type :: string
  cmd_Payload :: payload

record CommandAck =
  ack_CommandID :: string
  ack_Status :: string
  ack_Error :: string
  ack_Payload :: "(string \<times> iface) list"

text \<open>
  A command as \<open>json.Unmarshal\<close> reads it from the bytes of one \<open>Read\<close>, and the bytes
  \<open>json.Marshal\<close> makes of an acknowledgment: an error and a payload that are empty are left out.
\<close>

definition zero_Command :: Command where
  "zero_Command = \<lparr>cmd_ID = '''', cmd_Type = '''', cmd_Payload = Map.empty\<rparr>"

definition store_command_field :: "string \<Rightarrow> json \<Rightarrow> Command \<Rightarrow> Command option" where
  "store_command_field k v cmd =
     (if key_is ''id'' k then map_option (\<lambda>s. cmd\<lparr>cmd_ID := s\<rparr>) (decode_string v (cmd_ID cmd))
      else if key_is ''type'' k then map_option (\<lambda>s. cmd\<lparr>cmd_Type := s\<rparr>) (decode_string v (cmd_Type cmd))
      else if key_is ''payload'' k then map_option (\<lambda>p. cmd\<lparr>cmd_Payload := p\<rparr>) (decode_payload v (cmd_Payload cmd))
      else Some cmd)"

definition Unmarshal_Command :: "string \<Rightarrow> Command option" where
  "Unmarshal_Command data = decode_struct store_command_field zero_Command (Unmarshal data)"

definition ack_json :: "CommandAck \<Rightarrow> json" where
  "ack_json ack =
     JObj ([(''command_id'', JStr (ack_CommandID ack)), (''status'', JStr (ack_Status ack))] @
           (if ack_Error ack = '''' then [] else [(''error'', JStr (ack_Error ack))]) @
           (if ack_Payload ack = [] then [] else [(''payload'', json_of_iface (IMap (ack_Payload ack)))]))"

definition Marshal_CommandAck :: "CommandAck \<Rightarrow> string" where
  "Marshal_CommandAck ack = Marshal (ack_json ack)"

record tls_config =
  tc_MinVersion :: int
  tc_MaxVersion :: int

definition VersionTLS13 :: int where
  "VersionTLS13 = 0x0304"

record ('d, 'c) tls_net =
  tn_Dial :: "string \<Rightarrow> tls_config \<Rightarrow> ('d, error + 'c) ext_call"
  tn_Handshake :: "'c \<Rightarrow> ('d, error option) ext_call"
  tn_Close :: "'c \<Rightarrow> ('d, unit) ext_call"
  tn_Read :: "'c \<Rightarrow> nat \<Rightarrow> ('d, error + string) ext_call"
  tn_Write :: "'c \<Rightarrow> string \<Rightarrow> ('d, error option) ext_call"

record 'c Client =
  ct_hubAddr :: string
  ct_conn :: "'c option"
  ct_stopCh_closed :: bool

definition NewClient :: "string \<Rightarrow> 'c Client" where
  "NewClient hubAddr = \<lparr>ct_hubAddr = hubAddr, ct_conn = None, ct_stopCh_closed = False\<rparr>"

definition client_tls_config :: tls_config where
  "client_tls_config = \<lparr>tc_MinVersion = VersionTLS13, tc_MaxVersion = VersionTLS13\<rparr>"

definition Connect ::
  "('d, 'c) tls_net \<Rightarrow> 'c Client \<Rightarrow> 'd world \<Rightarrow> error option \<times> 'c Client \<times> 'd world" where
  "Connect net c w =
     (case ext_run (tn_Dial net (ct_hubAddr c) client_tls_config) w of
        (Inl e, w1) \<Rightarrow> (Some e, c, w1)
      | (Inr conn, w1) \<Rightarrow>
          (case ext_run (tn_Handshake net conn) w1 of
             (Some e, w2) \<Rightarrow>
               (Some (Wrap ''TLS handshake failed'' e), c, snd (ext_run (tn_Close net conn) w2))
           | (None, w2) \<Rightarrow> (None, c\<lparr>ct_conn := Some conn\<rparr>, w2)))"

section \<open>Listening\<close>

text \<open>
  The callback \<open>OnCommand\<close>, when set, works on the state \<open>'s\<close> of the component that set it.
\<close>

type_synonym ('s, 'd) on_command =
  "Command \<Rightarrow> 's \<Rightarrow> 'd world \<Rightarrow> (CommandAck \<times> 's \<times> 'd world) outcome"

definition call_OnCommand ::
  "('s, 'd) on_command option \<Rightarrow> Command \<Rightarrow> 's \<Rightarrow> 'd world \<Rightarrow> (CommandAck \<times> 's \<times> 'd world) outcome" where
  "call_OnCommand onCommand cmd s w =
     (case onCommand of
        Some f \<Rightarrow> f cmd s w
      | None \<Rightarrow>
          Returns (\<lparr>ack_CommandID = cmd_ID cmd, ack_Status = ''ok'', ack_Error = '''', ack_Payload = []\<rparr>, s, w))"

text \<open>
  The read loop of \<open>listenOnce\<close>.  The list tells, for each turn of the loop, whether \<open>stopCh\<close>
  is closed by then; when it is used up the loop is still running.  Beside the new state the
  result carries the commands handled, each with the acknowledgment written for it, and whether
  the loop has ended.
\<close>

fun read_loop ::
  "('d, 'c) tls_net \<Rightarrow> ('s, 'd) on_command option \<Rightarrow>
   'c \<Rightarrow> bool list \<Rightarrow> 's \<Rightarrow> 'd world \<Rightarrow> (bool \<times> (Command \<times> CommandAck) list \<times> 's \<times> 'd world) outcome" where
  "read_loop net onCommand conn [] s w = Returns (False, [], s, w)"
| "read_loop net onCommand conn (True # stops) s w = Returns (True, [], s, w)"
| "read_loop net onCommand conn (False # stops) s w =
     (case ext_run (tn_Read net conn 4096) w of
        (Inl e, w1) \<Rightarrow> Returns (True, [], s, w1)
      | (Inr data, w1) \<Rightarrow>
          (case Unmarshal_Command data of
             None \<Rightarrow> read_loop net onCommand conn stops s w1
           | Some cmd \<Rightarrow>
               outcome_bind (call_OnCommand onCommand cmd s w1) (\<lambda>(ack, s', w2).
                 outcome_bind
                   (read_loop net onCommand conn stops s'
                      (snd (ext_run (tn_Write net conn (Marshal_CommandAck ack)) w2)))
                   (\<lambda>(ended, tr, s'', w3). Returns (ended, (cmd, ack) # tr, s'', w3)))))"

definition listenOnce ::
  "('d, 'c) tls_net \<Rightarrow> ('s, 'd) on_command option \<Rightarrow>
   'c Client \<Rightarrow> bool list \<Rightarrow> 's \<Rightarrow> 'd world \<Rightarrow> (bool \<times> (Command \<times> CommandAck) list \<times> 's \<times> 'd world) outcome" where
  "listenOnce net onCommand c stops s w =
     (case ct_conn c of
        None \<Rightarrow> Returns (True, [], s, w)
      | Some conn \<Rightarrow>
          outcome_bind (read_loop net onCommand conn stops s w)
            (\<lambda>(ended, tr, s', w1).
               Returns (ended, tr, s', if ended then snd (ext_run (tn_Close net conn) w1) else w1)))"

section \<open>Reconnecting\<close>

definition initial_backoff :: duration where
  "initial_backoff = 5 * second"

definition maxBackoff :: duration where
  "maxBackoff = 60 * second"

definition next_backoff :: "duration \<Rightarrow> duration" where
  "next_backoff backoff = (let b = backoff * 2 in if maxBackoff < b then maxBackoff else b)"

text \<open>
  The inner loop of \<open>Listen\<close>, over which case its \<open>select\<close> takes each time: \<open>stopCh\<close>
  (\<open>True\<close>) or the timer.
\<close>

datatype reconnect_result = Reconnected | ListenStopped | StillTrying duration

fun reconnect_loop ::
  "('d, 'c) tls_net \<Rightarrow> bool list \<Rightarrow> duration \<Rightarrow> 'c Client \<Rightarrow> 'd world \<Rightarrow> reconnect_result \<times> 'c Client \<times> 'd world" where
  "reconnect_loop net [] backoff c w = (StillTrying backoff, c, w)"
| "reconnect_loop net (True # stops) backoff c w = (ListenStopped, c, w)"
| "reconnect_loop net (False # stops) backoff c w =
     (case Connect net c (time_Sleep backoff w) of
        (Some e, c', w') \<Rightarrow> reconnect_loop net stops (next_backoff backoff) c' w'
      | (None, c', w') \<Rightarrow> (Reconnected, c', w'))"

text \<open>
  \<open>Listen\<close>: rounds of listening and reconnecting.  Each round is given by what its loops see of
  \<open>stopCh\<close> and by what the check between them sees; \<open>OnReconnected\<close> is not set by the node.
\<close>

record listen_round =
  lr_reads :: "bool list"
  lr_stopped :: bool
  lr_waits :: "bool list"

fun Listen ::
  "('d, 'c) tls_net \<Rightarrow> ('s, 'd) on_command option \<Rightarrow>
   listen_round list \<Rightarrow> 'c Client \<Rightarrow> 's \<Rightarrow> 'd world \<Rightarrow>
   (bool \<times> (Command \<times> CommandAck) list \<times> 'c Client \<times> 's \<times> 'd world) outcome" where
  "Listen net onCommand [] c s w = Returns (False, [], c, s, w)"
| "Listen net onCommand (r # rs) c s w =
     outcome_bind (listenOnce net onCommand c (lr_reads r) s w)
       (\<lambda>(ended, tr, s', w1).
          if \<not> ended then Returns (False, tr, c, s', w1)
          else if lr_stopped r then Returns (True, tr, c, s', w1)
          else case reconnect_loop net (lr_waits r) initial_backoff c w1 of
            (ListenStopped, c', w2) \<Rightarrow> Returns (True, tr, c', s', w2)
          | (StillTrying _, c', w2) \<Rightarrow> Returns (False, tr, c', s', w2)
          | (Reconnected, c', w2) \<Rightarrow>
              outcome_bind (Listen net onCommand rs c' s' w2)
                (\<lambda>(fin, tr', c'', s'', w3). Returns (fin, tr @ tr', c'', s'', w3)))"

definition Send :: "('d, 'c) tls_net \<Rightarrow> string \<Rightarrow> 'c Client \<Rightarrow> 'd world \<Rightarrow> error option \<times> 'd world" where
  "Send net data c w =
     (case ct_conn c of
        None \<Rightarrow> (Some (ErrorString ''not connected''), w)
      | Some conn \<Rightarrow> ext_run (tn_Write net conn data) w)"

text \<open>\<open>Close\<close> closes the stop channel, which panics the second time, then the connection.\<close>

definition Close_client :: "('d, 'c) tls_net \<Rightarrow> 'c Client \<Rightarrow> 'd world \<Rightarrow> ('c Client \<times> 'd world) outcome" where
  "Close_client net c w =
     (if ct_stopCh_closed c then Panics
      else Returns (c\<lparr>ct_stopCh_closed := True\<rparr>,
             case ct_conn c of None \<Rightarrow> w | Some conn \<Rightarrow> snd (ext_run (tn_Close net conn) w)))"

section \<open>What holds of every command, holds of the trace\<close>

text \<open>
  A property \<open>I\<close> of the callback's state that every command keeps and a relation \<open>Q\<close> that every
  command has with its acknowledgment hold over any number of connections.
\<close>

lemma read_loop_trace:
  assumes step: "\<And>data cmd s w ack s' w'. Unmarshal_Command data = Some cmd \<Longrightarrow>
      h cmd s w = Returns (ack, s', w') \<Longrightarrow> I s \<Longrightarrow> I s' \<and> Q cmd ack"
  shows "read_loop net (Some h) conn stops s w = Returns (ended, tr, s', w') \<Longrightarrow> I s \<Longrightarrow>
    I s' \<and> (\<forall>(cmd, ack) \<in> set tr. Q cmd ack)"
proof (induction stops arbitrary: s w ended tr)
  case (Cons st stops)
  obtain r w1 where r: "ext_run (tn_Read net conn 4096) w = (r, w1)" by fastforce
  show ?case
  proof (cases "\<exists>data cmd. \<not> st \<and> r = Inr data \<and> Unmarshal_Command data = Some cmd")
    case True
    then obtain data cmd where c: "\<not> st" "r = Inr data" "Unmarshal_Command data = Some cmd" by blast
    with Cons.prems(1) r obtain ack s1 w2 w3 tr1 ended1 where
      h: "h cmd s w1 = Returns (ack, s1, w2)" and tr: "tr = (cmd, ack) # tr1"
      and rec: "read_loop net (Some h) conn stops s1 w3 = Returns (ended1, tr1, s', w')"
      by (auto simp: outcome_bind_Returns call_OnCommand_def)
    from step [OF c(3) h Cons.prems(2)] Cons.IH [OF rec] tr show ?thesis by auto
  next
    case False
    with Cons r show ?thesis
      by (cases st; cases r) (auto split: option.splits)
  qed
qed simp

lemma Listen_trace:
  assumes step: "\<And>data cmd s w ack s' w'. Unmarshal_Command data = Some cmd \<Longrightarrow>
      h cmd s w = Returns (ack, s', w') \<Longrightarrow> I s \<Longrightarrow> I s' \<and> Q cmd ack"
  shows "Listen net (Some h) rs c s w = Returns (fin, tr, c', s', w') \<Longrightarrow> I s \<Longrightarrow>
    I s' \<and> (\<forall>(cmd, ack) \<in> set tr. Q cmd ack)"
proof (induction rs arbitrary: c s w fin tr)
  case (Cons r rs)
  then obtain ended tr1 s1 w1 where
    once: "listenOnce net (Some h) c (lr_reads r) s w = Returns (ended, tr1, s1, w1)"
    by (auto simp: outcome_bind_Returns)
  have loop: "read_loop net (Some h) conn stops s w = Returns (ended, tr, s1, w1) \<Longrightarrow> I s1 \<and> (\<forall>(cmd, ack) \<in> set tr. Q cmd ack)"
    for conn stops ended tr w1 using Cons.prems(2) by (intro read_loop_trace [where h = h and I = I and Q = Q, OF step])
  from once have first: "I s1 \<and> (\<forall>(cmd, ack) \<in> set tr1. Q cmd ack)"
    using Cons.prems(2) by (auto simp: listenOnce_def outcome_bind_Returns split: option.splits dest: loop)
  obtain res c2 w2 where
    rec: "reconnect_loop net (lr_waits r) initial_backoff c w1 = (res, c2, w2)" by (metis prod_cases3)
  from Cons.prems once rec have "s' = s1 \<and> tr = tr1 \<or> (\<exists>tr2 fin2. tr = tr1 @ tr2 \<and>
      Listen net (Some h) rs c2 s1 w2 = Returns (fin2, tr2, c', s', w'))"
    by (cases res) (auto simp: outcome_bind_Returns split: if_splits)
  with Cons.IH first show ?case by fastforce
qed simp

lemma Listen_invariant:
  assumes "\<And>cmd s w ack s' w'. h cmd s w = Returns (ack, s', w') \<Longrightarrow> I s \<Longrightarrow> I s'"
    and "Listen net (Some h) rs c s w = Returns (fin, tr, c', s', w')" and "I s"
  shows "I s'"
  using Listen_trace [of h I "\<lambda>_ _. True", OF _ assms(2,3)] assms(1) by blast

section \<open>The contract of the command callback\<close>

text \<open>
  The callback answers the command it is given: the acknowledgment carries its ID and one of the two
  statuses.
\<close>

definition answers_command :: "Command \<Rightarrow> CommandAck \<Rightarrow> bool" where
  "answers_command cmd ack \<longleftrightarrow> ack_CommandID ack = cmd_ID cmd \<and> ack_Status ack \<in> {''ok'', ''error''}"

locale command_handler =
  fixes h :: "('s, 'd) on_command"
  assumes answers: "h cmd s w = Returns (ack, s', w') \<Longrightarrow> answers_command cmd ack"
begin

lemma Listen_answers:
  "Listen net (Some h) rs c s w = Returns (fin, tr, c', s', w') \<Longrightarrow> \<forall>(cmd, ack) \<in> set tr. answers_command cmd ack"
  using Listen_trace [of h "\<lambda>_. True" answers_command] answers by blast

end

section \<open>Backoff\<close>

lemma next_backoff_bounds: "0 < b \<Longrightarrow> b \<le> maxBackoff \<Longrightarrow> 0 < next_backoff b \<and> next_backoff b \<le> maxBackoff"
  by (simp add: next_backoff_def maxBackoff_def Let_def)

lemma next_backoff_iterate:
  "(next_backoff ^^ n) initial_backoff = min maxBackoff (initial_backoff * 2 ^ n)"
proof (induction n)
  case (Suc n)
  then show ?case
    by (simp add: next_backoff_def maxBackoff_def initial_backoff_def Let_def min_def)
qed (simp add: maxBackoff_def initial_backoff_def)

lemma Connect_clock: "Connect net c w = (r, c', w') \<Longrightarrow> w_clock w \<le> w_clock w'"
proof -
  assume run: "Connect net c w = (r, c', w')"
  obtain r1 w1 where dial: "ext_run (tn_Dial net (ct_hubAddr c) client_tls_config) w = (r1, w1)" by fastforce
  from ext_run_clock [OF dial] have le: "w_clock w \<le> w_clock w1" .
  show ?thesis
  proof (cases r1)
    case (Inl e)
    with run dial le show ?thesis by (simp add: Connect_def)
  next
    case (Inr conn)
    obtain r2 w2 where hs: "ext_run (tn_Handshake net conn) w1 = (r2, w2)" by fastforce
    obtain u w3 where cl: "ext_run (tn_Close net conn) w2 = (u, w3)" by (metis prod.exhaust)
    from ext_run_clock [OF hs] ext_run_clock [OF cl] le run dial Inr hs cl show ?thesis
      by (cases r2) (auto simp: Connect_def)
  qed
qed

lemma reconnect_loop_waits:
  "reconnect_loop net (replicate n False) b c w = (StillTrying b', c', w') \<Longrightarrow>
   b' = (next_backoff ^^ n) b \<and> w_clock w + (\<Sum>i<n. (next_backoff ^^ i) b) \<le> w_clock w'"
proof (induction n arbitrary: b c w)
  case (Suc n)
  obtain r c1 w1 where conn: "Connect net c (time_Sleep b w) = (r, c1, w1)" by (metis prod_cases3)
  with Suc.prems have rec: "reconnect_loop net (replicate n False) (next_backoff b) c1 w1 = (StillTrying b', c', w')"
    by (cases r) simp_all
  have "(\<Sum>i<Suc n. (next_backoff ^^ i) b) = b + (\<Sum>i<n. (next_backoff ^^ i) (next_backoff b))"
    by (simp add: sum.lessThan_Suc_shift funpow_swap1 del: sum.lessThan_Suc)
  moreover from time_Sleep_clock(1) [of w b] Connect_clock [OF conn] have "w_clock w + b \<le> w_clock w1" by simp
  ultimately show ?case using Suc.IH [OF rec] by (simp add: funpow_swap1)
qed simp

text \<open>
  C35. While the Hub cannot be reached, the client waits longer and longer between attempts: after
  \<open>n\<close> failed attempts the next wait is five seconds times \<open>2 ^ n\<close>, but never more than sixty
  seconds, and at least the sum of the waits so far has passed.
\<close>

theorem reconnect_backoff_schedule:
  assumes "reconnect_loop net (replicate n False) initial_backoff c w = (StillTrying b, c', w')"
  shows "b = min (60 * second) (5 * second * 2 ^ n) \<and>
         w_clock w + (\<Sum>i<n. min (60 * second) (5 * second * 2 ^ i)) \<le> w_clock w'"
  using reconnect_loop_waits [OF assms] unfolding next_backoff_iterate
  by (simp add: maxBackoff_def initial_backoff_def)

definition dead_net :: "(unit, unit) tls_net" where
  "dead_net =
     \<lparr>tn_Dial = (\<lambda>a cfg w. (Inl (ErrorString ''connection refused''), 0, ())), tn_Handshake = (\<lambda>c w. (None, 0, ())),
      tn_Close = (\<lambda>c w. ((), 0, ())), tn_Read = (\<lambda>c n w. (Inr '''', 0, ())), tn_Write = (\<lambda>c s w. (None, 0, ()))\<rparr>"

theorem reconnect_backoff_schedule_witness:
  "\<exists>b w'. reconnect_loop dead_net (replicate 4 False) initial_backoff (NewClient ''hub:8443'')
       \<lparr>w_clock = 0, w_lag = (\<lambda>_. 0), w_ext = ()\<rparr> = (StillTrying b, NewClient ''hub:8443'', w') \<and>
     b = 60 * second \<and> 75 * second \<le> w_clock w'"
proof -
  obtain b w' where run: "reconnect_loop dead_net (replicate 4 False) initial_backoff (NewClient ''hub:8443'')
       \<lparr>w_clock = 0, w_lag = (\<lambda>_. 0), w_ext = ()\<rparr> = (StillTrying b, NewClient ''hub:8443'', w')"
    by (simp add: numeral_eq_Suc Connect_def dead_net_def go_eval time_Sleep_def Let_def)
  from reconnect_backoff_schedule [OF run] run show ?thesis
    by (simp add: numeral_eq_Suc)
qed

text \<open>
  A client is connected by \<open>Connect\<close> only over a connection that was dialled with TLS 1.3 as
  both the lowest and the highest version and whose handshake completed; a failed attempt leaves
  the client as it was.
\<close>

lemma Connect_requires_tls13_handshake:
  assumes "Connect net c w = (r, c', w')"
  shows "case r of
      Some e \<Rightarrow> c' = c
    | None \<Rightarrow> \<exists>conn w1. c' = c\<lparr>ct_conn := Some conn\<rparr> \<and>
        ext_run (tn_Dial net (ct_hubAddr c) \<lparr>tc_MinVersion = 0x0304, tc_MaxVersion = 0x0304\<rparr>) w = (Inr conn, w1) \<and>
        ext_run (tn_Handshake net conn) w1 = (None, w')"
  using assms
  by (auto simp: Connect_def client_tls_config_def VersionTLS13_def split: prod.split_asm sum.split_asm option.split_asm)

end
