(* ===== verification/Node_Daemon.thy ===== *)
theory Node_Daemon
  imports Rental_API Mining_Daemon Gpu_Provider Mtls_Client
begin

text \<open>
  The node daemon of \<open>internal/services/node_daemon.go\<close>: it carries out the Hub's commands on the
  rental executor and the mining daemon, and reports metrics.
\<close>

text \<open>
  What the daemon is wired to and calls: the executor's operations, the Docker service the mining
  daemon uses, the GPU provider, the network, the language's float conversion,
  the system call behind \<open>getOutboundIP\<close> and the local time zone.
\<close>

record ('e, 'd, 'c) node_env =
  ne_executor :: "('e, 'd) RentalExecutorInterface"
  ne_docker :: "'d DockerServiceInterface"
  ne_gpu :: "'d GPUProvider"
  ne_net :: "('d, 'c) tls_net"
  ne_float_impl :: "rat \<Rightarrow> int64"
  ne_DialUDP :: "('d, error + string) ext_call"
  ne_zone :: int

text \<open>
  \<open>nd_restarts\<close> counts the restart goroutines the mining daemon has spawned and that have not run
  yet.
\<close>

record ('e, 'c) NodeDaemon =
  nd_mtlsClient :: "'c Client option"
  nd_nodeID :: string
  nd_hostAddr :: string
  nd_metricsInterval :: duration
  nd_stopCh_closed :: bool
  nd_rentalExecutor :: "'e option"
  nd_miningDaemon :: "MiningDaemon option"
  nd_restarts :: nat

definition NewNodeDaemon :: "string \<Rightarrow> ('e, 'c) NodeDaemon" where
  "NewNodeDaemon nodeID =
     \<lparr>nd_mtlsClient = None, nd_nodeID = nodeID, nd_hostAddr = '''', nd_metricsInterval = 30 * second,
      nd_stopCh_closed = False, nd_rentalExecutor = None, nd_miningDaemon = None, nd_restarts = 0\<rparr>"

definition WithRentalExecutor :: "'e \<Rightarrow> string \<Rightarrow> ('e, 'c) NodeDaemon \<Rightarrow> ('e, 'c) NodeDaemon" where
  "WithRentalExecutor executor hostAddr d =
     d\<lparr>nd_rentalExecutor := Some executor, nd_hostAddr := hostAddr\<rparr>"

definition WithMiningDaemon :: "MiningDaemon \<Rightarrow> ('e, 'c) NodeDaemon \<Rightarrow> ('e, 'c) NodeDaemon" where
  "WithMiningDaemon md d = d\<lparr>nd_miningDaemon := Some md\<rparr>"

definition ConnectToHub ::
  "('e, 'd, 'c) node_env \<Rightarrow> string \<Rightarrow> ('e, 'c) NodeDaemon \<Rightarrow> 'd world \<Rightarrow>
   error option \<times> ('e, 'c) NodeDaemon \<times> 'd world" where
  "ConnectToHub env hubAddr d w =
     (case Connect (ne_net env) (NewClient hubAddr) w of
        (r, c, w') \<Rightarrow> (r, d\<lparr>nd_mtlsClient := Some c\<rparr>, w'))"

section \<open>Commands\<close>

definition error_ack :: "Command \<Rightarrow> string \<Rightarrow> CommandAck" where
  "error_ack cmd msg =
     \<lparr>ack_CommandID = cmd_ID cmd, ack_Status = ''error'', ack_Error = msg, ack_Payload = []\<rparr>"

definition getOutboundIP :: "('d, error + string) ext_call \<Rightarrow> 'd world \<Rightarrow> string \<times> 'd world" where
  "getOutboundIP dial w =
     (case ext_run dial w of (Inl e, w1) \<Rightarrow> (''localhost'', w1) | (Inr ip, w1) \<Rightarrow> (ip, w1))"

text \<open>The request \<open>handleStartRental\<close> builds from the payload of a command.\<close>

definition command_request :: "(rat \<Rightarrow> int64) \<Rightarrow> Command \<Rightarrow> string \<Rightarrow> StartRentalRequest" where
  "command_request impl cmd hostAddr =
     (let p = cmd_Payload cmd;
          image = payload_string p ''image'';
          cpuCount = (case payload_float p ''cpu_count'' of Some v \<Rightarrow> float_to_int64 impl v | None \<Rightarrow> 4);
          memoryMB = (case payload_float p ''memory_mb'' of Some v \<Rightarrow> float_to_int64 impl v | None \<Rightarrow> 16384)
      in \<lparr>sr_SessionID = payload_string p ''session_id'',
          sr_Image = (if image = '''' then default_image else image),
          sr_GPUDeviceID = payload_string p ''gpu_device_id'',
          sr_SSHPassword = payload_string p ''ssh_password'',
          sr_MemoryBytes = memoryMB * 1024 * 1024,
          sr_CPUCount = cpuCount,
          sr_Host = hostAddr\<rparr>)"

text \<open>Pausing mining before the rental, when there is a mining daemon and a GPU is named.\<close>

definition pause_mining ::
  "('e, 'd, 'c) node_env \<Rightarrow> string \<Rightarrow> ('e, 'c) NodeDaemon \<Rightarrow> 'd world \<Rightarrow> ('e, 'c) NodeDaemon \<times> 'd world" where
  "pause_mining env gpuDeviceID d w =
     (case nd_miningDaemon d of
        Some md \<Rightarrow>
          if gpuDeviceID \<noteq> '''' then
            (case PauseForRental (ne_docker env) (ctx_WithTimeout ctx_Background (30 * second) w) [gpuDeviceID] md w of
               (spawned, md', w') \<Rightarrow>
                 (d\<lparr>nd_miningDaemon := Some md',
                    nd_restarts := nd_restarts d + (if spawned then 1 else 0)\<rparr>, w'))
          else (d, w)
      | None \<Rightarrow> (d, w))"

definition started_ack :: "Command \<Rightarrow> string \<Rightarrow> ConnectionInfo \<Rightarrow> CommandAck" where
  "started_ack cmd sshHost connInfo =
     \<lparr>ack_CommandID = cmd_ID cmd, ack_Status = ''ok'', ack_Error = '''',
      ack_Payload =
        [(''session_id'', IString (payload_string (cmd_Payload cmd) ''session_id'')),
         (''ssh_host'', IString sshHost),
         (''ssh_port'', IFloat (of_int (cx_Port connInfo))),
         (''ssh_user'', IString (cx_User connInfo)),
         (''container_id'', IString (cx_ContainerID connInfo))]\<rparr>"

text \<open>The acknowledgment for the result of \<open>StartRental\<close>, with the host the renter connects to.\<close>

definition start_result_ack ::
  "('e, 'd, 'c) node_env \<Rightarrow> Command \<Rightarrow> string \<Rightarrow> error + ConnectionInfo \<Rightarrow> 'd world \<Rightarrow> CommandAck \<times> 'd world" where
  "start_result_ack env cmd hostAddr res w =
     (case res of
        Inl err \<Rightarrow> (error_ack cmd (''failed to start rental: '' @ error_text err), w)
      | Inr connInfo \<Rightarrow>
          if hostAddr = '''' \<or> hostAddr = ''localhost'' then
            (case getOutboundIP (ne_DialUDP env) w of (ip, w') \<Rightarrow> (started_ack cmd ip connInfo, w'))
          else (started_ack cmd hostAddr connInfo, w))"

definition handleStartRental ::
  "('e, 'd, 'c) node_env \<Rightarrow> Command \<Rightarrow> ('e, 'c) NodeDaemon \<Rightarrow> 'd world \<Rightarrow>
   (CommandAck \<times> ('e, 'c) NodeDaemon \<times> 'd world) outcome" where
  "handleStartRental env cmd d w =
     (case nd_rentalExecutor d of
        None \<Rightarrow> Returns (error_ack cmd ''rental executor not configured'', d, w)
      | Some ex \<Rightarrow>
          if payload_string (cmd_Payload cmd) ''session_id'' = '''' then
            Returns (error_ack cmd ''missing session_id'', d, w)
          else
            let (d1, w1) = pause_mining env (payload_string (cmd_Payload cmd) ''gpu_device_id'') d w in
            outcome_bind
              (outcome_of_option
                 (ei_StartRental (ne_executor env) (ctx_WithTimeout ctx_Background (10 * minute) w1)
                    (command_request (ne_float_impl env) cmd (nd_hostAddr d)) ex w1))
              (\<lambda>(res, ex', w2).
                 let (ack, w3) = start_result_ack env cmd (nd_hostAddr d) res w2
                 in Returns (ack, d1\<lparr>nd_rentalExecutor := Some ex'\<rparr>, w3)))"

text \<open>Resuming mining after the rental: the call names no GPU.\<close>

definition resume_mining ::
  "('e, 'd, 'c) node_env \<Rightarrow> ('e, 'c) NodeDaemon \<Rightarrow> 'd world \<Rightarrow> (('e, 'c) NodeDaemon \<times> 'd world) outcome" where
  "resume_mining env d w =
     (case nd_miningDaemon d of
        Some md \<Rightarrow>
          outcome_bind
            (ResumeAfterRental (ne_docker env) (ctx_WithTimeout ctx_Background (30 * second) w) [] md w)
            (\<lambda>(_, md', w'). Returns (d\<lparr>nd_miningDaemon := Some md'\<rparr>, w'))
      | None \<Rightarrow> Returns (d, w))"

definition handleStopRental ::
  "('e, 'd, 'c) node_env \<Rightarrow> Command \<Rightarrow> ('e, 'c) NodeDaemon \<Rightarrow> 'd world \<Rightarrow>
   (CommandAck \<times> ('e, 'c) NodeDaemon \<times> 'd world) outcome" where
  "handleStopRental env cmd d w =
     (case nd_rentalExecutor d of
        None \<Rightarrow> Returns (error_ack cmd ''rental executor not configured'', d, w)
      | Some ex \<Rightarrow>
          let sessionID = payload_string (cmd_Payload cmd) ''session_id'' in
          if sessionID = '''' then Returns (error_ack cmd ''missing session_id'', d, w)
          else
            (case ei_StopRental (ne_executor env) (ctx_WithTimeout ctx_Background (30 * second) w) sessionID ex w of
               (Some err, ex', w1) \<Rightarrow>
                 Returns
                   (\<lparr>ack_CommandID = cmd_ID cmd, ack_Status = ''ok'',
                     ack_Error = ''stop warning: '' @ error_text err, ack_Payload = []\<rparr>,
                    d\<lparr>nd_rentalExecutor := Some ex'\<rparr>, w1)
             | (None, ex', w1) \<Rightarrow>
                 outcome_bind (resume_mining env (d\<lparr>nd_rentalExecutor := Some ex'\<rparr>) w1)
                   (\<lambda>(d', w2).
                      Returns
                        (\<lparr>ack_CommandID = cmd_ID cmd, ack_Status = ''ok'', ack_Error = '''',
                          ack_Payload = [(''session_id'', IString sessionID)]\<rparr>, d', w2))))"

definition handleCommand ::
  "('e, 'd, 'c) node_env \<Rightarrow> (('e, 'c) NodeDaemon, 'd) on_command" where
  "handleCommand env cmd d w =
     (if cmd_Type cmd = ''start_rental'' then handleStartRental env cmd d w
      else if cmd_Type cmd = ''stop_rental'' then handleStopRental env cmd d w
      else if cmd_Type cmd = ''start_job'' then handleStartRental env cmd d w
      else if cmd_Type cmd = ''stop_job'' then handleStopRental env cmd d w
      else Returns (error_ack cmd ''unknown command'', d, w))"

section \<open>Heartbeats\<close>

definition metrics_json :: "GPUMetrics \<Rightarrow> json" where
  "metrics_json m =
     JObj [(''uuid'', JStr (gm_UUID m)), (''name'', JStr (gm_Name m)),
           (''memory_total_mb'', JNum (Itoa (uint (gm_MemoryTotal m)))),
           (''memory_used_mb'', JNum (Itoa (uint (gm_MemoryUsed m)))),
           (''gpu_util_percent'', JNum (Itoa (uint (gm_GPUUtil m)))),
           (''memory_util_percent'', JNum (Itoa (uint (gm_MemoryUtil m)))),
           (''temperature_c'', JNum (Itoa (uint (gm_Temperature m))))]"

text \<open>
  The objects built from Go maps list their members in the order of their keys, as the encoder
  writes them.
\<close>

definition mining_json :: "int \<Rightarrow> MiningStatus \<Rightarrow> json" where
  "mining_json zone status =
     JObj ([(''container_id'', JStr (mst_ContainerID status)), (''gpu_count'', JNum (Itoa (mst_GPUCount status)))] @
           (case mst_StartedAt status of
              None \<Rightarrow> [] | Some t \<Rightarrow> [(''started_at'', JStr (format_RFC3339 zone t))]) @
           [(''state'', JStr (MiningState_text (mst_State status)))])"

definition buildHeartbeat :: "int \<Rightarrow> GPUMetrics list \<Rightarrow> ('e, 'c) NodeDaemon \<Rightarrow> json" where
  "buildHeartbeat zone gpuMetrics d =
     JObj [(''payload'',
            JObj ((''gpu_metrics'', JArr (map metrics_json gpuMetrics)) #
                  (case nd_miningDaemon d of
                     None \<Rightarrow> [] | Some md \<Rightarrow> [(''mining'', mining_json zone (Status md))]))),
           (''type'', JStr ''heartbeat'')]"

text \<open>One tick of \<open>reportMetrics\<close>: the heartbeat sent, if any, and the world after it.\<close>

definition report_tick ::
  "('e, 'd, 'c) node_env \<Rightarrow> ('e, 'c) NodeDaemon \<Rightarrow> 'd world \<Rightarrow> json option \<times> 'd world" where
  "report_tick env d w =
     (case gp_GetMetrics (ne_gpu env) w of
        (Inl e, w1) \<Rightarrow> (None, w1)
      | (Inr metrics, w1) \<Rightarrow>
          (let heartbeat = buildHeartbeat (ne_zone env) metrics d in
           case nd_mtlsClient d of
             None \<Rightarrow> (None, w1)
           | Some c \<Rightarrow> (Some heartbeat, snd (Send (ne_net env) (Marshal heartbeat) c w1))))"

text \<open>The loop, over whether each \<open>select\<close> takes the stop case (\<open>True\<close>) or the ticker.\<close>

fun reportMetrics ::
  "('e, 'd, 'c) node_env \<Rightarrow> bool list \<Rightarrow> ('e, 'c) NodeDaemon \<Rightarrow> 'd world \<Rightarrow> json list \<times> 'd world" where
  "reportMetrics env [] d w = ([], w)"
| "reportMetrics env (True # stops) d w = ([], w)"
| "reportMetrics env (False # stops) d w =
     (case report_tick env d w of
        (hb, w1) \<Rightarrow>
          (case reportMetrics env stops d w1 of
             (hbs, w2) \<Rightarrow> ((case hb of None \<Rightarrow> hbs | Some j \<Rightarrow> j # hbs), w2)))"

section \<open>Start and stop\<close>

text \<open>
  \<open>Start\<close> up to the point where it waits for the stop signal: the GPU provider is initialised, and
  whether \<open>Shutdown\<close> is deferred depends on the result.
\<close>

definition daemon_Start :: "('e, 'd, 'c) node_env \<Rightarrow> 'd world \<Rightarrow> bool \<times> 'd world" where
  "daemon_Start env w = (case gp_Init (ne_gpu env) w of (r, w1) \<Rightarrow> (r = None, w1))"

definition daemon_finish :: "('e, 'd, 'c) node_env \<Rightarrow> bool \<Rightarrow> 'd world \<Rightarrow> 'd world" where
  "daemon_finish env shutdown_deferred w =
     (if shutdown_deferred then snd (gp_Shutdown (ne_gpu env) w) else w)"

definition daemon_Stop ::
  "('e, 'd, 'c) node_env \<Rightarrow> ('e, 'c) NodeDaemon \<Rightarrow> 'd world \<Rightarrow> (('e, 'c) NodeDaemon \<times> 'd world) outcome" where
  "daemon_Stop env d w =
     (if nd_stopCh_closed d then Panics
      else
        let d1 = d\<lparr>nd_stopCh_closed := True\<rparr> in
        (case nd_mtlsClient d1 of
           None \<Rightarrow> Returns (d1, w)
         | Some c \<Rightarrow>
             outcome_bind (Close_client (ne_net env) c w)
               (\<lambda>(c', w'). Returns (d1\<lparr>nd_mtlsClient := Some c'\<rparr>, w'))))"

section \<open>The daemon answers every command\<close>

lemma error_ack_answers: "answers_command cmd (error_ack cmd msg)"
  by (simp add: answers_command_def error_ack_def)

lemma started_ack_answers: "answers_command cmd (started_ack cmd host info)"
  by (simp add: answers_command_def started_ack_def)

lemma start_result_ack_answers: "answers_command cmd (fst (start_result_ack env cmd host res w))"
  by (simp add: start_result_ack_def error_ack_answers started_ack_answers split: sum.splits prod.splits)

text \<open>The course of a start command that reaches the executor.\<close>

lemma handleStartRental_runs:
  assumes "handleStartRental env cmd d w = Returns (ack, d', w')" and "nd_rentalExecutor d = Some ex"
    and "payload_string (cmd_Payload cmd) ''session_id'' \<noteq> ''''"
  obtains d1 w1 res ex' w2 where
    "pause_mining env (payload_string (cmd_Payload cmd) ''gpu_device_id'') d w = (d1, w1)"
    and "ei_StartRental (ne_executor env) (ctx_WithTimeout ctx_Background (10 * minute) w1)
           (command_request (ne_float_impl env) cmd (nd_hostAddr d)) ex w1 = Some (res, ex', w2)"
    and "start_result_ack env cmd (nd_hostAddr d) res w2 = (ack, w')"
    and "d' = d1\<lparr>nd_rentalExecutor := Some ex'\<rparr>"
proof -
  obtain d1 w1 where pause: "pause_mining env (payload_string (cmd_Payload cmd) ''gpu_device_id'') d w = (d1, w1)"
    by fastforce
  from assms obtain r where
    call: "ei_StartRental (ne_executor env) (ctx_WithTimeout ctx_Background (10 * minute) w1)
       (command_request (ne_float_impl env) cmd (nd_hostAddr d)) ex w1 = Some r"
    and ret: "(\<lambda>(res, ex', w2). let (ack, w3) = start_result_ack env cmd (nd_hostAddr d) res w2
          in Returns (ack, d1\<lparr>nd_rentalExecutor := Some ex'\<rparr>, w3)) r = Returns (ack, d', w')"
    by (auto simp only: handleStartRental_def pause option.case if_False Let_def prod.case outcome_bind_Returns
        outcome_of_option_Returns)
  obtain res ex' w2 where r: "r = (res, ex', w2)" by (cases r)
  from ret r have "start_result_ack env cmd (nd_hostAddr d) res w2 = (ack, w')"
      "d' = d1\<lparr>nd_rentalExecutor := Some ex'\<rparr>"
    by (auto split: prod.splits)
  with pause call r that show thesis by simp
qed

lemma handleStartRental_answers:
  assumes "handleStartRental env cmd d w = Returns (ack, d', w')"
  shows "answers_command cmd ack"
proof (cases "nd_rentalExecutor d = None \<or> payload_string (cmd_Payload cmd) ''session_id'' = ''''")
  case True
  with assms show ?thesis
    by (auto simp: handleStartRental_def error_ack_answers split: option.splits)
next
  case False
  then obtain ex where "nd_rentalExecutor d = Some ex"
      "payload_string (cmd_Payload cmd) ''session_id'' \<noteq> ''''" by auto
  from handleStartRental_runs [OF assms this] show ?thesis
    using start_result_ack_answers by (metis fst_conv)
qed

text \<open>The course of a stop command that reaches the executor.\<close>

lemma handleStopRental_runs:
  assumes "handleStopRental env cmd d w = Returns (ack, d', w')" and "nd_rentalExecutor d = Some ex"
    and "payload_string (cmd_Payload cmd) ''session_id'' = sid" and "sid \<noteq> ''''"
  obtains res ex' w1 where
    "ei_StopRental (ne_executor env) (ctx_WithTimeout ctx_Background (30 * second) w) sid ex w = (res, ex', w1)"
    and "nd_rentalExecutor d' = Some ex'" and "ack_Status ack = ''ok''"
    and "res \<noteq> None \<longrightarrow> d' = d\<lparr>nd_rentalExecutor := Some ex'\<rparr> \<and> w' = w1"
    and "res = None \<longrightarrow> resume_mining env (d\<lparr>nd_rentalExecutor := Some ex'\<rparr>) w1 = Returns (d', w') \<and>
           ack_Payload ack = [(''session_id'', IString sid)]"
proof -
  obtain res ex' w1 where call:
      "ei_StopRental (ne_executor env) (ctx_WithTimeout ctx_Background (30 * second) w) sid ex w = (res, ex', w1)"
    by (metis prod_cases3)
  show thesis
  proof (cases res)
    case (Some err)
    with assms call that [OF call] show thesis by (auto simp: handleStopRental_def Let_def)
  next
    case None
    with assms call have resume: "resume_mining env (d\<lparr>nd_rentalExecutor := Some ex'\<rparr>) w1 = Returns (d', w')"
        "ack_Status ack = ''ok''" "ack_Payload ack = [(''session_id'', IString sid)]"
      by (auto simp: handleStopRental_def Let_def outcome_bind_Returns)
    then have "nd_rentalExecutor d' = Some ex'"
      by (auto simp: resume_mining_def outcome_bind_Returns split: option.splits)
    with None resume that [OF call] show thesis by simp
  qed
qed

lemma handleStopRental_answers:
  "handleStopRental env cmd d w = Returns (ack, d', w') \<Longrightarrow> answers_command cmd ack"
  by (auto simp: handleStopRental_def outcome_bind_Returns Let_def error_ack_answers
      split: option.splits if_splits prod.splits) (auto simp: answers_command_def)

interpretation node: command_handler "handleCommand env"
  by unfold_locales
     (auto simp: handleCommand_def error_ack_answers dest: handleStartRental_answers handleStopRental_answers
       split: if_splits)

end
