(* ===== verification/Command_Wire.thy ===== *)
theory Command_Wire
  imports Node_Daemon
begin

text \<open>
  Commands and acknowledgments as the bytes on the connection (\<open>adapters/mtls/client.go\<close> and
  \<open>services/node_daemon.go\<close> together): a command that was marshalled is the command the handler
  gets, the acknowledgment can be read back, and what happens to reads that are not one command.
\<close>

section \<open>Payloads\<close>

text \<open>
  Values without nesting, whose floats are integers below \<open>2 ^ 53\<close>: what the commands and the
  acknowledgments of the node carry.
\<close>

fun flat :: "iface \<Rightarrow> bool" where
  "flat (IFloat v) \<longleftrightarrow> (\<exists>i. v = of_int i \<and> \<bar>i\<bar> < 2 ^ 53)"
| "flat (IList vs) \<longleftrightarrow> False"
| "flat (IMap ms) \<longleftrightarrow> False"
| "flat _ \<longleftrightarrow> True"

fun valid_iface :: "iface \<Rightarrow> bool" where
  "valid_iface (IString s) \<longleftrightarrow> ValidString s"
| "valid_iface x \<longleftrightarrow> flat x"

lemma flat_json: "flat x \<Longrightarrow> num_json (json_of_iface x) \<and> json_depth (json_of_iface x) = 0"
  by (cases x) (auto simp: float_text_of_int)

lemma valid_iface_flat: "valid_iface x \<Longrightarrow> flat x"
  by (cases x) auto

lemma valid_iface_json:
  "valid_iface x \<Longrightarrow> wf_json (json_of_iface x) \<and> iface_of_json (json_of_iface x) = Some x"
  by (cases x) (auto simp: float_text_of_int ParseFloat_Itoa)

lemma store_entries_flat:
  "\<forall>(k, x) \<in> set kvs. valid_iface x \<Longrightarrow>
   store_entries (map (\<lambda>(k, x). (k, json_of_iface x)) kvs) p = Some (p ++ map_of (rev kvs))"
proof (induction kvs arbitrary: p)
  case (Cons kv kvs)
  obtain k x where kv: "kv = (k, x)" by (cases kv)
  with Cons.prems have "iface_of_json (json_of_iface x) = Some x" by (auto dest: valid_iface_json)
  moreover have "p(k \<mapsto> x) ++ map_of (rev kvs) = p ++ map_of (rev kvs @ [(k, x)])"
    by simp
  ultimately show ?case using Cons by (simp add: kv)
qed simp

abbreviation entry_json :: "string \<times> iface \<Rightarrow> string \<times> json" where
  "entry_json \<equiv> \<lambda>(k, v). (k, json_of_iface v)"

lemma insort_entry: "insort_key fst (entry_json kv) (map entry_json kvs) = map entry_json (insort_key fst kv kvs)"
  by (induction kvs) (auto simp: split_beta)

lemma sort_entries: "sort_key fst (map entry_json kvs) = map entry_json (sort_key fst kvs)"
  by (induction kvs) (simp_all add: insort_entry)

section \<open>A command on the wire\<close>

text \<open>The command as \<open>json.Marshal\<close> writes it from the tags of \<open>Command\<close>.\<close>

definition command_json :: "string \<Rightarrow> string \<Rightarrow> (string \<times> iface) list \<Rightarrow> json" where
  "command_json i t kvs = JObj [(''id'', JStr i), (''type'', JStr t), (''payload'', json_of_iface (IMap kvs))]"

definition valid_payload :: "(string \<times> iface) list \<Rightarrow> bool" where
  "valid_payload kvs \<longleftrightarrow> distinct (map fst kvs) \<and> (\<forall>(k, x) \<in> set kvs. ValidString k \<and> valid_iface x)"

lemma command_json_wf:
  assumes "ValidString i" "ValidString t" "valid_payload kvs"
  shows "wf_json (command_json i t kvs)" "json_depth (command_json i t kvs) \<le> maxNestingDepth"
proof -
  have "ValidString k \<and> wf_json (json_of_iface x) \<and> json_depth (json_of_iface x) = 0" if "(k, x) \<in> set kvs" for k x
    using that assms(3) valid_iface_json [of x] flat_json [OF valid_iface_flat] by (auto simp: valid_payload_def)
  then have "wf_json (json_of_iface (IMap kvs))" "json_depth (json_of_iface (IMap kvs)) \<le> 1"
    by (auto simp: sort_entries list_all_iff)
  with assms show "wf_json (command_json i t kvs)" "json_depth (command_json i t kvs) \<le> maxNestingDepth"
    by (simp_all add: command_json_def maxNestingDepth_def)
qed

abbreviation sent_command :: "string \<Rightarrow> string \<Rightarrow> (string \<times> iface) list \<Rightarrow> Command" where
  "sent_command i t kvs \<equiv> \<lparr>cmd_ID = i, cmd_Type = t, cmd_Payload = map_of kvs\<rparr>"

lemma Unmarshal_Command_json:
  assumes "ValidString i" and "ValidString t" and "valid_payload kvs"
  shows "Unmarshal_Command (Marshal (command_json i t kvs)) = Some (sent_command i t kvs)"
proof -
  let ?sorted = "sort_key fst kvs"
  have "distinct (map fst ?sorted)" using assms(3) by (simp add: valid_payload_def distinct_map)
  then have "map_of (rev ?sorted) = map_of kvs"
    using assms(3) by (simp add: map_of_inject_set valid_payload_def rev_map [symmetric] distinct_map)
  moreover have "\<forall>(k, x) \<in> set ?sorted. valid_iface x" using assms(3) by (auto simp: valid_payload_def)
  ultimately have "store_entries (map entry_json ?sorted) Map.empty = Some (map_of kvs)"
    using store_entries_flat [of ?sorted Map.empty] by simp
  moreover have "Unmarshal (Marshal (command_json i t kvs)) = Some (command_json i t kvs)"
    by (rule Unmarshal_Marshal_wf [OF command_json_wf [OF assms]])
  moreover have keys: "\<not> key_is ''id'' ''type''" "\<not> key_is ''id'' ''payload''" "\<not> key_is ''type'' ''payload''"
    by code_simp+
  ultimately show ?thesis
    by (simp add: Unmarshal_Command_def decode_struct_def command_json_def store_command_field_def sort_entries
        zero_Command_def del: Marshal.simps)
qed

text \<open>
  C12. A command that is sent as JSON is the command that is carried out: for an ID and a type that
  are UTF-8 and a payload of strings, booleans, nulls and integers below \<open>2 ^ 53\<close> under distinct
  keys, a read that returns the text \<open>json.Marshal\<close> makes of it has the handler called with that ID,
  that type and exactly that payload, and the acknowledgment the handler returns is written before
  the next read.
\<close>

theorem sent_command_is_carried_out:
  assumes "ValidString i" and "ValidString t" and "valid_payload kvs"
    and "ext_run (tn_Read net conn 4096) w = (Inr (Marshal (command_json i t kvs)), w1)"
    and "h (sent_command i t kvs) s w1 = Returns (ack, s1, w2)"
    and "ext_run (tn_Write net conn (Marshal_CommandAck ack)) w2 = (r, w3)"
  shows "read_loop net (Some h) conn (False # stops) s w =
    outcome_bind (read_loop net (Some h) conn stops s1 w3)
      (\<lambda>(ended, tr, s', w'). Returns (ended, (sent_command i t kvs, ack) # tr, s', w'))"
  using assms(4-) by (simp add: Unmarshal_Command_json [OF assms(1-3)] call_OnCommand_def)

section \<open>The acknowledgment on the wire\<close>

lemma decode_members_invariant:
  assumes "\<And>k v r r'. (k, v) \<in> set ms \<Longrightarrow> store k v r = Some r' \<Longrightarrow> I r \<Longrightarrow> I r'"
  shows "decode_members store ms r = Some r' \<Longrightarrow> I r \<Longrightarrow> I r'"
  using assms
proof (induction ms arbitrary: r)
  case (Cons m ms)
  obtain k v where m: "m = (k, v)" by (cases m)
  with Cons.prems(1) obtain r1 where "store k v r = Some r1" "decode_members store ms r1 = Some r'"
    by (auto split: option.splits)
  with m Cons show ?case by (metis list.set_intros)
qed simp

lemma Unmarshal_Command_ID:
  assumes "Unmarshal_Command data = Some cmd"
  shows "ValidString (cmd_ID cmd)"
proof -
  obtain j where j: "Unmarshal data = Some j" using assms
    by (cases "Unmarshal data") (auto simp: Unmarshal_Command_def decode_struct_def)
  show ?thesis
  proof (cases j)
    case (JObj ms)
    with Unmarshal_wf [OF j] have wf: "\<forall>(k, v) \<in> set ms. wf_json v" by (auto simp: list_all_iff)
    from assms j JObj have run: "decode_members store_command_field ms zero_Command = Some cmd"
      by (simp add: Unmarshal_Command_def decode_struct_def)
    have string: "decode_string v cur = Some s \<Longrightarrow> wf_json v \<Longrightarrow> ValidString cur \<Longrightarrow> ValidString s" for v cur s
      by (cases v) auto
    show ?thesis
      by (rule decode_members_invariant [where I = "\<lambda>c. ValidString (cmd_ID c)", OF _ run])
        (use wf in \<open>auto simp: store_command_field_def zero_Command_def split: if_split_asm dest: string\<close>)
  qed (use assms j in \<open>auto simp: Unmarshal_Command_def decode_struct_def zero_Command_def\<close>)
qed

definition flat_ack :: "CommandAck \<Rightarrow> bool" where
  "flat_ack ack \<longleftrightarrow> list_all (\<lambda>(k, x). flat x) (ack_Payload ack)"

lemma flat_ack_read_back:
  assumes "flat_ack ack"
  shows "Unmarshal (Marshal_CommandAck ack) = Some (coerce_json (ack_json ack))"
proof -
  have "num_json (json_of_iface x) \<and> json_depth (json_of_iface x) = 0" if "(k, x) \<in> set (ack_Payload ack)" for k x
    using that assms flat_json by (fastforce simp: flat_ack_def list_all_iff)
  then have "num_json (json_of_iface (IMap (ack_Payload ack)))"
      "json_depth (json_of_iface (IMap (ack_Payload ack))) \<le> 1"
    by (auto simp: sort_entries list_all_iff)
  then have "num_json (ack_json ack)" "json_depth (ack_json ack) \<le> 2"
    by (auto simp: ack_json_def)
  then show ?thesis unfolding Marshal_CommandAck_def by (intro Unmarshal_Marshal) (simp_all add: maxNestingDepth_def)
qed

lemma error_ack_flat [simp]: "flat_ack (error_ack cmd msg)"
  by (simp add: flat_ack_def error_ack_def)

lemma started_ack_flat: "\<bar>cx_Port info\<bar> < 2 ^ 53 \<Longrightarrow> flat_ack (started_ack cmd host info)"
  by (auto simp: flat_ack_def started_ack_def)

lemma handleStopRental_flat:
  "handleStopRental env cmd d w = Returns (ack, d', w') \<Longrightarrow> flat_ack ack"
  by (auto simp: handleStopRental_def Let_def outcome_bind_Returns
      split: option.splits if_splits prod.splits) (simp_all add: flat_ack_def)

text \<open>
  What the Hub reads from the bytes of an acknowledgment: one object with the ID, the status and, up
  to bytes that are not UTF-8, the error.
\<close>

definition reads_back :: "Command \<Rightarrow> CommandAck \<Rightarrow> bool" where
  "reads_back cmd ack \<longleftrightarrow>
     (\<exists>ms. Unmarshal (Marshal_CommandAck ack) = Some (JObj ms) \<and>
        map_of ms ''command_id'' = Some (JStr (cmd_ID cmd)) \<and>
        map_of ms ''status'' = Some (JStr (ack_Status ack)) \<and>
        map_of ms ''error'' = (if ack_Error ack = '''' then None else Some (JStr (coerce_utf8 (ack_Error ack)))))"

lemma flat_ack_reads_back:
  assumes "flat_ack ack" and "Unmarshal_Command data = Some cmd" and "answers_command cmd ack"
  shows "reads_back cmd ack"
proof -
  have ids: "ack_CommandID ack = cmd_ID cmd" "ack_Status ack = ''ok'' \<or> ack_Status ack = ''error''"
    using assms(3) by (simp_all add: answers_command_def)
  have "coerce_utf8 (cmd_ID cmd) = cmd_ID cmd" using Unmarshal_Command_ID [OF assms(2)] by simp
  moreover from ids(2) have "coerce_utf8 (ack_Status ack) = ack_Status ack" by (elim disjE) simp_all
  ultimately show ?thesis
    unfolding reads_back_def flat_ack_read_back [OF assms(1)] ack_json_def
    by (simp add: ids(1) del: json_of_iface.simps)
qed

section \<open>Reads that are not one command\<close>

text \<open>
  C16. One read has to hold one command.  When the bytes of a read are a JSON object followed by more
  than white space, as when the Hub sends two commands in one record, or the beginning of an object
  that is cut off, as when a command is longer than the buffer of 4096 bytes, the loop goes on
  as if nothing had been read: nothing is executed and nothing is acknowledged.
\<close>

theorem read_must_hold_one_command:
  assumes "Unmarshal text = Some (JObj ms)"
    and "ext_run (tn_Read net conn 4096) w = (Inr data, w1)"
    and "(\<exists>more. data = text @ more \<and> skip_ws more \<noteq> []) \<or> (\<exists>rest. text = data @ rest \<and> skip_ws rest \<noteq> [])"
  shows "read_loop net (Some h) conn (False # stops) s w = read_loop net (Some h) conn stops s w1"
proof -
  from assms(1,3) have "Unmarshal data = None"
    by (auto intro: Unmarshal_two Unmarshal_cut)
  with assms(2) show ?thesis by (simp add: Unmarshal_Command_def decode_struct_def)
qed

section \<open>Witnesses\<close>

text \<open>A connection on which every read gives the same bytes.\<close>

definition text_net :: "string \<Rightarrow> ('d, unit) tls_net" where
  "text_net text =
     \<lparr>tn_Dial = (\<lambda>a cfg w. (Inr (), 0, w_ext w)), tn_Handshake = (\<lambda>c w. (None, 0, w_ext w)),
      tn_Close = (\<lambda>c w. ((), 0, w_ext w)), tn_Read = (\<lambda>c n w. (Inr text, 0, w_ext w)),
      tn_Write = (\<lambda>c s w. (None, 0, w_ext w))\<rparr>"

lemma text_net_simps:
  "ext_run (tn_Read (text_net text) conn n) quiet_world = (Inr text, quiet_world)"
  "ext_run (tn_Write (text_net text) conn s) quiet_world = (None, quiet_world)"
  by (simp_all add: text_net_def ext_run_def quiet_world_def)

definition demo_start_payload :: "(string \<times> iface) list" where
  "demo_start_payload =
     [(''session_id'', IString ''s1''), (''gpu_device_id'', IString ''GPU-1''), (''memory_mb'', IFloat (of_int 2048))]"

lemma demo_start_payload_valid: "valid_payload demo_start_payload"
  unfolding valid_payload_def demo_start_payload_def
  by (auto intro: exI [of _ 2048])

lemma demo_stop_payload_valid: "valid_payload [(''session_id'', IString ''s1'')]"
  by (simp add: valid_payload_def)

definition counting :: "(nat, unit) on_command" where
  "counting cmd s w = Returns (error_ack cmd ''busy'', s + 1, w)"

definition demo_stop :: Command where
  "demo_stop = sent_command ''c2'' ''stop_rental'' [(''session_id'', IString ''s1'')]"

definition demo_stop_text :: string where
  "demo_stop_text = Marshal (command_json ''c2'' ''stop_rental'' [(''session_id'', IString ''s1'')])"

lemma demo_stop_read: "Unmarshal_Command demo_stop_text = Some demo_stop"
  unfolding demo_stop_text_def demo_stop_def
  by (rule Unmarshal_Command_json [OF _ _ demo_stop_payload_valid]) simp_all

theorem sent_command_is_carried_out_witness:
  "read_loop (text_net (Marshal (command_json ''c1'' ''start_rental'' demo_start_payload))) (Some counting) () [False] 0
     quiet_world =
   Returns (False, [(sent_command ''c1'' ''start_rental'' demo_start_payload,
      error_ack (sent_command ''c1'' ''start_rental'' demo_start_payload) ''busy'')], 1, quiet_world)"
proof -
  have ascii: "ValidString ''c1''" "ValidString ''start_rental''" by simp_all
  show ?thesis
    using sent_command_is_carried_out [OF ascii demo_start_payload_valid text_net_simps(1), where h = counting,
        OF counting_def text_net_simps(2), where stops = "[]"]
    by simp
qed

theorem read_must_hold_one_command_witness:
  "read_loop (text_net (demo_stop_text @ demo_stop_text)) (Some counting) () [False] 0 quiet_world =
     Returns (False, [], 0, quiet_world) \<and>
   read_loop (text_net demo_stop_text) (Some counting) () [False] 0 quiet_world =
     Returns (False, [(demo_stop, error_ack demo_stop ''busy'')], 1, quiet_world)"
proof
  let ?j = "command_json ''c2'' ''stop_rental'' [(''session_id'', IString ''s1'')]"
  have "Unmarshal demo_stop_text = Some ?j"
    unfolding demo_stop_text_def by (intro Unmarshal_Marshal_wf command_json_wf demo_stop_payload_valid) simp_all
  then obtain ms where ms: "Unmarshal demo_stop_text = Some (JObj ms)" by (simp add: command_json_def)
  have "skip_ws demo_stop_text \<noteq> []" by (simp add: demo_stop_text_def command_json_def)
  then show "read_loop (text_net (demo_stop_text @ demo_stop_text)) (Some counting) () [False] 0 quiet_world =
      Returns (False, [], 0, quiet_world)"
    by (subst read_must_hold_one_command [OF ms text_net_simps(1)]) auto
  show "read_loop (text_net demo_stop_text) (Some counting) () [False] 0 quiet_world =
      Returns (False, [(demo_stop, error_ack demo_stop ''busy'')], 1, quiet_world)"
    by (simp add: text_net_simps demo_stop_read call_OnCommand_def counting_def)
qed

end
