(* ===== verification/Port_Manager.thy ===== *)
theory Port_Manager
  imports Interfaces
begin

text \<open>
  The port manager of \<open>internal/port/manager.go\<close>: one record for the struct, one definition per
  method.  Every method runs under the manager's mutex from its first to its last statement, so a
  call is one atomic state change; the clock reading \<open>time.Now()\<close> of the call is the argument
  \<open>now\<close>.
\<close>

record Allocation =
  al_SessionID :: string
  al_AllocatedAt :: time
  al_ReleasedAt :: "time option"

record PortManager =
  pm_minPort :: int
  pm_maxPort :: int
  pm_gracePeriod :: duration
  pm_allocations :: "int \<rightharpoonup> Allocation"

definition NewPortManager :: "int \<Rightarrow> int \<Rightarrow> duration \<Rightarrow> PortManager" where
  "NewPortManager minPort maxPort gracePeriod =
     \<lparr>pm_minPort = minPort, pm_maxPort = maxPort, pm_gracePeriod = gracePeriod,
      pm_allocations = Map.empty\<rparr>"

text \<open>The test both \<open>Allocate\<close> and \<open>AvailableCount\<close> make on a released port.\<close>

definition grace_expired :: "PortManager \<Rightarrow> time \<Rightarrow> Allocation \<Rightarrow> bool" where
  "grace_expired pm now alloc =
     (case al_ReleasedAt alloc of None \<Rightarrow> False
      | Some r \<Rightarrow> pm_gracePeriod pm \<le> time_Sub now r)"

definition new_allocation :: "string \<Rightarrow> time \<Rightarrow> Allocation" where
  "new_allocation sessionID now =
     \<lparr>al_SessionID = sessionID, al_AllocatedAt = now, al_ReleasedAt = None\<rparr>"

text \<open>The scan loop of \<open>Allocate\<close>, started at the loop counter \<open>port\<close>.\<close>

function allocate_scan :: "PortManager \<Rightarrow> time \<Rightarrow> string \<Rightarrow> int \<Rightarrow> (error + int) \<times> PortManager" where
  "allocate_scan pm now sessionID port =
     (if port \<le> pm_maxPort pm then
        (case pm_allocations pm port of
           None \<Rightarrow>
             (Inr port, pm\<lparr>pm_allocations := (pm_allocations pm)(port \<mapsto> new_allocation sessionID now)\<rparr>)
         | Some alloc \<Rightarrow>
             if grace_expired pm now alloc then
               (Inr port, pm\<lparr>pm_allocations := (pm_allocations pm)(port \<mapsto> new_allocation sessionID now)\<rparr>)
             else allocate_scan pm now sessionID (port + 1))
      else (Inl ErrNoAvailablePorts, pm))"
  by pat_completeness auto
termination
  by (relation "measure (\<lambda>(pm, now, s, port). nat (pm_maxPort pm + 1 - port))") auto

declare allocate_scan.simps [simp del]

text \<open>
  The same loop with the counter at its Go width: a 64-bit \<open>int\<close> whose increment wraps.  It may
  run for ever or leave the range when \<open>maxPort\<close> is the largest 64-bit integer, so not returning
  is the value \<open>None\<close>.
\<close>

partial_function (option) allocate_scan64 ::
  "PortManager \<Rightarrow> time \<Rightarrow> string \<Rightarrow> 64 word \<Rightarrow> ((error + int) \<times> PortManager) option" where
  "allocate_scan64 pm now sessionID port =
     (if sint port \<le> pm_maxPort pm then
        (case pm_allocations pm (sint port) of
           None \<Rightarrow>
             Some (Inr (sint port),
                   pm\<lparr>pm_allocations := (pm_allocations pm)(sint port \<mapsto> new_allocation sessionID now)\<rparr>)
         | Some alloc \<Rightarrow>
             if grace_expired pm now alloc then
               Some (Inr (sint port),
                     pm\<lparr>pm_allocations := (pm_allocations pm)(sint port \<mapsto> new_allocation sessionID now)\<rparr>)
             else allocate_scan64 pm now sessionID (port + 1))
      else Some (Inl ErrNoAvailablePorts, pm))"

definition Allocate :: "time \<Rightarrow> string \<Rightarrow> PortManager \<Rightarrow> (error + int) \<times> PortManager" where
  "Allocate now sessionID pm = allocate_scan pm now sessionID (pm_minPort pm)"

definition Release :: "time \<Rightarrow> int \<Rightarrow> PortManager \<Rightarrow> error option \<times> PortManager" where
  "Release now port pm =
     (case pm_allocations pm port of
        None \<Rightarrow> (Some ErrPortNotAllocated, pm)
      | Some alloc \<Rightarrow>
          if al_ReleasedAt alloc \<noteq> None then (Some ErrPortNotAllocated, pm)
          else (None, pm\<lparr>pm_allocations :=
                           (pm_allocations pm)(port \<mapsto> alloc\<lparr>al_ReleasedAt := Some now\<rparr>)\<rparr>))"

definition IsAvailable :: "time \<Rightarrow> int \<Rightarrow> PortManager \<Rightarrow> bool" where
  "IsAvailable now port pm =
     (case pm_allocations pm port of None \<Rightarrow> True | Some alloc \<Rightarrow> grace_expired pm now alloc)"

text \<open>\<open>GetAllocation\<close> hands out a copy, so its result is a value, not a reference.\<close>

definition GetAllocation :: "int \<Rightarrow> PortManager \<Rightarrow> Allocation option" where
  "GetAllocation port pm = pm_allocations pm port"

text \<open>
  The counter of \<open>AvailableCount\<close> is a Go \<open>int\<close> of 64 bits, here without a bound: the two differ only
  for a range that ends at the largest integer, where the loop would not end.  (For \<open>Allocate\<close>, whose
  loop is the same, \<open>allocate_scan64\<close> below has the bounded counter.)
\<close>

function available_scan :: "PortManager \<Rightarrow> time \<Rightarrow> int \<Rightarrow> int \<Rightarrow> int" where
  "available_scan pm now port count =
     (if port \<le> pm_maxPort pm then
        (case pm_allocations pm port of
           None \<Rightarrow> available_scan pm now (port + 1) (count + 1)
         | Some alloc \<Rightarrow>
             available_scan pm now (port + 1)
               (if grace_expired pm now alloc then count + 1 else count))
      else count)"
  by pat_completeness auto
termination
  by (relation "measure (\<lambda>(pm, now, port, count). nat (pm_maxPort pm + 1 - port))") auto

declare available_scan.simps [simp del]

definition AvailableCount :: "time \<Rightarrow> PortManager \<Rightarrow> int" where
  "AvailableCount now pm = available_scan pm now (pm_minPort pm) 0"


section \<open>What a manager holds\<close>

text \<open>
  The view a client of the manager has: the ports in use with the session that holds each, and
  the ports that are cooling down after a release.
\<close>

definition held :: "PortManager \<Rightarrow> int \<rightharpoonup> string" where
  "held pm port =
     (case pm_allocations pm port of None \<Rightarrow> None
      | Some alloc \<Rightarrow> if al_ReleasedAt alloc = None then Some (al_SessionID alloc) else None)"

definition assign :: "time \<Rightarrow> string \<Rightarrow> int \<Rightarrow> PortManager \<Rightarrow> PortManager" where
  "assign now sessionID port pm =
     pm\<lparr>pm_allocations := (pm_allocations pm)(port \<mapsto> new_allocation sessionID now)\<rparr>"

definition pm_wf :: "PortManager \<Rightarrow> bool" where
  "pm_wf pm \<longleftrightarrow> valid_grace (pm_gracePeriod pm) \<and>
     dom (pm_allocations pm) \<subseteq> {pm_minPort pm .. pm_maxPort pm}"

lemma assign_simps [simp]:
  "pm_minPort (assign now s p pm) = pm_minPort pm"
  "pm_maxPort (assign now s p pm) = pm_maxPort pm"
  "pm_gracePeriod (assign now s p pm) = pm_gracePeriod pm"
  "pm_allocations (assign now s p pm) = (pm_allocations pm)(p \<mapsto> new_allocation s now)"
  by (simp_all add: assign_def)

lemma new_allocation_simps [simp]:
  "al_SessionID (new_allocation s now) = s"
  "al_AllocatedAt (new_allocation s now) = now"
  "al_ReleasedAt (new_allocation s now) = None"
  by (simp_all add: new_allocation_def)

lemma held_assign [simp]: "held (assign now s p pm) = (held pm)(p \<mapsto> s)"
  by (auto simp: held_def fun_eq_iff)

lemma held_not_available: "held pm p = Some s \<Longrightarrow> \<not> IsAvailable now p pm"
  by (auto simp: held_def IsAvailable_def grace_expired_def split: option.splits if_splits)

section \<open>The scan loops\<close>

lemma allocate_scan_step:
  "allocate_scan pm now s p =
     (if p \<le> pm_maxPort pm then
        if IsAvailable now p pm then (Inr p, assign now s p pm)
        else allocate_scan pm now s (p + 1)
      else (Inl ErrNoAvailablePorts, pm))"
  by (subst allocate_scan.simps) (auto simp: IsAvailable_def assign_def split: option.splits)

text \<open>The lowest available port from \<open>p\<close> on, and that there is none.\<close>

definition first_available :: "PortManager \<Rightarrow> time \<Rightarrow> int \<Rightarrow> int \<Rightarrow> bool" where
  "first_available pm now p q \<longleftrightarrow> p \<le> q \<and> q \<le> pm_maxPort pm \<and> IsAvailable now q pm \<and>
     (\<forall>r. p \<le> r \<and> r < q \<longrightarrow> \<not> IsAvailable now r pm)"

definition none_available :: "PortManager \<Rightarrow> time \<Rightarrow> int \<Rightarrow> bool" where
  "none_available pm now p \<longleftrightarrow> (\<forall>r. p \<le> r \<and> r \<le> pm_maxPort pm \<longrightarrow> \<not> IsAvailable now r pm)"

lemma le_iff_eq_or_succ_le: "(p :: int) \<le> r \<longleftrightarrow> r = p \<or> p + 1 \<le> r"
  by auto

lemma first_available_skip:
  assumes "\<not> IsAvailable now p pm"
  shows "first_available pm now p q \<longleftrightarrow> first_available pm now (p + 1) q"
proof -
  have "p \<le> q \<and> IsAvailable now q pm \<longleftrightarrow> p + 1 \<le> q \<and> IsAvailable now q pm"
    using assms le_iff_eq_or_succ_le [of p q] by auto
  moreover have "(\<forall>r. p \<le> r \<and> r < q \<longrightarrow> \<not> IsAvailable now r pm) \<longleftrightarrow>
      (\<forall>r. p + 1 \<le> r \<and> r < q \<longrightarrow> \<not> IsAvailable now r pm)"
    using assms le_iff_eq_or_succ_le [of p] by metis
  ultimately show ?thesis unfolding first_available_def by blast
qed

lemma none_available_skip:
  assumes "\<not> IsAvailable now p pm"
  shows "none_available pm now p \<longleftrightarrow> none_available pm now (p + 1)"
  unfolding none_available_def using assms le_iff_eq_or_succ_le [of p] by metis

lemma first_available_unique:
  "first_available pm now p q \<Longrightarrow> first_available pm now p q' \<Longrightarrow> q = q'"
  unfolding first_available_def by (meson linorder_neqE)

lemma not_first_and_none: "first_available pm now p q \<Longrightarrow> \<not> none_available pm now p"
  unfolding first_available_def none_available_def by blast

lemma allocate_scan_correct:
  "(\<exists>q. first_available pm now p q \<and> allocate_scan pm now s p = (Inr q, assign now s q pm)) \<or>
   (none_available pm now p \<and> allocate_scan pm now s p = (Inl ErrNoAvailablePorts, pm))"
proof (induction pm now s p rule: allocate_scan.induct)
  case (1 pm now s p)
  show ?case
  proof (cases "p \<le> pm_maxPort pm \<and> \<not> IsAvailable now p pm")
    case True
    then obtain alloc where alloc: "pm_allocations pm p = Some alloc" "\<not> grace_expired pm now alloc"
      by (auto simp: IsAvailable_def split: option.splits)
    from True have "allocate_scan pm now s p = allocate_scan pm now s (p + 1)"
      by (subst allocate_scan_step) simp
    with "1.IH" [OF _ alloc] True show ?thesis
      by (simp add: first_available_skip none_available_skip)
  next
    case False
    then show ?thesis
      by (subst (1 2) allocate_scan_step) (auto simp: first_available_def none_available_def)
  qed
qed

lemma Allocate_Inr:
  "Allocate now s pm = (Inr p, pm') \<longleftrightarrow>
     first_available pm now (pm_minPort pm) p \<and> pm' = assign now s p pm"
  using allocate_scan_correct [of pm now "pm_minPort pm" s]
  by (auto simp: Allocate_def dest: first_available_unique not_first_and_none)

lemma Allocate_Inl:
  "Allocate now s pm = (Inl e, pm') \<longleftrightarrow>
     e = ErrNoAvailablePorts \<and> pm' = pm \<and> none_available pm now (pm_minPort pm)"
  using allocate_scan_correct [of pm now "pm_minPort pm" s]
  by (auto simp: Allocate_def dest: not_first_and_none)

lemma Allocate_cases:
  obtains (ok) p where "Allocate now s pm = (Inr p, assign now s p pm)"
    "first_available pm now (pm_minPort pm) p"
  | (full) "Allocate now s pm = (Inl ErrNoAvailablePorts, pm)" "none_available pm now (pm_minPort pm)"
  using allocate_scan_correct [of pm now "pm_minPort pm" s] by (auto simp: Allocate_def)

lemma Release_None:
  "Release now p pm = (None, pm') \<longleftrightarrow>
     (\<exists>alloc. pm_allocations pm p = Some alloc \<and> al_ReleasedAt alloc = None \<and>
        pm' = pm\<lparr>pm_allocations := (pm_allocations pm)(p \<mapsto> alloc\<lparr>al_ReleasedAt := Some now\<rparr>)\<rparr>)"
  by (auto simp: Release_def split: option.splits)

lemma Release_Some:
  "Release now p pm = (Some e, pm') \<longleftrightarrow> e = ErrPortNotAllocated \<and> pm' = pm \<and> held pm p = None"
  by (auto simp: Release_def held_def split: option.splits)

lemma Release_cases:
  obtains (ok) alloc where "pm_allocations pm p = Some alloc" "al_ReleasedAt alloc = None"
    "Release now p pm =
       (None, pm\<lparr>pm_allocations := (pm_allocations pm)(p \<mapsto> alloc\<lparr>al_ReleasedAt := Some now\<rparr>)\<rparr>)"
  | (refused) "Release now p pm = (Some ErrPortNotAllocated, pm)" "held pm p = None"
  by (cases "pm_allocations pm p"; cases "held pm p")
     (auto simp: Release_def held_def split: if_splits)

lemma held_Release:
  "Release now p pm = (r, pm') \<Longrightarrow> held pm' = (held pm)(p := None)"
  by (auto simp: Release_def held_def fun_eq_iff split: option.splits if_splits)

section \<open>Counting\<close>

lemma finite_available: "finite {q. p \<le> q \<and> q \<le> m \<and> Q q}" for p m :: int
  by (rule finite_subset [of _ "{p .. m}"]) auto

lemma available_scan_eq:
  "available_scan pm now p c =
     c + int (card {q \<in> {p .. pm_maxPort pm}. IsAvailable now q pm})"
proof (induction pm now p c rule: available_scan.induct)
  case (1 pm now p c)
  show ?case
  proof (cases "p \<le> pm_maxPort pm")
    case True
    let ?A = "\<lambda>p. {q \<in> {p .. pm_maxPort pm}. IsAvailable now q pm}"
    have split: "?A p = (if IsAvailable now p pm then insert p (?A (p + 1)) else ?A (p + 1))"
      using True by (auto simp: le_iff_eq_or_succ_le [of p])
    have "p \<notin> ?A (p + 1)" "finite (?A (p + 1))" by (auto simp: finite_available)
    then have card: "int (card (?A p)) =
        (if IsAvailable now p pm then 1 else 0) + int (card (?A (p + 1)))"
      unfolding split by simp
    show ?thesis
    proof (cases "pm_allocations pm p")
      case None
      with True card "1.IH"(1) [OF True None] show ?thesis
        by (subst available_scan.simps) (simp add: IsAvailable_def)
    next
      case (Some alloc)
      with True card "1.IH"(2) [OF True Some] show ?thesis
        by (subst available_scan.simps) (simp add: IsAvailable_def)
    qed
  next
    case False
    then show ?thesis by (subst available_scan.simps) simp
  qed
qed

lemma none_available_card:
  "none_available pm now p \<longleftrightarrow> card {q \<in> {p .. pm_maxPort pm}. IsAvailable now q pm} = 0"
  by (auto simp: none_available_def card_eq_0_iff finite_available)

section \<open>The contract of the manager\<close>

definition PortManager_iface :: "PortManager PortManagerInterface" where
  "PortManager_iface = \<lparr>pi_Allocate = Allocate, pi_Release = Release\<rparr>"

lemma PortManager_iface_simps [simp]:
  "pi_Allocate PortManager_iface = Allocate"
  "pi_Release PortManager_iface = Release"
  by (simp_all add: PortManager_iface_def)

lemma pm_wf_New [simp]: "pm_wf (NewPortManager lo hi g) \<longleftrightarrow> valid_grace g"
  by (simp add: pm_wf_def NewPortManager_def)

lemma pm_wf_Allocate: "pm_wf pm \<Longrightarrow> pm_wf (snd (Allocate now s pm))"
  by (cases rule: Allocate_cases [of now s pm]) (auto simp: pm_wf_def first_available_def)

lemma pm_wf_Release: "pm_wf pm \<Longrightarrow> pm_wf (snd (Release now p pm))"
  by (cases rule: Release_cases [of pm p now]) (auto simp: pm_wf_def)

lemma Allocate_not_held: "Allocate now s pm = (Inr p, pm') \<Longrightarrow> held pm p = None"
  using held_not_available [of pm p _ now]
  by (cases "held pm p") (auto simp: Allocate_Inr first_available_def)

interpretation pm: port_service PortManager_iface pm_wf held
proof (unfold_locales, goal_cases)
  case (1 pm t s p pm')
  then have eq: "Allocate t s pm = (Inr p, pm')" by simp
  then have "pm' = assign t s p pm" by (simp add: Allocate_Inr)
  moreover from eq have "held pm p = None" by (rule Allocate_not_held)
  moreover from eq 1(1) have "pm_wf pm'" using pm_wf_Allocate [of pm t s] by simp
  ultimately show ?case by simp
next
  case (2 t s pm e pm')
  then show ?case by (simp add: Allocate_Inl)
next
  case (3 pm p s t)
  then show ?case
    by (cases rule: Release_cases [of pm p t])
       (auto dest: held_Release pm_wf_Release [where now = t and p = p])
next
  case (4 pm p t)
  then show ?case by (cases rule: Release_cases [of pm p t]) (auto simp: held_def)
qed

text \<open>The same laws for the managers of one range, as the range never changes.\<close>

definition pm_in :: "int \<Rightarrow> int \<Rightarrow> PortManager \<Rightarrow> bool" where
  "pm_in lo hi pm \<longleftrightarrow> pm_wf pm \<and> pm_minPort pm = lo \<and> pm_maxPort pm = hi"

lemma pm_in_held: "pm_in lo hi pm \<Longrightarrow> held pm p = Some s \<Longrightarrow> lo \<le> p \<and> p \<le> hi"
  by (auto simp: pm_in_def pm_wf_def held_def split: option.splits)

lemma Allocate_range:
  "Allocate t s pm = (r, pm') \<Longrightarrow> pm_minPort pm' = pm_minPort pm \<and> pm_maxPort pm' = pm_maxPort pm"
  by (cases r) (auto simp: Allocate_Inr Allocate_Inl)

lemma Release_range:
  "Release t p pm = (r, pm') \<Longrightarrow> pm_minPort pm' = pm_minPort pm \<and> pm_maxPort pm' = pm_maxPort pm"
  by (cases rule: Release_cases [of pm p t]) auto

interpretation pmr: port_service PortManager_iface "pm_in lo hi" held
proof (unfold_locales, goal_cases)
  case (1 pm t s p pm')
  with pm.alloc_ok [of pm t s p pm'] Allocate_range [of t s pm] show ?case by (auto simp: pm_in_def)
next
  case (2 t s pm e pm')
  then show ?case by (rule pm.alloc_err)
next
  case (3 pm p s t)
  then obtain pm' where "pi_Release PortManager_iface t p pm = (None, pm')" "pm_wf pm'" "held pm' = (held pm)(p := None)"
    using pm.release_held [of pm p s t] by (auto simp: pm_in_def)
  with 3 Release_range [of t p pm None pm'] show ?case by (auto simp: pm_in_def)
next
  case (4 pm p t)
  then show ?case by (rule pm.release_free)
qed

section \<open>Cooling down\<close>

text \<open>A port released at \<open>t\<close> stays released at \<open>t\<close> until some allocation hands it out.\<close>

definition cooling :: "PortManager \<Rightarrow> int \<Rightarrow> time \<Rightarrow> bool" where
  "cooling pm p t \<longleftrightarrow> (\<exists>alloc. pm_allocations pm p = Some alloc \<and> al_ReleasedAt alloc = Some t)"

lemma cooling_unavailable:
  "valid_grace (pm_gracePeriod pm) \<Longrightarrow> cooling pm p t \<Longrightarrow> now < t + pm_gracePeriod pm \<Longrightarrow>
   \<not> IsAvailable now p pm"
  by (auto simp: cooling_def IsAvailable_def grace_expired_def)

lemma port_step_grace: "pm_gracePeriod (port_step PortManager_iface x pm) = pm_gracePeriod pm"
proof (cases x)
  case (OpAllocate t s)
  then show ?thesis by (cases rule: Allocate_cases [of t s pm]) auto
next
  case (OpRelease t p)
  then show ?thesis by (cases rule: Release_cases [of pm p t]) auto
qed

lemma cooling_step:
  assumes "valid_grace (pm_gracePeriod pm)" and "cooling pm p t"
    and "port_op_time x < t + pm_gracePeriod pm"
  shows "cooling (port_step PortManager_iface x pm) p t"
proof (cases x)
  case (OpAllocate u s)
  with assms have "\<not> IsAvailable u p pm" by (simp add: cooling_unavailable)
  with OpAllocate assms(2) show ?thesis
    by (cases rule: Allocate_cases [of u s pm]) (auto simp: first_available_def cooling_def)
next
  case (OpRelease u q)
  with assms(2) show ?thesis
    by (auto simp: cooling_def Release_def split: option.splits)
qed

lemma cooling_run:
  "valid_grace (pm_gracePeriod pm) \<Longrightarrow> cooling pm p t \<Longrightarrow>
   \<forall>x \<in> set xs. port_op_time x < t + pm_gracePeriod pm \<Longrightarrow>
   cooling (port_run PortManager_iface xs pm) p t \<and>
   pm_gracePeriod (port_run PortManager_iface xs pm) = pm_gracePeriod pm"
  by (induction xs arbitrary: pm) (auto simp: cooling_step port_step_grace)

section \<open>The abstract port table\<close>

text \<open>
  What the manager promises, without allocation records: every port is free, held by a session or
  cooling down since an instant; \<open>Allocate\<close> gives the session the lowest port that is free or
  has cooled down long enough.
\<close>

datatype slot = Free | Held string | Cooling time

definition slots :: "PortManager \<Rightarrow> int \<Rightarrow> slot" where
  "slots pm p =
     (case pm_allocations pm p of None \<Rightarrow> Free
      | Some alloc \<Rightarrow>
          (case al_ReleasedAt alloc of None \<Rightarrow> Held (al_SessionID alloc) | Some t \<Rightarrow> Cooling t))"

fun usable :: "duration \<Rightarrow> time \<Rightarrow> slot \<Rightarrow> bool" where
  "usable g now Free = True"
| "usable g now (Held s) = False"
| "usable g now (Cooling t) = (t + g \<le> now)"

definition spec_allocate ::
  "int list \<Rightarrow> duration \<Rightarrow> time \<Rightarrow> string \<Rightarrow> (int \<Rightarrow> slot) \<Rightarrow> (error + int) \<times> (int \<Rightarrow> slot)" where
  "spec_allocate ports g now s tab =
     (case find (\<lambda>p. usable g now (tab p)) ports of
        None \<Rightarrow> (Inl ErrNoAvailablePorts, tab)
      | Some p \<Rightarrow> (Inr p, tab(p := Held s)))"

definition spec_release :: "time \<Rightarrow> int \<Rightarrow> (int \<Rightarrow> slot) \<Rightarrow> error option \<times> (int \<Rightarrow> slot)" where
  "spec_release now p tab =
     (case tab p of Held s \<Rightarrow> (None, tab(p := Cooling now)) | _ \<Rightarrow> (Some ErrPortNotAllocated, tab))"

lemma usable_slots:
  "valid_grace (pm_gracePeriod pm) \<Longrightarrow>
   usable (pm_gracePeriod pm) now (slots pm p) \<longleftrightarrow> IsAvailable now p pm"
  by (auto simp: slots_def IsAvailable_def grace_expired_def split: option.splits)

lemma find_upto_first:
  "find Q [a..b] = Some p \<longleftrightarrow> a \<le> p \<and> p \<le> b \<and> Q p \<and> (\<forall>r. a \<le> r \<and> r < p \<longrightarrow> \<not> Q r)"
proof (induction a b rule: upto.induct)
  case (1 a b)
  show ?case
  proof (cases "a \<le> b")
    case True
    have "(\<forall>r. a \<le> r \<and> r < p \<longrightarrow> \<not> Q r) \<longleftrightarrow>
        (a < p \<longrightarrow> \<not> Q a) \<and> (\<forall>r. a + 1 \<le> r \<and> r < p \<longrightarrow> \<not> Q r)"
      using le_iff_eq_or_succ_le [of a] by metis
    with True 1 le_iff_eq_or_succ_le [of a p] show ?thesis
      by (subst upto.simps) auto
  qed auto
qed

lemma slots_assign: "slots (assign now s p pm) = (slots pm)(p := Held s)"
  by (auto simp: slots_def fun_eq_iff)

lemma spec_allocate_refines:
  assumes "valid_grace (pm_gracePeriod pm)" and "Allocate now s pm = (r, pm')"
  shows "spec_allocate [pm_minPort pm .. pm_maxPort pm] (pm_gracePeriod pm) now s (slots pm) =
         (r, slots pm')"
proof (cases rule: Allocate_cases [of now s pm])
  case (ok p)
  then have "find (\<lambda>p. IsAvailable now p pm) [pm_minPort pm .. pm_maxPort pm] = Some p"
    by (simp add: find_upto_first first_available_def)
  with ok assms show ?thesis by (simp add: spec_allocate_def usable_slots slots_assign)
next
  case full
  then have "find (\<lambda>p. IsAvailable now p pm) [pm_minPort pm .. pm_maxPort pm] = None"
    by (auto simp: find_None_iff none_available_def)
  with full assms show ?thesis by (simp add: spec_allocate_def usable_slots)
qed

lemma slots_released:
  "slots (pm\<lparr>pm_allocations := (pm_allocations pm)(p \<mapsto> alloc\<lparr>al_ReleasedAt := Some now\<rparr>)\<rparr>) =
   (slots pm)(p := Cooling now)"
  by (rule ext) (simp add: slots_def)

lemma spec_release_refines:
  "Release now p pm = (r, pm') \<Longrightarrow> spec_release now p (slots pm) = (r, slots pm')"
  by (cases rule: Release_cases [of pm p now])
     (auto simp: spec_release_def slots_released, auto simp: slots_def held_def split: option.splits)

section \<open>The loop counter at its width\<close>

lemma allocate_scan64_eq:
  assumes "pm_maxPort pm < 2 ^ 63 - 1" and "- (2 ^ 63) \<le> p" and "p \<le> pm_maxPort pm + 1"
  shows "allocate_scan64 pm now s (word_of_int p) = Some (allocate_scan pm now s p)"
  using assms
proof (induction pm now s p rule: allocate_scan.induct)
  case (1 pm now s p)
  have sint: "sint (word_of_int p :: 64 word) = p"
    using "1.prems" by (intro signed_take_bit_int_eq_self [THEN trans [OF sint_sbintrunc']]) auto
  show ?case
  proof (cases "p \<le> pm_maxPort pm \<and> \<not> IsAvailable now p pm")
    case True
    then obtain alloc where alloc: "pm_allocations pm p = Some alloc" "\<not> grace_expired pm now alloc"
      by (auto simp: IsAvailable_def split: option.splits)
    have "allocate_scan64 pm now s (word_of_int (p + 1)) = Some (allocate_scan pm now s (p + 1))"
      using "1.IH" [OF _ alloc] True "1.prems" by simp
    with True alloc sint show ?thesis
      by (simp add: allocate_scan64.simps [of pm now s "word_of_int p"] allocate_scan_step [of pm now s p])
  next
    case False
    with sint show ?thesis
      by (auto simp: allocate_scan64.simps [of pm now s "word_of_int p"] allocate_scan_step [of pm now s p]
          IsAvailable_def assign_def split: option.splits)
  qed
qed

section \<open>Properties of the port manager\<close>

lemmas pm_eval = NewPortManager_def Allocate_def allocate_scan.simps Release_def IsAvailable_def
  grace_expired_def time_Sub_def minDuration_def maxDuration_def valid_grace_def

text \<open>
  C17. \<open>Allocate\<close> succeeds exactly with the lowest port of the configured range that was never used
  or whose grace period is over, records the session there and touches no other port; it fails
  exactly when no port of the range is available, and then changes nothing.
\<close>

theorem Allocate_lowest_available:
  "(Allocate now s pm = (Inr p, pm') \<longleftrightarrow>
      pm_minPort pm \<le> p \<and> p \<le> pm_maxPort pm \<and> IsAvailable now p pm \<and>
      (\<forall>q. pm_minPort pm \<le> q \<and> q < p \<longrightarrow> \<not> IsAvailable now q pm) \<and>
      pm' = pm\<lparr>pm_allocations := (pm_allocations pm)(p \<mapsto>
              \<lparr>al_SessionID = s, al_AllocatedAt = now, al_ReleasedAt = None\<rparr>)\<rparr>) \<and>
   (Allocate now s pm = (Inl e, pm') \<longleftrightarrow>
      e = ErrNoAvailablePorts \<and> pm' = pm \<and>
      (\<forall>q. pm_minPort pm \<le> q \<and> q \<le> pm_maxPort pm \<longrightarrow> \<not> IsAvailable now q pm))"
  by (simp add: Allocate_Inr Allocate_Inl first_available_def none_available_def assign_def
      new_allocation_def)

theorem Allocate_lowest_available_witness:
  "Allocate 7 ''b'' (snd (Allocate 5 ''a'' (NewPortManager 30000 30001 0))) =
     (Inr 30001, assign 7 ''b'' 30001 (snd (Allocate 5 ''a'' (NewPortManager 30000 30001 0))))"
proof -
  let ?pm = "snd (Allocate 5 ''a'' (NewPortManager 30000 30001 0))"
  have "IsAvailable 7 30001 ?pm" and busy: "\<not> IsAvailable 7 30000 ?pm"
    and "pm_minPort ?pm = 30000" "pm_maxPort ?pm = 30001"
    by (simp_all add: pm_eval new_allocation_def)
  moreover have "\<forall>q. 30000 \<le> q \<and> q < 30001 \<longrightarrow> \<not> IsAvailable 7 q ?pm"
  proof (intro allI impI)
    fix q :: int
    assume "30000 \<le> q \<and> q < 30001"
    then have "q = 30000" by simp
    with busy show "\<not> IsAvailable 7 q ?pm" by simp
  qed
  ultimately show ?thesis
    using Allocate_lowest_available [of 7 "''b''" ?pm 30001]
    by (simp add: assign_def new_allocation_def)
qed

text \<open>
  C18. \<open>AvailableCount\<close> is the number of ports of the range that \<open>IsAvailable\<close> reports available
  at that instant, and it is zero exactly when \<open>Allocate\<close> would fail.
\<close>

theorem AvailableCount_counts:
  "AvailableCount now pm =
     int (card {p \<in> {pm_minPort pm .. pm_maxPort pm}. IsAvailable now p pm}) \<and>
   (AvailableCount now pm = 0 \<longleftrightarrow> fst (Allocate now s pm) = Inl ErrNoAvailablePorts)"
proof -
  have "fst (Allocate now s pm) = Inl ErrNoAvailablePorts \<longleftrightarrow> none_available pm now (pm_minPort pm)"
    by (cases rule: Allocate_cases [of now s pm]) (auto dest: not_first_and_none)
  then show ?thesis by (simp add: AvailableCount_def available_scan_eq none_available_card)
qed

text \<open>
  C5. The manager refines the abstract port table in which each port is free, held or cooling:
  \<open>Allocate\<close> and \<open>Release\<close> return what the table's operations return and leave a state whose
  table is the one those operations produce.
\<close>

theorem manager_refines_port_table:
  assumes "valid_grace (pm_gracePeriod pm)"
  shows "spec_allocate [pm_minPort pm .. pm_maxPort pm] (pm_gracePeriod pm) now s (slots pm) =
           map_prod id slots (Allocate now s pm) \<and>
         spec_release now p (slots pm) = map_prod id slots (Release now p pm)"
  using spec_allocate_refines [OF assms, of now s] spec_release_refines [of now p pm]
  by (cases "Allocate now s pm"; cases "Release now p pm") simp

theorem manager_refines_port_table_witness:
  "spec_allocate [30000 .. 30001] 60 9 ''a'' (slots (NewPortManager 30000 30001 60)) =
     map_prod id slots (Allocate 9 ''a'' (NewPortManager 30000 30001 60))"
  using manager_refines_port_table [of "NewPortManager 30000 30001 60" 9 "''a''"]
  by (simp add: NewPortManager_def valid_grace_def maxDuration_def)

text \<open>
  C14. A port handed to a session stays with that session, and is handed to nobody else, through any
  sequence of calls that does not release that port.
\<close>

theorem port_exclusive_until_released:
  assumes "pm_wf pm" and "Allocate t s pm = (Inr p, pm')" and "\<forall>x \<in> set xs. \<not> releases p x"
  shows "held (port_run PortManager_iface xs pm') p = Some s \<and>
         fst (Allocate t' s' (port_run PortManager_iface xs pm')) \<noteq> Inr p"
  using pm.exclusive_until_released [of pm t s p pm' xs t' s'] assms by simp

theorem port_exclusive_until_released_witness:
  "\<exists>pm'. Allocate 0 ''a'' (NewPortManager 30000 30002 0) = (Inr 30000, pm') \<and>
     fst (Allocate 9 ''c'' (port_run PortManager_iface [OpAllocate 5 ''b'', OpRelease 6 30001] pm')) \<noteq>
       Inr 30000"
proof -
  obtain pm' where a: "Allocate 0 ''a'' (NewPortManager 30000 30002 0) = (Inr 30000, pm')"
    by (simp add: pm_eval)
  have "pm_wf (NewPortManager 30000 30002 0)" by (simp add: valid_grace_def maxDuration_def)
  from port_exclusive_until_released [OF this a, of "[OpAllocate 5 ''b'', OpRelease 6 30001]" 9 "''c''"] a
  show ?thesis by simp
qed

text \<open>
  C15. A released port is not handed out again before its grace period is over: after a successful
  \<open>Release\<close> at time \<open>t\<close>, no call made before \<open>t\<close> plus the grace period returns the port,
  whatever calls come in between.
\<close>

theorem released_port_cools_down:
  assumes "pm_wf pm" and "Release t p pm = (None, pm')"
    and "\<forall>x \<in> set xs. port_op_time x < t + pm_gracePeriod pm" and "t' < t + pm_gracePeriod pm"
  shows "fst (Allocate t' s (port_run PortManager_iface xs pm')) \<noteq> Inr p"
proof -
  let ?pm = "port_run PortManager_iface xs pm'"
  from assms(1,2) have "valid_grace (pm_gracePeriod pm')" "cooling pm' p t"
      "pm_gracePeriod pm' = pm_gracePeriod pm"
    by (auto simp: Release_None pm_wf_def cooling_def)
  with cooling_run [of pm' p t xs] assms(3) have "cooling ?pm p t"
      "pm_gracePeriod ?pm = pm_gracePeriod pm" by auto
  with assms(1,4) have "\<not> IsAvailable t' p ?pm"
    by (intro cooling_unavailable) (auto simp: pm_wf_def)
  then show ?thesis
    by (cases rule: Allocate_cases [of t' s ?pm]) (auto simp: first_available_def)
qed

theorem released_port_cools_down_witness:
  "\<exists>pm'. Release 10 30000 (snd (Allocate 0 ''a'' (NewPortManager 30000 30002 60))) = (None, pm') \<and>
     fst (Allocate 69 ''c'' (port_run PortManager_iface [OpAllocate 20 ''b''] pm')) \<noteq> Inr 30000"
proof -
  let ?pm = "snd (Allocate 0 ''a'' (NewPortManager 30000 30002 60))"
  obtain pm' where r: "Release 10 30000 ?pm = (None, pm')"
    by (simp add: pm_eval new_allocation_def)
  have "pm_wf ?pm" "pm_gracePeriod ?pm = 60" by (simp_all add: pm_eval pm_wf_def)
  with released_port_cools_down [OF _ r, of "[OpAllocate 20 ''b'']" 69 "''c''"] r
  show ?thesis by simp
qed

text \<open>
  C19. The scan loop with its 64-bit counter returns, and returns what the unbounded loop returns,
  whenever the bounds are 64-bit integers and the upper one is not the largest of them: the counter
  never wraps around.
\<close>

theorem allocate_loop_terminates_in_64_bits:
  assumes "- (2 ^ 63) \<le> pm_minPort pm" and "pm_minPort pm \<le> pm_maxPort pm + 1"
    and "pm_maxPort pm < 2 ^ 63 - 1"
  shows "allocate_scan64 pm now s (word_of_int (pm_minPort pm)) = Some (Allocate now s pm)"
  using assms by (simp add: Allocate_def allocate_scan64_eq)

theorem allocate_loop_terminates_in_64_bits_witness:
  "allocate_scan64 (NewPortManager 30000 32000 0) 0 ''a'' 30000 =
     Some (Allocate 0 ''a'' (NewPortManager 30000 32000 0))"
  using allocate_loop_terminates_in_64_bits [of "NewPortManager 30000 32000 0" 0 "''a''"]
  by (simp add: NewPortManager_def)

end
