(* ===== verification/Rental_Concurrency.thy ===== *)
theory Rental_Concurrency
  imports Rental_Executor Port_Manager "HOL-Library.Multiset"
begin

text \<open>
  The executor of \<open>internal/rental/executor.go\<close> with its calls interleaved.  Requests reach the
  executor from the Hub connection and from the HTTP server at the same time, and every successful
  \<open>StopRental\<close> leaves a cleanup goroutine behind.  A goroutine is the point its call has reached;
  one step is what it does between two points where another goroutine can get in: a region under
  the executor's mutex, a call of the port manager (which has its own mutex), or a Docker call.
  Docker may fail any call, but it has no two containers of one name or of one ID; the executor
  names a container after its session.  Time passes freely: each step may read any clock.
\<close>

datatype goroutine =
    StartCheck StartRentalRequest
  | StartAllocate StartRentalRequest
  | StartCreate StartRentalRequest int
  | StartRun StartRentalRequest int string
  | StartHealth StartRentalRequest int string
  | StartTrack StartRentalRequest int string
  | StartFail StartRentalRequest int string
  | StartRelease StartRentalRequest int
  | StopMark string
  | StopDocker cleanup_job
  | CleanupSleep cleanup_job
  | CleanupRelease cleanup_job
  | CleanupDelete cleanup_job

text \<open>\<open>y_containers\<close>: the names of the containers that exist, with their IDs.\<close>

record 'p rental_sys =
  y_portManager :: 'p
  y_activeRentals :: "string \<rightharpoonup> RentalState"
  y_containers :: "string \<rightharpoonup> string"
  y_goroutines :: "goroutine multiset"

definition stop_job :: "string \<Rightarrow> RentalState \<Rightarrow> cleanup_job" where
  "stop_job sid st = \<lparr>cj_sessionID = sid, cj_containerID = rs_ContainerID st, cj_sshPort = rs_SSHPort st\<rparr>"

text \<open>What a forced removal leaves, successful or not; an empty ID is not passed to Docker.\<close>

definition without :: "string \<Rightarrow> (string \<rightharpoonup> string) \<Rightarrow> (string \<rightharpoonup> string)" where
  "without cid C = (\<lambda>n. if C n = Some cid then None else C n)"

definition removal :: "string \<Rightarrow> (string \<rightharpoonup> string) \<Rightarrow> (string \<rightharpoonup> string) \<Rightarrow> bool" where
  "removal cid C C' \<longleftrightarrow> C' = C \<or> cid \<noteq> '''' \<and> C' = without cid C"

text \<open>
  The steps.  With \<open>once\<close>, \<open>StopRental\<close> is not called on a rental that is already marked as
  stopped; the code itself does not look at the mark, so without \<open>once\<close> it may be.  With \<open>alone\<close>,
  nobody but the executor removes containers.  Both callers of \<open>StartRental\<close>, the daemon and the
  HTTP handler, refuse an empty session ID.
\<close>

inductive rental_step :: "'p PortManagerInterface \<Rightarrow> bool \<Rightarrow> bool \<Rightarrow> 'p rental_sys \<Rightarrow> 'p rental_sys \<Rightarrow> bool"
  for P once alone where
  removed_outside: "\<not> alone \<Longrightarrow>
    rental_step P once alone s (s\<lparr>y_containers := y_containers s |` K\<rparr>)"
| call_start: "sr_SessionID req \<noteq> '''' \<Longrightarrow>
    rental_step P once alone s (s\<lparr>y_goroutines := add_mset (StartCheck req) (y_goroutines s)\<rparr>)"
| start_duplicate: "y_goroutines s = add_mset (StartCheck req) G \<Longrightarrow>
    y_activeRentals s (sr_SessionID req) \<noteq> None \<Longrightarrow> rental_step P once alone s (s\<lparr>y_goroutines := G\<rparr>)"
| start_checked: "y_goroutines s = add_mset (StartCheck req) G \<Longrightarrow>
    y_activeRentals s (sr_SessionID req) = None \<Longrightarrow>
    rental_step P once alone s (s\<lparr>y_goroutines := add_mset (StartAllocate req) G\<rparr>)"
| start_no_port: "y_goroutines s = add_mset (StartAllocate req) G \<Longrightarrow>
    pi_Allocate P t (sr_SessionID req) (y_portManager s) = (Inl e, pm) \<Longrightarrow>
    rental_step P once alone s (s\<lparr>y_portManager := pm, y_goroutines := G\<rparr>)"
| start_port: "y_goroutines s = add_mset (StartAllocate req) G \<Longrightarrow>
    pi_Allocate P t (sr_SessionID req) (y_portManager s) = (Inr p, pm) \<Longrightarrow>
    rental_step P once alone s (s\<lparr>y_portManager := pm, y_goroutines := add_mset (StartCreate req p) G\<rparr>)"
| create_ok: "y_goroutines s = add_mset (StartCreate req p) G \<Longrightarrow>
    y_containers s (sr_SessionID req) = None \<Longrightarrow> cid \<notin> ran (y_containers s) \<Longrightarrow>
    rental_step P once alone s
      (s\<lparr>y_containers := (y_containers s)(sr_SessionID req \<mapsto> cid), y_goroutines := add_mset (StartRun req p cid) G\<rparr>)"
| create_err: "y_goroutines s = add_mset (StartCreate req p) G \<Longrightarrow>
    rental_step P once alone s (s\<lparr>y_goroutines := add_mset (StartFail req p '''') G\<rparr>)"
| run_ok: "y_goroutines s = add_mset (StartRun req p cid) G \<Longrightarrow>
    rental_step P once alone s (s\<lparr>y_goroutines := add_mset (StartHealth req p cid) G\<rparr>)"
| run_err: "y_goroutines s = add_mset (StartRun req p cid) G \<Longrightarrow>
    rental_step P once alone s (s\<lparr>y_goroutines := add_mset (StartFail req p cid) G\<rparr>)"
| health_ok: "y_goroutines s = add_mset (StartHealth req p cid) G \<Longrightarrow>
    rental_step P once alone s (s\<lparr>y_goroutines := add_mset (StartTrack req p cid) G\<rparr>)"
| health_err: "y_goroutines s = add_mset (StartHealth req p cid) G \<Longrightarrow>
    rental_step P once alone s (s\<lparr>y_goroutines := add_mset (StartFail req p cid) G\<rparr>)"
| track: "y_goroutines s = add_mset (StartTrack req p cid) G \<Longrightarrow>
    rental_step P once alone s (s\<lparr>y_activeRentals := (y_activeRentals s)(sr_SessionID req \<mapsto> rental_state req p cid t),
                            y_goroutines := G\<rparr>)"
| fail_removed: "y_goroutines s = add_mset (StartFail req p cid) G \<Longrightarrow> removal cid (y_containers s) C \<Longrightarrow>
    rental_step P once alone s (s\<lparr>y_containers := C, y_goroutines := add_mset (StartRelease req p) G\<rparr>)"
| fail_released: "y_goroutines s = add_mset (StartRelease req p) G \<Longrightarrow>
    rental_step P once alone s (s\<lparr>y_portManager := snd (pi_Release P t p (y_portManager s)), y_goroutines := G\<rparr>)"
| call_stop: "rental_step P once alone s (s\<lparr>y_goroutines := add_mset (StopMark sid) (y_goroutines s)\<rparr>)"
| stop_unknown: "y_goroutines s = add_mset (StopMark sid) G \<Longrightarrow>
    y_activeRentals s sid = None \<Longrightarrow> rental_step P once alone s (s\<lparr>y_goroutines := G\<rparr>)"
| stop_marked: "y_goroutines s = add_mset (StopMark sid) G \<Longrightarrow>
    y_activeRentals s sid = Some st \<Longrightarrow> once \<longrightarrow> rs_StoppedAt st = None \<Longrightarrow>
    rental_step P once alone s
      (s\<lparr>y_activeRentals := (y_activeRentals s)(sid \<mapsto> st\<lparr>rs_StoppedAt := Some t\<rparr>),
         y_goroutines := add_mset (StopDocker (stop_job sid st)) G\<rparr>)"
| stop_err: "y_goroutines s = add_mset (StopDocker job) G \<Longrightarrow> rental_step P once alone s (s\<lparr>y_goroutines := G\<rparr>)"
| stop_ok: "y_goroutines s = add_mset (StopDocker job) G \<Longrightarrow>
    rental_step P once alone s (s\<lparr>y_goroutines := add_mset (CleanupSleep job) G\<rparr>)"
| cleanup_removed: "y_goroutines s = add_mset (CleanupSleep job) G \<Longrightarrow>
    removal (cj_containerID job) (y_containers s) C \<Longrightarrow>
    rental_step P once alone s (s\<lparr>y_containers := C, y_goroutines := add_mset (CleanupRelease job) G\<rparr>)"
| cleanup_released: "y_goroutines s = add_mset (CleanupRelease job) G \<Longrightarrow>
    rental_step P once alone s (s\<lparr>y_portManager := snd (pi_Release P t (cj_sshPort job) (y_portManager s)),
                            y_goroutines := add_mset (CleanupDelete job) G\<rparr>)"
| cleanup_deleted: "y_goroutines s = add_mset (CleanupDelete job) G \<Longrightarrow>
    rental_step P once alone s (s\<lparr>y_activeRentals := (y_activeRentals s)(cj_sessionID job := None), y_goroutines := G\<rparr>)"

abbreviation rental_steps ::
  "'p PortManagerInterface \<Rightarrow> bool \<Rightarrow> bool \<Rightarrow> 'p rental_sys \<Rightarrow> 'p rental_sys \<Rightarrow> bool" where
  "rental_steps P once alone \<equiv> (rental_step P once alone)\<^sup>*\<^sup>*"

section \<open>Who is using a port\<close>

text \<open>
  The session and port a goroutine is responsible for: from the allocation until the rental is
  tracked or the port released, and from the stop until the cleanup has released the port.
\<close>

fun claim :: "goroutine \<Rightarrow> (string \<times> int) multiset" where
  "claim (StartCreate req p) = {#(sr_SessionID req, p)#}"
| "claim (StartRun req p cid) = {#(sr_SessionID req, p)#}"
| "claim (StartHealth req p cid) = {#(sr_SessionID req, p)#}"
| "claim (StartTrack req p cid) = {#(sr_SessionID req, p)#}"
| "claim (StartFail req p cid) = {#(sr_SessionID req, p)#}"
| "claim (StartRelease req p) = {#(sr_SessionID req, p)#}"
| "claim (StopDocker job) = {#(cj_sessionID job, cj_sshPort job)#}"
| "claim (CleanupSleep job) = {#(cj_sessionID job, cj_sshPort job)#}"
| "claim (CleanupRelease job) = {#(cj_sessionID job, cj_sshPort job)#}"
| "claim _ = {#}"

definition claims :: "goroutine multiset \<Rightarrow> (string \<times> int) multiset" where
  "claims G = sum_mset (image_mset claim G)"

lemma claims_add [simp]: "claims (add_mset g G) = claim g + claims G"
  by (simp add: claims_def)

lemma claims_empty [simp]: "claims {#} = {#}"
  by (simp add: claims_def)

definition no_repeats :: "'a multiset \<Rightarrow> bool" where
  "no_repeats M \<longleftrightarrow> (\<forall>c. count M c \<le> 1)"

lemma no_repeats_empty [simp]: "no_repeats {#}"
  by (simp add: no_repeats_def)

lemma no_repeats_add [simp]: "no_repeats (add_mset a M) \<longleftrightarrow> a \<notin># M \<and> no_repeats M"
proof
  assume l: "no_repeats (add_mset a M)"
  have "count M c \<le> 1" for c
    using l [unfolded no_repeats_def, rule_format, of c] by (simp split: if_splits)
  moreover have "count M a = 0"
    using l [unfolded no_repeats_def, rule_format, of a] by simp
  ultimately show "a \<notin># M \<and> no_repeats M" by (simp add: no_repeats_def not_in_iff)
next
  assume "a \<notin># M \<and> no_repeats M"
  then show "no_repeats (add_mset a M)" by (simp add: no_repeats_def not_in_iff)
qed

lemma no_repeats_union: "no_repeats (A + B) \<Longrightarrow> no_repeats B"
  by (simp add: no_repeats_def) (meson add_leD2)

text \<open>A rental that is running: tracked and not stopped.\<close>

definition running :: "'p rental_sys \<Rightarrow> string \<Rightarrow> int \<Rightarrow> bool" where
  "running s sid p \<longleftrightarrow>
     (\<exists>st. y_activeRentals s sid = Some st \<and> rs_StoppedAt st = None \<and> rs_SSHPort st = p)"

text \<open>
  The invariant: whoever is responsible for a port, a goroutine or a running rental, is the only
  one, and the port manager holds the port for its session.
\<close>

definition ports_inv :: "('p \<Rightarrow> bool) \<Rightarrow> ('p \<Rightarrow> int \<rightharpoonup> string) \<Rightarrow> 'p rental_sys \<Rightarrow> bool" where
  "ports_inv pinv hold s \<longleftrightarrow>
     pinv (y_portManager s) \<and>
     no_repeats (claims (y_goroutines s)) \<and>
     (\<forall>sid p. (sid, p) \<in># claims (y_goroutines s) \<longrightarrow>
        hold (y_portManager s) p = Some sid \<and> \<not> running s sid p) \<and>
     (\<forall>sid p. running s sid p \<longrightarrow> hold (y_portManager s) p = Some sid)"

definition rental_init :: "'p \<Rightarrow> 'p rental_sys" where
  "rental_init pm =
     \<lparr>y_portManager = pm, y_activeRentals = Map.empty, y_containers = Map.empty, y_goroutines = {#}\<rparr>"

lemma running_simps [simp]:
  "running (s\<lparr>y_goroutines := G\<rparr>) = running s"
  "running (s\<lparr>y_portManager := pm\<rparr>) = running s"
  "running (s\<lparr>y_containers := C\<rparr>) = running s"
  by (auto simp: running_def fun_eq_iff)

context port_service
begin

lemma ports_inv_same_claims:
  assumes "ports_inv pinv hold s" and "claims G = claims (y_goroutines s)"
  shows "ports_inv pinv hold (s\<lparr>y_goroutines := G\<rparr>)"
  using assms by (simp add: ports_inv_def)

lemma ports_inv_containers [simp]: "ports_inv pinv hold (s\<lparr>y_containers := C\<rparr>) = ports_inv pinv hold s"
  by (simp add: ports_inv_def)

lemma ports_inv_containers_drop:
  assumes "ports_inv pinv hold s" and "claims G = claims (y_goroutines s)"
  shows "ports_inv pinv hold (s\<lparr>y_containers := C, y_goroutines := G\<rparr>)"
  using ports_inv_same_claims [of "s\<lparr>y_containers := C\<rparr>" G] assms by simp

lemma ports_inv_drop:
  assumes "ports_inv pinv hold s" and "y_goroutines s = add_mset g G"
  shows "ports_inv pinv hold (s\<lparr>y_goroutines := G\<rparr>)"
  using assms unfolding ports_inv_def by (auto dest: no_repeats_union)

lemma ports_inv_alloc:
  assumes s: "ports_inv pinv hold s" and g: "claims (y_goroutines s) = claims G"
    and al: "pi_Allocate P t sid (y_portManager s) = (Inr p, pm)" and g': "claim g = {#(sid, p)#}"
  shows "ports_inv pinv hold (s\<lparr>y_portManager := pm, y_goroutines := add_mset g G\<rparr>)"
proof -
  from s al have pm: "pinv pm" "hold (y_portManager s) p = None" "hold pm = (hold (y_portManager s))(p \<mapsto> sid)"
    using alloc_ok by (auto simp: ports_inv_def)
  with s g have "(sid, p) \<notin># claims G" "\<not> running s sid' p" for sid'
    by (auto simp: ports_inv_def)
  with s g g' pm show ?thesis
    by (auto simp: ports_inv_def)
qed

lemma ports_inv_track:
  assumes s: "ports_inv pinv hold s" and g: "y_goroutines s = add_mset g G" "claim g = {#(sr_SessionID req, p)#}"
  shows "ports_inv pinv hold
    (s\<lparr>y_activeRentals := (y_activeRentals s)(sr_SessionID req \<mapsto> rental_state req p cid t), y_goroutines := G\<rparr>)"
    (is "ports_inv pinv hold ?s'")
proof -
  have run: "running ?s' sid q \<longleftrightarrow>
      (if sid = sr_SessionID req then q = p else running s sid q)" for sid q
    by (auto simp: running_def)
  from s g show ?thesis
    unfolding ports_inv_def run by (auto split: if_splits)
qed

lemma ports_inv_release:
  assumes s: "ports_inv pinv hold s" and g: "y_goroutines s = add_mset g G" "claim g = {#(sid, p)#}"
    and g': "claims G' = claims G"
  shows "ports_inv pinv hold (s\<lparr>y_portManager := snd (pi_Release P t p (y_portManager s)), y_goroutines := G'\<rparr>)"
proof -
  from s have pm: "pinv (y_portManager s)" by (simp add: ports_inv_def)
  have "(sid', p) \<notin># claims G" "\<not> running s sid' p" for sid'
    using s g by (auto simp: ports_inv_def)+
  with s g g' show ?thesis
    unfolding ports_inv_def by (auto simp: inv_release [OF pm] hold_release [OF pm])
qed

lemma ports_inv_mark:
  assumes s: "ports_inv pinv hold s" and g: "claims (y_goroutines s) = claims G"
    and st: "y_activeRentals s sid = Some st" "rs_StoppedAt st = None"
  shows "ports_inv pinv hold
    (s\<lparr>y_activeRentals := (y_activeRentals s)(sid \<mapsto> st\<lparr>rs_StoppedAt := Some t\<rparr>),
       y_goroutines := add_mset (StopDocker (stop_job sid st)) G\<rparr>)" (is "ports_inv pinv hold ?s'")
proof -
  have run: "running ?s' sid' q \<longleftrightarrow> sid' \<noteq> sid \<and> running s sid' q" for sid' q
    by (auto simp: running_def)
  have "running s sid (rs_SSHPort st)" using st by (simp add: running_def)
  with s g show ?thesis
    unfolding ports_inv_def run by (auto simp: stop_job_def)
qed

lemma ports_inv_delete:
  assumes s: "ports_inv pinv hold s" and g: "claims (y_goroutines s) = claims G"
  shows "ports_inv pinv hold (s\<lparr>y_activeRentals := (y_activeRentals s)(sid := None), y_goroutines := G\<rparr>)"
    (is "ports_inv pinv hold ?s'")
proof -
  have run: "running ?s' sid' q \<longleftrightarrow> sid' \<noteq> sid \<and> running s sid' q" for sid' q
    by (auto simp: running_def)
  from s g show ?thesis unfolding ports_inv_def run by auto
qed

lemma rental_step_inv:
  assumes "rental_step P True alone s s'" and "ports_inv pinv hold s"
  shows "ports_inv pinv hold s'"
  using assms
proof (cases rule: rental_step.cases)
  case (start_no_port req G t e pm)
  from alloc_err [OF start_no_port(3)] have "s' = s\<lparr>y_goroutines := G\<rparr>" by (simp add: start_no_port(1))
  with assms(2) start_no_port(2) show ?thesis by (simp add: ports_inv_drop)
next
  case (start_port req G t p pm)
  with assms(2) ports_inv_alloc [of s G t "sr_SessionID req" p pm] show ?thesis by simp
next
  case (track req p cid G t)
  with assms(2) ports_inv_track [of s "StartTrack req p cid"] show ?thesis by simp
next
  case (fail_released req p G t)
  with assms(2) ports_inv_release [of s "StartRelease req p" G] show ?thesis by simp
next
  case (stop_marked sid G st t)
  with assms(2) ports_inv_mark [of s G sid st] show ?thesis by simp
next
  case (cleanup_released job G t)
  with assms(2) ports_inv_release [of s "CleanupRelease job" G] show ?thesis by simp
next
  case (cleanup_deleted job G)
  with assms(2) ports_inv_delete [of s G] show ?thesis by simp
qed (auto intro: ports_inv_same_claims ports_inv_drop ports_inv_containers_drop)

lemma rental_steps_inv:
  "rental_steps P True alone s s' \<Longrightarrow> ports_inv pinv hold s \<Longrightarrow> ports_inv pinv hold s'"
  by (induction rule: rtranclp_induct) (auto intro: rental_step_inv)

lemma ports_inv_init: "pinv pm \<Longrightarrow> ports_inv pinv hold (rental_init pm)"
  by (simp add: ports_inv_def rental_init_def running_def)

end

section \<open>The calls of the sequential model are runs of this one\<close>

definition sys_of :: "'p RentalExecutor \<Rightarrow> (string \<rightharpoonup> string) \<Rightarrow> goroutine multiset \<Rightarrow> 'p rental_sys" where
  "sys_of re C G =
     \<lparr>y_portManager = re_portManager re, y_activeRentals = re_activeRentals re, y_containers = C, y_goroutines = G\<rparr>"

lemma sys_of_simps [simp]:
  "y_portManager (sys_of re C G) = re_portManager re"
  "y_activeRentals (sys_of re C G) = re_activeRentals re"
  "y_containers (sys_of re C G) = C"
  "y_goroutines (sys_of re C G) = G"
  "(sys_of re C G)\<lparr>y_goroutines := G'\<rparr> = sys_of re C G'"
  "(sys_of re C G)\<lparr>y_containers := C'\<rparr> = sys_of re C' G"
  "(sys_of re C G)\<lparr>y_containers := C', y_goroutines := G'\<rparr> = sys_of re C' G'"
  "(sys_of re C G)\<lparr>y_portManager := pm, y_goroutines := G'\<rparr> = sys_of (re\<lparr>re_portManager := pm\<rparr>) C G'"
  "(sys_of re C G)\<lparr>y_activeRentals := a, y_goroutines := G'\<rparr> = sys_of (re\<lparr>re_activeRentals := a\<rparr>) C G'"
  by (simp_all add: sys_of_def)

text \<open>
  From whatever containers exist, the system gets from one executor with some goroutines to another.
  The Docker of the sequential model is arbitrary: when it accepts a name that is taken here, someone
  else has removed that container before.
\<close>

definition runs_to ::
  "'p PortManagerInterface \<Rightarrow> bool \<Rightarrow> 'p RentalExecutor \<Rightarrow> goroutine multiset \<Rightarrow>
   'p RentalExecutor \<Rightarrow> goroutine multiset \<Rightarrow> bool" where
  "runs_to P once re G re' G' \<longleftrightarrow> (\<forall>C. \<exists>C'. rental_steps P once False (sys_of re C G) (sys_of re' C' G'))"

lemma runs_to_trans [trans]:
  "runs_to P once re G re1 G1 \<Longrightarrow> runs_to P once re1 G1 re2 G2 \<Longrightarrow> runs_to P once re G re2 G2"
  unfolding runs_to_def by (metis rtranclp_trans)

lemma runs_to_rule:
  assumes "\<And>C. rental_step P once False (sys_of re C G) (s C)" and "\<And>C. \<exists>C'. s C = sys_of re' C' G'"
  shows "runs_to P once re G re' G'"
  unfolding runs_to_def using assms by (metis r_into_rtranclp)

lemma created_steps:
  "runs_to P once re (add_mset (StartCreate req p) G) re (add_mset (StartRun req p cid) G)"
proof -
  have "rental_steps P once False (sys_of re C (add_mset (StartCreate req p) G))
      (sys_of re ((C |` {n. n \<noteq> sr_SessionID req \<and> C n \<noteq> Some cid})(sr_SessionID req \<mapsto> cid)) (add_mset (StartRun req p cid) G))"
    for C
  proof -
    let ?G = "add_mset (StartCreate req p) G" and ?C = "C |` {n. n \<noteq> sr_SessionID req \<and> C n \<noteq> Some cid}"
    have "rental_step P once False (sys_of re C ?G) (sys_of re ?C ?G)"
      using rental_step.removed_outside [of False P once "sys_of re C ?G"] by simp
    moreover have "rental_step P once False (sys_of re ?C ?G)
        (sys_of re (?C(sr_SessionID req \<mapsto> cid)) (add_mset (StartRun req p cid) G))"
      using rental_step.create_ok [of "sys_of re ?C ?G" req p G cid P once False]
      by (auto simp: ran_def restrict_map_def)
    ultimately show ?thesis by simp
  qed
  then show ?thesis unfolding runs_to_def by blast
qed

lemma sys_start_steps:
  "re_activeRentals re (sr_SessionID req) \<noteq> None \<Longrightarrow> runs_to P once re (add_mset (StartCheck req) G) re G"
  "re_activeRentals re (sr_SessionID req) = None \<Longrightarrow>
     runs_to P once re (add_mset (StartCheck req) G) re (add_mset (StartAllocate req) G)"
  "pi_Allocate P t (sr_SessionID req) (re_portManager re) = (Inl e, pm) \<Longrightarrow>
     runs_to P once re (add_mset (StartAllocate req) G) (re\<lparr>re_portManager := pm\<rparr>) G"
  "pi_Allocate P t (sr_SessionID req) (re_portManager re) = (Inr p, pm) \<Longrightarrow>
     runs_to P once re (add_mset (StartAllocate req) G) (re\<lparr>re_portManager := pm\<rparr>) (add_mset (StartCreate req p) G)"
  "runs_to P once re (add_mset (StartCreate req p) G) re (add_mset (StartFail req p '''') G)"
  "runs_to P once re (add_mset (StartRun req p cid) G) re (add_mset (StartHealth req p cid) G)"
  "runs_to P once re (add_mset (StartRun req p cid) G) re (add_mset (StartFail req p cid) G)"
  "runs_to P once re (add_mset (StartHealth req p cid) G) re (add_mset (StartTrack req p cid) G)"
  "runs_to P once re (add_mset (StartHealth req p cid) G) re (add_mset (StartFail req p cid) G)"
  "runs_to P once re (add_mset (StartTrack req p cid) G)
     (re\<lparr>re_activeRentals := (re_activeRentals re)(sr_SessionID req \<mapsto> rental_state req p cid t)\<rparr>) G"
  "runs_to P once re (add_mset (StartFail req p cid) G) re (add_mset (StartRelease req p) G)"
  "runs_to P once re (add_mset (StartRelease req p) G)
     (re\<lparr>re_portManager := snd (pi_Release P t p (re_portManager re))\<rparr>) G"
proof -
  show "re_activeRentals re (sr_SessionID req) \<noteq> None \<Longrightarrow> runs_to P once re (add_mset (StartCheck req) G) re G"
    by (rule runs_to_rule, rule rental_step.start_duplicate [where G = G and req = req]) auto
  show "re_activeRentals re (sr_SessionID req) = None \<Longrightarrow>
     runs_to P once re (add_mset (StartCheck req) G) re (add_mset (StartAllocate req) G)"
    by (rule runs_to_rule, rule rental_step.start_checked [where G = G and req = req]) auto
  show "pi_Allocate P t (sr_SessionID req) (re_portManager re) = (Inl e, pm) \<Longrightarrow>
     runs_to P once re (add_mset (StartAllocate req) G) (re\<lparr>re_portManager := pm\<rparr>) G"
    by (rule runs_to_rule, rule rental_step.start_no_port [where G = G and req = req and t = t and e = e and pm = pm]) auto
  show "pi_Allocate P t (sr_SessionID req) (re_portManager re) = (Inr p, pm) \<Longrightarrow>
     runs_to P once re (add_mset (StartAllocate req) G) (re\<lparr>re_portManager := pm\<rparr>) (add_mset (StartCreate req p) G)"
    by (rule runs_to_rule, rule rental_step.start_port [where G = G and req = req and t = t and p = p and pm = pm]) auto
  show "runs_to P once re (add_mset (StartCreate req p) G) re (add_mset (StartFail req p '''') G)"
    by (rule runs_to_rule, rule rental_step.create_err [where G = G and req = req and p = p]) auto
  show "runs_to P once re (add_mset (StartRun req p cid) G) re (add_mset (StartHealth req p cid) G)"
    by (rule runs_to_rule, rule rental_step.run_ok [where G = G and req = req and p = p and cid = cid]) auto
  show "runs_to P once re (add_mset (StartRun req p cid) G) re (add_mset (StartFail req p cid) G)"
    by (rule runs_to_rule, rule rental_step.run_err [where G = G and req = req and p = p and cid = cid]) auto
  show "runs_to P once re (add_mset (StartHealth req p cid) G) re (add_mset (StartTrack req p cid) G)"
    by (rule runs_to_rule, rule rental_step.health_ok [where G = G and req = req and p = p and cid = cid]) auto
  show "runs_to P once re (add_mset (StartHealth req p cid) G) re (add_mset (StartFail req p cid) G)"
    by (rule runs_to_rule, rule rental_step.health_err [where G = G and req = req and p = p and cid = cid]) auto
  show "runs_to P once re (add_mset (StartTrack req p cid) G)
     (re\<lparr>re_activeRentals := (re_activeRentals re)(sr_SessionID req \<mapsto> rental_state req p cid t)\<rparr>) G"
    by (rule runs_to_rule, rule rental_step.track [where G = G and req = req and p = p and cid = cid and t = t]) auto
  show "runs_to P once re (add_mset (StartFail req p cid) G) re (add_mset (StartRelease req p) G)"
    by (rule runs_to_rule, rule rental_step.fail_removed [where G = G and req = req and p = p and cid = cid]) (auto simp: removal_def)
  show "runs_to P once re (add_mset (StartRelease req p) G)
     (re\<lparr>re_portManager := snd (pi_Release P t p (re_portManager re))\<rparr>) G"
    by (rule runs_to_rule, rule rental_step.fail_released [where G = G and req = req and p = p and t = t]) auto
qed

lemma cleanupOnError_runs:
  "runs_to P once re (add_mset (StartFail req p cid) G) (fst (cleanupOnError D P cid p re w)) G"
proof -
  let ?t = "w_clock (if cid \<noteq> '''' then snd (di_RemoveContainer D ctx_Background cid True w) else w)"
  have "fst (cleanupOnError D P cid p re w) = re\<lparr>re_portManager := snd (pi_Release P ?t p (re_portManager re))\<rparr>"
    by (simp add: cleanupOnError_def Let_def)
  then show ?thesis
    using runs_to_trans [OF sys_start_steps(11) sys_start_steps(12)] by metis
qed

lemma start_to_track:
  "runs_to P once re (add_mset (StartCreate req p) G)
     (re\<lparr>re_activeRentals := (re_activeRentals re)(sr_SessionID req \<mapsto> rental_state req p cid t)\<rparr>) G"
  by (rule runs_to_trans [OF created_steps runs_to_trans [OF sys_start_steps(6)
        runs_to_trans [OF sys_start_steps(8) sys_start_steps(10)]]])

lemma StartRental_runs_allocated:
  assumes "docker_service D"
    and "StartRental D P ctx req re w = Some (r, re', w')" and "re_activeRentals re (sr_SessionID req) = None"
    and "pi_Allocate P (w_clock w) (sr_SessionID req) (re_portManager re) = (Inr p, pm)"
  shows "runs_to P once (re\<lparr>re_portManager := pm\<rparr>) (add_mset (StartCreate req p) G) re' G"
proof -
  let ?re = "re\<lparr>re_portManager := pm\<rparr>"
  note failed = cleanupOnError_runs [where re = ?re and req = req and p = p and G = G and P = P and once = once]
  have no_id: "cid = ''''" if "di_CreateContainer D ctx cfg w = ((cid, Some e), w1)" for cid cfg e w1
    using docker_service.create_failed [OF assms(1) that] .
  consider (refused) w0 where "re' = fst (cleanupOnError D P '''' p ?re w0)"
    | (undone) cid w0 where "re' = fst (cleanupOnError D P cid p ?re w0)"
    | (tracked) cid t where
        "re' = ?re\<lparr>re_activeRentals := (re_activeRentals ?re)(sr_SessionID req \<mapsto> rental_state req p cid t)\<rparr>"
    using assms(2-)
    by (auto simp: StartRental_def Let_def dest!: no_id split: option.split_asm prod.split_asm) (metis fst_conv)+
  then show ?thesis
  proof cases
    case refused
    with runs_to_trans [OF sys_start_steps(5) failed] show ?thesis by metis
  next
    case (undone cid w0)
    with runs_to_trans [OF created_steps runs_to_trans [OF sys_start_steps(7) failed]] show ?thesis by metis
  next
    case (tracked cid t)
    with start_to_track show ?thesis by metis
  qed
qed

text \<open>
  A call of \<open>StartRental\<close> that runs without interruption, whichever way it ends, is a run of the
  interleaved system: from a goroutine that is about to check for a duplicate to the executor the
  call leaves, with the goroutine gone and every other one where it was.
\<close>

lemma StartRental_is_a_run:
  assumes "docker_service D" and "StartRental D P ctx req re w = Some (r, re', w')"
  shows "runs_to P once re (add_mset (StartCheck req) G) re' G"
proof (cases "re_activeRentals re (sr_SessionID req)")
  case (Some st)
  with assms(2) have "re' = re" by (simp add: StartRental_def)
  with Some show ?thesis by (simp add: sys_start_steps)
next
  case None
  obtain r1 pm where al: "pi_Allocate P (w_clock w) (sr_SessionID req) (re_portManager re) = (r1, pm)" by fastforce
  note checked = sys_start_steps(2) [OF None, where P = P and once = once and G = G]
  show ?thesis
  proof (cases r1)
    case (Inl e)
    with assms(2) None al have "re' = re\<lparr>re_portManager := pm\<rparr>" by (simp add: StartRental_def)
    with runs_to_trans [OF checked sys_start_steps(3)] al Inl show ?thesis by metis
  next
    case (Inr p)
    from runs_to_trans [OF checked runs_to_trans [OF sys_start_steps(4) StartRental_runs_allocated [OF assms None]]]
      al Inr show ?thesis by metis
  qed
qed

lemma sys_stop_steps:
  "re_activeRentals re sid = None \<Longrightarrow> runs_to P once re (add_mset (StopMark sid) G) re G"
  "re_activeRentals re sid = Some st \<Longrightarrow> once \<longrightarrow> rs_StoppedAt st = None \<Longrightarrow>
     runs_to P once re (add_mset (StopMark sid) G)
       (re\<lparr>re_activeRentals := (re_activeRentals re)(sid \<mapsto> st\<lparr>rs_StoppedAt := Some t\<rparr>)\<rparr>)
       (add_mset (StopDocker (stop_job sid st)) G)"
  "runs_to P once re (add_mset (StopDocker job) G) re G"
  "runs_to P once re (add_mset (StopDocker job) G) re (add_mset (CleanupSleep job) G)"
  "runs_to P once re (add_mset (CleanupSleep job) G) re (add_mset (CleanupRelease job) G)"
  "runs_to P once re (add_mset (CleanupRelease job) G)
     (re\<lparr>re_portManager := snd (pi_Release P t (cj_sshPort job) (re_portManager re))\<rparr>) (add_mset (CleanupDelete job) G)"
  "runs_to P once re (add_mset (CleanupDelete job) G)
     (re\<lparr>re_activeRentals := (re_activeRentals re)(cj_sessionID job := None)\<rparr>) G"
proof -
  show "re_activeRentals re sid = None \<Longrightarrow> runs_to P once re (add_mset (StopMark sid) G) re G"
    by (rule runs_to_rule, rule rental_step.stop_unknown [where G = G and sid = sid]) auto
  show "re_activeRentals re sid = Some st \<Longrightarrow> once \<longrightarrow> rs_StoppedAt st = None \<Longrightarrow>
     runs_to P once re (add_mset (StopMark sid) G)
       (re\<lparr>re_activeRentals := (re_activeRentals re)(sid \<mapsto> st\<lparr>rs_StoppedAt := Some t\<rparr>)\<rparr>)
       (add_mset (StopDocker (stop_job sid st)) G)"
    by (rule runs_to_rule, rule rental_step.stop_marked [where G = G and sid = sid and st = st and t = t]) auto
  show "runs_to P once re (add_mset (StopDocker job) G) re G"
    by (rule runs_to_rule, rule rental_step.stop_err [where G = G and job = job]) auto
  show "runs_to P once re (add_mset (StopDocker job) G) re (add_mset (CleanupSleep job) G)"
    by (rule runs_to_rule, rule rental_step.stop_ok [where G = G and job = job]) auto
  show "runs_to P once re (add_mset (CleanupSleep job) G) re (add_mset (CleanupRelease job) G)"
    by (rule runs_to_rule, rule rental_step.cleanup_removed [where G = G and job = job]) (auto simp: removal_def)
  show "runs_to P once re (add_mset (CleanupRelease job) G)
     (re\<lparr>re_portManager := snd (pi_Release P t (cj_sshPort job) (re_portManager re))\<rparr>) (add_mset (CleanupDelete job) G)"
    by (rule runs_to_rule, rule rental_step.cleanup_released [where G = G and job = job and t = t]) auto
  show "runs_to P once re (add_mset (CleanupDelete job) G)
     (re\<lparr>re_activeRentals := (re_activeRentals re)(cj_sessionID job := None)\<rparr>) G"
    by (rule runs_to_rule, rule rental_step.cleanup_deleted [where G = G and job = job]) auto
qed

lemma cleanup_is_a_run:
  "runs_to P once re (add_mset (CleanupSleep job) G) (fst (cleanup_after_sleep D P job re w)) G"
proof -
  let ?t = "w_clock (snd (di_RemoveContainer D ctx_Background (cj_containerID job) True w))"
  let ?re1 = "re\<lparr>re_portManager := snd (pi_Release P ?t (cj_sshPort job) (re_portManager re))\<rparr>"
  have "fst (cleanup_after_sleep D P job re w) =
      ?re1\<lparr>re_activeRentals := (re_activeRentals ?re1)(cj_sessionID job := None)\<rparr>"
    by (simp add: cleanup_after_sleep_def Let_def)
  with runs_to_trans [OF sys_stop_steps(5) runs_to_trans [OF sys_stop_steps(6) sys_stop_steps(7)]]
  show ?thesis by metis
qed

text \<open>
  A call of \<open>StopRental\<close> is a run of the interleaved system, with \<open>once\<close> if its rental has not been
  stopped before, and the cleanup job it schedules is the goroutine the run leaves behind.
\<close>

lemma StopRental_is_a_run:
  assumes "StopRental D ctx sid re w = (r, job, re', w')"
    and fresh: "\<forall>st. once \<longrightarrow> re_activeRentals re sid = Some st \<longrightarrow> rs_StoppedAt st = None"
  shows "runs_to P once re (add_mset (StopMark sid) G) re' (case job of None \<Rightarrow> G | Some j \<Rightarrow> add_mset (CleanupSleep j) G)"
proof (cases "re_activeRentals re sid")
  case None
  with assms show ?thesis by (auto simp: StopRental_def sys_stop_steps)
next
  case (Some st)
  let ?re = "re\<lparr>re_activeRentals := (re_activeRentals re)(sid \<mapsto> st\<lparr>rs_StoppedAt := Some (w_clock w)\<rparr>)\<rparr>"
  from assms(1) Some have stopped: "re' = ?re" "job = None \<or> job = Some (stop_job sid st)"
    by (auto simp: StopRental_def Let_def stop_job_def split: prod.splits option.splits)
  from fresh Some have "once \<longrightarrow> rs_StoppedAt st = None" by blast
  note marked = sys_stop_steps(2) [of re sid st once P G "w_clock w", OF Some this]
  from stopped runs_to_trans [OF marked sys_stop_steps(3)] runs_to_trans [OF marked sys_stop_steps(4)]
  show ?thesis by auto
qed

text \<open>The calls themselves, of both kinds.\<close>

lemma call_start_steps:
  "sr_SessionID req \<noteq> '''' \<Longrightarrow> runs_to P once re G re (add_mset (StartCheck req) G)"
  by (rule runs_to_rule, rule rental_step.call_start) auto

lemma call_stop_steps: "runs_to P once re G re (add_mset (StopMark sid) G)"
  by (rule runs_to_rule, rule rental_step.call_stop) auto

lemma start_to_tracked:
  assumes "sr_SessionID req \<noteq> ''''" and "re_activeRentals re (sr_SessionID req) = None"
    and "pi_Allocate P t (sr_SessionID req) (re_portManager re) = (Inr p, pm)"
  shows "runs_to P once re G
    (re\<lparr>re_portManager := pm,
        re_activeRentals := (re_activeRentals re)(sr_SessionID req \<mapsto> rental_state req p cid t)\<rparr>) G"
  using runs_to_trans [OF call_start_steps runs_to_trans [OF sys_start_steps(2) runs_to_trans [OF sys_start_steps(4)
        start_to_track [where re = "re\<lparr>re_portManager := pm\<rparr>"]]]] assms
  by simp

section \<open>Ports are exclusive however the calls interleave\<close>

lemma no_repeats_image:
  "no_repeats M \<Longrightarrow> inj_on f (set_mset M) \<Longrightarrow> no_repeats (image_mset f M)"
proof (induction M)
  case (add x M)
  then have "f x \<notin> f ` set_mset M" by (auto simp: inj_on_def)
  with add show ?case by (simp add: inj_on_insert)
qed simp

text \<open>
  C1. However the calls of the executor and its cleanup goroutines interleave, and whatever Docker
  answers, as long as a rental is not stopped twice: no two goroutines and running rentals ever use
  the same SSH port, the port manager holds the port of each for its session, and a new allocation
  is never given a port that is in use.
\<close>

theorem concurrent_rentals_never_share_a_port:
  assumes "valid_grace g"
    and "rental_steps PortManager_iface True alone (rental_init (NewPortManager lo hi g)) s"
  shows "no_repeats (image_mset snd (claims (y_goroutines s))) \<and>
    (\<forall>sid p. running s sid p \<longrightarrow> p \<notin># image_mset snd (claims (y_goroutines s))) \<and>
    (\<forall>sid sid' p. running s sid p \<and> running s sid' p \<longrightarrow> sid = sid') \<and>
    (\<forall>sid p t sid'. running s sid p \<or> (sid, p) \<in># claims (y_goroutines s) \<longrightarrow>
       held (y_portManager s) p = Some sid \<and> fst (Allocate t sid' (y_portManager s)) \<noteq> Inr p)"
proof -
  have s: "ports_inv pm_wf held s"
    using pm.rental_steps_inv [OF assms(2)] pm.ports_inv_init assms(1) by simp
  then have "inj_on snd (set_mset (claims (y_goroutines s)))"
    by (auto simp: ports_inv_def inj_on_def) (metis option.inject)
  with s have 1: "no_repeats (image_mset snd (claims (y_goroutines s)))"
    by (auto simp: ports_inv_def no_repeats_image)
  have holds: "held (y_portManager s) p = Some sid"
    if "running s sid p \<or> (sid, p) \<in># claims (y_goroutines s)" for sid p
    using s that by (auto simp: ports_inv_def)
  have 2: "p \<notin># image_mset snd (claims (y_goroutines s))" if "running s sid p" for sid p
    using s that holds by (auto simp: ports_inv_def) (metis option.inject)
  have 3: "fst (Allocate t sid' (y_portManager s)) \<noteq> Inr p"
    if "running s sid p \<or> (sid, p) \<in># claims (y_goroutines s)" for sid p t sid'
    using pm.held_not_handed_out [OF _ holds [OF that]] s by (simp add: ports_inv_def)
  show ?thesis
    using 1 2 3 holds by (metis option.inject)
qed

section \<open>Overlapping starts of one session\<close>

text \<open>The session and container a goroutine is working on, once the container exists.\<close>

fun container_claim :: "goroutine \<Rightarrow> (string \<times> string) multiset" where
  "container_claim (StartRun req p cid) = {#(sr_SessionID req, cid)#}"
| "container_claim (StartHealth req p cid) = {#(sr_SessionID req, cid)#}"
| "container_claim (StartTrack req p cid) = {#(sr_SessionID req, cid)#}"
| "container_claim (StartFail req p cid) = (if cid = '''' then {#} else {#(sr_SessionID req, cid)#})"
| "container_claim (StopDocker job) = {#(cj_sessionID job, cj_containerID job)#}"
| "container_claim (CleanupSleep job) = {#(cj_sessionID job, cj_containerID job)#}"
| "container_claim _ = {#}"

definition container_claims :: "goroutine multiset \<Rightarrow> (string \<times> string) multiset" where
  "container_claims G = sum_mset (image_mset container_claim G)"

lemma container_claims_add [simp]: "container_claims (add_mset g G) = container_claim g + container_claims G"
  by (simp add: container_claims_def)

lemma container_claims_empty [simp]: "container_claims {#} = {#}"
  by (simp add: container_claims_def)

definition running_in :: "'p rental_sys \<Rightarrow> string \<Rightarrow> string \<Rightarrow> bool" where
  "running_in s sid cid \<longleftrightarrow>
     (\<exists>st. y_activeRentals s sid = Some st \<and> rs_StoppedAt st = None \<and> rs_ContainerID st = cid)"

text \<open>
  Whoever works on a container, a goroutine or a running rental, is the only one, and the container
  exists under the name of its session.
\<close>

definition containers_ok :: "'p rental_sys \<Rightarrow> bool" where
  "containers_ok s \<longleftrightarrow> inj_on (y_containers s) (dom (y_containers s)) \<and>
     no_repeats (container_claims (y_goroutines s)) \<and>
     (\<forall>sid cid. (sid, cid) \<in># container_claims (y_goroutines s) \<longrightarrow>
        y_containers s sid = Some cid \<and> \<not> running_in s sid cid) \<and>
     (\<forall>sid cid. running_in s sid cid \<longrightarrow> y_containers s sid = Some cid)"

lemma running_in_simps [simp]:
  "running_in (s\<lparr>y_goroutines := G\<rparr>) = running_in s"
  "running_in (s\<lparr>y_portManager := pm\<rparr>) = running_in s"
  "running_in (s\<lparr>y_containers := C\<rparr>) = running_in s"
  by (auto simp: running_in_def fun_eq_iff)

lemma containers_ok_goroutines:
  assumes "containers_ok s" and "y_goroutines s = add_mset g G" and "container_claims G' = container_claims (add_mset g G)
    \<or> container_claims G' = container_claims G"
  shows "containers_ok (s\<lparr>y_goroutines := G'\<rparr>)"
  using assms unfolding containers_ok_def by (auto dest: no_repeats_union)

lemma containers_ok_ports: "containers_ok (s\<lparr>y_portManager := pm\<rparr>) = containers_ok s"
  by (simp add: containers_ok_def)

lemma containers_ok_call: "container_claim g = {#} \<Longrightarrow> containers_ok s \<Longrightarrow>
    containers_ok (s\<lparr>y_goroutines := add_mset g (y_goroutines s)\<rparr>)"
  by (simp add: containers_ok_def)

lemma containers_ok_created:
  assumes s: "containers_ok s" and g: "container_claims (y_goroutines s) = container_claims G"
    and new: "y_containers s sid = None" "cid \<notin> ran (y_containers s)" and g': "container_claim g = {#(sid, cid)#}"
  shows "containers_ok (s\<lparr>y_containers := (y_containers s)(sid \<mapsto> cid), y_goroutines := add_mset g G\<rparr>)"
proof -
  from s new g have "(sid, cid) \<notin># container_claims G" "\<not> running_in s sid cid'" for cid'
    unfolding containers_ok_def by (metis option.distinct(1))+
  with s g g' new show ?thesis
    unfolding containers_ok_def
    by (auto simp: inj_on_def ran_def dom_def split: if_splits)
qed

lemma containers_ok_removed:
  assumes s: "containers_ok s" and g: "y_goroutines s = add_mset g G"
    and claim: "container_claim g = {#(sid, cid)#} \<or> cid = ''''"
    and C: "removal cid (y_containers s) C" and g': "container_claims G' = container_claims G"
  shows "containers_ok (s\<lparr>y_containers := C, y_goroutines := G'\<rparr>)"
proof (cases "C = y_containers s")
  case True
  have "containers_ok (s\<lparr>y_goroutines := G'\<rparr>)" by (rule containers_ok_goroutines [OF s g]) (simp add: g')
  with True show ?thesis by (simp add: containers_ok_def)
next
  case False
  with C claim have C: "C = without cid (y_containers s)" and claim: "container_claim g = {#(sid, cid)#}"
    by (auto simp: removal_def)
  from s g claim have own: "y_containers s sid = Some cid" "(sid, cid) \<notin># container_claims G" "\<not> running_in s sid cid"
    by (auto simp: containers_ok_def)
  have other: "cid' \<noteq> cid" if "y_containers s sid' = Some cid'" "(sid', cid') \<in># container_claims G \<or> running_in s sid' cid'"
    for sid' cid'
  proof
    assume "cid' = cid"
    with s own(1) that(1) have "sid' = sid" by (auto simp: containers_ok_def inj_on_def dom_def)
    with own that(2) \<open>cid' = cid\<close> show False by blast
  qed
  have gone: "\<not> running_in s sid' cid" "(sid', cid) \<notin># container_claims G" for sid'
    using s g other [of sid' cid] unfolding containers_ok_def by auto
  have "inj_on C (dom C)" using s by (auto simp: containers_ok_def inj_on_def C without_def dom_def split: if_splits)
  with s g claim g' gone show ?thesis
    unfolding containers_ok_def C without_def by auto
qed

lemma containers_ok_track:
  assumes s: "containers_ok s" and g: "y_goroutines s = add_mset g G" "container_claim g = {#(sr_SessionID req, cid)#}"
  shows "containers_ok
    (s\<lparr>y_activeRentals := (y_activeRentals s)(sr_SessionID req \<mapsto> rental_state req p cid t), y_goroutines := G\<rparr>)"
    (is "containers_ok ?s'")
proof -
  have run: "running_in ?s' sid c \<longleftrightarrow> (if sid = sr_SessionID req then c = cid else running_in s sid c)" for sid c
    by (auto simp: running_in_def)
  from s g show ?thesis
    unfolding containers_ok_def run by (auto split: if_splits)
qed

lemma containers_ok_mark:
  assumes s: "containers_ok s" and g: "container_claims (y_goroutines s) = container_claims G"
    and st: "y_activeRentals s sid = Some st" "rs_StoppedAt st = None"
  shows "containers_ok
    (s\<lparr>y_activeRentals := (y_activeRentals s)(sid \<mapsto> st\<lparr>rs_StoppedAt := Some t\<rparr>),
       y_goroutines := add_mset (StopDocker (stop_job sid st)) G\<rparr>)" (is "containers_ok ?s'")
proof -
  have run: "running_in ?s' sid' c \<longleftrightarrow> sid' \<noteq> sid \<and> running_in s sid' c" for sid' c
    by (auto simp: running_in_def)
  have "running_in s sid (rs_ContainerID st)" using st by (simp add: running_in_def)
  with s g show ?thesis
    unfolding containers_ok_def run by (auto simp: stop_job_def)
qed

lemma containers_ok_delete:
  assumes s: "containers_ok s" and g: "container_claims (y_goroutines s) = container_claims G"
  shows "containers_ok (s\<lparr>y_activeRentals := (y_activeRentals s)(sid := None), y_goroutines := G\<rparr>)"
    (is "containers_ok ?s'")
proof -
  have run: "running_in ?s' sid' c \<longleftrightarrow> sid' \<noteq> sid \<and> running_in s sid' c" for sid' c
    by (auto simp: running_in_def)
  from s g show ?thesis unfolding containers_ok_def run by auto
qed

lemma rental_step_containers:
  assumes "rental_step P True True s s'" and "containers_ok s"
  shows "containers_ok s'"
  using assms
proof (cases rule: rental_step.cases)
  case (call_start req)
  with assms(2) show ?thesis by (simp add: containers_ok_call)
next
  case (call_stop sid)
  with assms(2) show ?thesis by (simp add: containers_ok_call)
next
  case (start_no_port req G t e pm)
  with assms(2) have "containers_ok (s\<lparr>y_goroutines := G\<rparr>)" by (intro containers_ok_goroutines) auto
  with start_no_port show ?thesis by (simp add: containers_ok_def)
next
  case (start_port req G t p pm)
  with assms(2) have "containers_ok (s\<lparr>y_goroutines := add_mset (StartCreate req p) G\<rparr>)"
    by (intro containers_ok_goroutines) auto
  with start_port show ?thesis by (simp add: containers_ok_def)
next
  case (create_ok req p G cid)
  with assms(2) show ?thesis by (simp add: containers_ok_created)
next
  case (track req p cid G t)
  with assms(2) containers_ok_track [of s "StartTrack req p cid"] show ?thesis by simp
next
  case (fail_removed req p cid G C)
  with assms(2) containers_ok_removed [of s "StartFail req p cid" G "sr_SessionID req" cid C] show ?thesis by auto
next
  case (fail_released req p G t)
  with assms(2) have "containers_ok (s\<lparr>y_goroutines := G\<rparr>)" by (intro containers_ok_goroutines) auto
  with fail_released show ?thesis by (simp add: containers_ok_def)
next
  case (stop_marked sid G st t)
  with assms(2) containers_ok_mark [of s G sid st] show ?thesis by simp
next
  case (cleanup_removed job G C)
  with assms(2) containers_ok_removed [of s "CleanupSleep job" G "cj_sessionID job" "cj_containerID job" C]
  show ?thesis by auto
next
  case (cleanup_released job G t)
  with assms(2) have "containers_ok (s\<lparr>y_goroutines := add_mset (CleanupDelete job) G\<rparr>)"
    by (intro containers_ok_goroutines) auto
  with cleanup_released show ?thesis by (simp add: containers_ok_def)
next
  case (cleanup_deleted job G)
  with assms(2) containers_ok_delete [of s G] show ?thesis by simp
next
  case (run_err req p cid G)
  with assms(2) show ?thesis by (cases "cid = ''''") (simp_all add: containers_ok_goroutines)
next
  case (health_err req p cid G)
  with assms(2) show ?thesis by (cases "cid = ''''") (simp_all add: containers_ok_goroutines)
qed (auto intro: containers_ok_goroutines)

lemma rental_steps_containers: "rental_steps P True True s s' \<Longrightarrow> containers_ok s \<Longrightarrow> containers_ok s'"
  by (induction rule: rtranclp_induct) (auto intro: rental_step_containers)

lemma containers_ok_init: "containers_ok (rental_init pm)"
  by (simp add: containers_ok_def rental_init_def running_in_def)

text \<open>
  C28. Overlapping starts of one session do no harm as long as Docker has no two containers of one
  name.  \<open>StartRental\<close> looks for a duplicate before it records the rental, in two separate critical
  sections, so two overlapping starts of one session can both get past the check.  But however calls
  interleave, when nobody else removes containers and no rental is stopped twice: at most one start,
  stop or cleanup of a session is working on a container, its container exists under the session's
  name, and a start that is about to record its rental never replaces a running one.
\<close>

theorem one_container_per_session:
  assumes "rental_steps P True True (rental_init pm) s"
  shows "no_repeats (image_mset fst (container_claims (y_goroutines s))) \<and>
    (\<forall>(sid, cid) \<in># container_claims (y_goroutines s). y_containers s sid = Some cid) \<and>
    (\<forall>sid p. running s sid p \<longrightarrow> sid \<notin># image_mset fst (container_claims (y_goroutines s)) \<and> y_containers s sid \<noteq> None) \<and>
    (\<forall>req p cid. StartTrack req p cid \<in># y_goroutines s \<longrightarrow> (\<forall>q. \<not> running s (sr_SessionID req) q))"
proof -
  have ok: "containers_ok s" by (rule rental_steps_containers [OF assms containers_ok_init])
  then have "inj_on fst (set_mset (container_claims (y_goroutines s)))"
    by (auto simp: containers_ok_def inj_on_def) (metis option.inject)
  with ok have 1: "no_repeats (image_mset fst (container_claims (y_goroutines s)))"
    by (auto simp: containers_ok_def no_repeats_image)
  have 2: "sid \<notin># image_mset fst (container_claims (y_goroutines s)) \<and> y_containers s sid \<noteq> None"
    if "running s sid p" for sid p
  proof -
    from that obtain cid where "running_in s sid cid" by (auto simp: running_def running_in_def)
    with ok show ?thesis by (auto simp: containers_ok_def) (metis option.inject)
  qed
  have 3: "\<not> running s (sr_SessionID req) q" if "StartTrack req p cid \<in># y_goroutines s" for req p cid q
  proof
    assume "running s (sr_SessionID req) q"
    from 2 [OF this] have "sr_SessionID req \<notin># image_mset fst (container_claims (y_goroutines s))" by blast
    with multi_member_split [OF that] show False by auto
  qed
  from ok have "\<forall>(sid, cid) \<in># container_claims (y_goroutines s). y_containers s sid = Some cid"
    by (auto simp: containers_ok_def)
  with 1 2 3 show ?thesis by blast
qed


section \<open>Witnesses\<close>

abbreviation node_ports :: PortManager where
  "node_ports \<equiv> NewPortManager 30000 32000 (30 * minute)"

lemma rental_init_sys: "rental_init pm = sys_of (NewRentalExecutor pm g) Map.empty {#}"
  by (simp add: rental_init_def sys_of_def NewRentalExecutor_def)

lemma rental_init_runs:
  "runs_to P once (NewRentalExecutor pm g) {#} re G \<Longrightarrow>
     \<exists>C. rental_steps P once False (rental_init pm) (sys_of re C G)"
  unfolding rental_init_sys [where g = g] runs_to_def by blast

lemma allocate_two:
  "pi_Allocate PortManager_iface t sid node_ports = (Inr 30000, assign t sid 30000 node_ports)"
  "pi_Allocate PortManager_iface t sid' (assign t sid 30000 node_ports) =
     (Inr 30001, assign t sid' 30001 (assign t sid 30000 node_ports))"
  by (simp_all add: pm_eval)

text \<open>The node's executor, and the same with the demonstration request's rental running.\<close>

abbreviation node_executor :: "PortManager RentalExecutor" where
  "node_executor \<equiv> NewRentalExecutor node_ports (30 * minute)"

definition demo_running :: "PortManager RentalExecutor" where
  "demo_running = node_executor\<lparr>re_portManager := assign 0 ''s1'' 30000 node_ports,
     re_activeRentals := [''s1'' \<mapsto> rental_state demo_request 30000 ''container-123'' 0]\<rparr>"

lemma demo_start:
  "StartRental mock_docker PortManager_iface ctx_Background demo_request node_executor quiet_world =
     Some (Inr (connection_info demo_request 30000 ''container-123''), demo_running, quiet_world)"
proof -
  have "waitForHealth mock_docker ctx_Background cid re quiet_world = Some (None, quiet_world)"
    if "0 \<le> re_healthTimeout re" for cid and re :: "PortManager RentalExecutor"
    unfolding waitForHealth_def using that
    by (subst health_loop.simps) (simp add: ctx_Background_def health_verdict_def)
  then show ?thesis
    using allocate_two(1) [of 0 "''s1''"]
    by (simp add: StartRental_def quiet_world_def demo_running_def demo_request_def Let_def)
qed

theorem concurrent_rentals_never_share_a_port_witness:
  "held (re_portManager demo_running) 30000 = Some ''s1'' \<and>
   fst (Allocate 5 ''s2'' (re_portManager demo_running)) \<noteq> Inr 30000"
proof -
  have "valid_grace (30 * minute)" by (simp add: valid_grace_def maxDuration_def)
  moreover have "runs_to PortManager_iface True node_executor {#} demo_running {#}"
    using start_to_tracked [of demo_request node_executor PortManager_iface 0 30000] allocate_two(1) [of 0 "''s1''"]
    by (simp add: demo_request_def demo_running_def)
  then obtain C where "rental_steps PortManager_iface True False (rental_init node_ports) (sys_of demo_running C {#})"
    by (blast dest: rental_init_runs)
  moreover have "running (sys_of demo_running C {#}) ''s1'' 30000"
    by (simp add: running_def demo_running_def)
  ultimately show ?thesis
    using concurrent_rentals_never_share_a_port [of "30 * minute" False 30000 32000 "sys_of demo_running C {#}"]
    by auto
qed

text \<open>Two overlapping starts of one session, the first about to record its rental, the second about to create.\<close>

lemma then_step:
  "rental_steps P once alone s s1 \<Longrightarrow> rental_step P once alone s1 s2' \<Longrightarrow> s2' = s2 \<Longrightarrow> rental_steps P once alone s s2"
  by auto

lemma demo_overlap:
  "rental_steps PortManager_iface True True (rental_init node_ports)
     (sys_of (node_executor\<lparr>re_portManager := assign 0 ''s1'' 30001 (assign 0 ''s1'' 30000 node_ports)\<rparr>)
        [''s1'' \<mapsto> ''c1''] {#StartTrack demo_request 30000 ''c1'', StartCreate demo_request 30001#})"
proof -
  let ?r = demo_request
  let ?re1 = "node_executor\<lparr>re_portManager := assign 0 ''s1'' 30000 node_ports\<rparr>"
  let ?re2 = "node_executor\<lparr>re_portManager := assign 0 ''s1'' 30001 (assign 0 ''s1'' 30000 node_ports)\<rparr>"
  let ?runs = "rental_steps PortManager_iface True True (rental_init node_ports)"
  have sid: "sr_SessionID ?r = ''s1''" by (simp add: demo_request_def)
  have "?runs (sys_of node_executor Map.empty {#})"
    by (simp add: rental_init_sys [where g = "30 * minute"])
  from then_step [OF this rental_step.call_start [where req = ?r]]
  have "?runs (sys_of node_executor Map.empty {#StartCheck ?r#})" by (simp add: sid)
  from then_step [OF this rental_step.call_start [where req = ?r]]
  have "?runs (sys_of node_executor Map.empty {#StartCheck ?r, StartCheck ?r#})" by (simp add: sid)
  from then_step [OF this rental_step.start_checked [where req = ?r and G = "{#StartCheck ?r#}"]]
  have "?runs (sys_of node_executor Map.empty {#StartCheck ?r, StartAllocate ?r#})" by (simp add: add_mset_commute)
  from then_step [OF this rental_step.start_checked [where req = ?r and G = "{#StartAllocate ?r#}"]]
  have "?runs (sys_of node_executor Map.empty {#StartAllocate ?r, StartAllocate ?r#})" by simp
  from then_step [OF this rental_step.start_port [where req = ?r and G = "{#StartAllocate ?r#}"]] allocate_two(1) [of 0 "''s1''"]
  have "?runs (sys_of ?re1 Map.empty {#StartAllocate ?r, StartCreate ?r 30000#})"
    by (simp add: sid add_mset_commute)
  from then_step [OF this rental_step.start_port [where req = ?r and G = "{#StartCreate ?r 30000#}"]]
    allocate_two(2) [of 0 "''s1''" "''s1''"]
  have "?runs (sys_of ?re2 Map.empty {#StartCreate ?r 30000, StartCreate ?r 30001#})"
    by (simp add: sid add_mset_commute)
  from then_step [OF this rental_step.create_ok [where req = ?r and p = 30000 and cid = "''c1''" and G = "{#StartCreate ?r 30001#}"]]
  have "?runs (sys_of ?re2 [''s1'' \<mapsto> ''c1''] {#StartRun ?r 30000 ''c1'', StartCreate ?r 30001#})" by (simp add: sid)
  from then_step [OF this rental_step.run_ok [where req = ?r and p = 30000 and cid = "''c1''" and G = "{#StartCreate ?r 30001#}"]]
  have "?runs (sys_of ?re2 [''s1'' \<mapsto> ''c1''] {#StartHealth ?r 30000 ''c1'', StartCreate ?r 30001#})" by simp
  from then_step [OF this rental_step.health_ok [where req = ?r and p = 30000 and cid = "''c1''" and G = "{#StartCreate ?r 30001#}"]]
  show ?thesis by simp
qed

theorem one_container_per_session_witness:
  "\<exists>s :: PortManager rental_sys. {#StartTrack demo_request 30000 ''c1'', StartCreate demo_request 30001#} = y_goroutines s \<and>
     y_containers s ''s1'' = Some ''c1'' \<and> (\<forall>q. \<not> running s ''s1'' q) \<and>
     no_repeats (image_mset fst (container_claims (y_goroutines s)))"
proof -
  define s where "s = sys_of (node_executor\<lparr>re_portManager := assign 0 ''s1'' 30001 (assign 0 ''s1'' 30000 node_ports)\<rparr>)
      [''s1'' \<mapsto> ''c1''] {#StartTrack demo_request 30000 ''c1'', StartCreate demo_request 30001#}"
  have g: "y_goroutines s = {#StartTrack demo_request 30000 ''c1'', StartCreate demo_request 30001#}"
    and sid: "sr_SessionID demo_request = ''s1''"
    by (simp_all add: s_def demo_request_def)
  from one_container_per_session [OF demo_overlap, folded s_def]
  have all: "no_repeats (image_mset fst (container_claims (y_goroutines s)))"
      "\<forall>(sid, cid) \<in># container_claims (y_goroutines s). y_containers s sid = Some cid"
      "\<forall>q. \<not> running s ''s1'' q"
    unfolding g by (simp_all add: sid)
  then have "y_containers s ''s1'' = Some ''c1''" by (simp add: g sid)
  with all g show ?thesis by (intro exI [of _ s]) simp
qed

end
