(* ===== verification/Docker_Service.thy ===== *)
theory Docker_Service
  imports Interfaces
begin

text \<open>
  The Docker service of \<open>internal/container/docker.go\<close>.  The Docker SDK's client and the backoff
  library are code outside the repository: the client is the record \<open>DockerClient\<close> of calls the
  service makes, the library's \<open>Retry\<close> is an argument, and every definition takes both.
\<close>

section \<open>The SDK's types as the service fills them in\<close>

record dk_Config =
  dk_Image :: string
  dk_Env :: "string list"
  dk_ExposedPorts :: "string list"
  dk_Entrypoint :: "string list"
  dk_Cmd :: "string list"

record dk_PortBinding =
  dk_HostIP :: string
  dk_HostPort :: string

record dk_HostConfig =
  dk_Runtime :: string
  dk_Memory :: int64
  dk_NanoCPUs :: int64
  dk_PortBindings :: "(string \<times> dk_PortBinding list) list"

record dk_State =
  dk_Status :: string
  dk_Health :: "string option"

text \<open>
  What \<open>ContainerInspect\<close> returns.  \<open>NetworkSettings\<close>, its \<open>Ports\<close> map and \<open>State\<close>
  may each be nil.
\<close>

record dk_ContainerJSON =
  dk_ID :: string
  dk_NetworkSettings :: "(string \<times> dk_PortBinding list) list option option"
  dk_State_ptr :: "dk_State option"

text \<open>
  Which case of the \<open>select\<close> in \<open>StopContainer\<close> fires first: a response on the wait channel, an
  error on the error channel, or the context.
\<close>

datatype wait_event = WaitResponse | WaitError error | WaitContextDone

text \<open>
  The calls of the client.  A successful \<open>ImagePull\<close> yields a reader, represented by the result
  of reading it to its end.
\<close>

record 'd DockerClient =
  cl_ContainerCreate :: "'d ctx \<Rightarrow> dk_Config \<Rightarrow> dk_HostConfig \<Rightarrow> string \<Rightarrow> ('d, error + string) ext_call"
  cl_ContainerStart :: "'d ctx \<Rightarrow> string \<Rightarrow> ('d, error option) ext_call"
  cl_ContainerStop :: "'d ctx \<Rightarrow> string \<Rightarrow> int \<Rightarrow> ('d, error option) ext_call"
  cl_ContainerRemove :: "'d ctx \<Rightarrow> string \<Rightarrow> bool \<Rightarrow> bool \<Rightarrow> ('d, error option) ext_call"
  cl_ContainerInspect :: "'d ctx \<Rightarrow> string \<Rightarrow> ('d, error + dk_ContainerJSON) ext_call"
  cl_ContainerWait :: "'d ctx \<Rightarrow> string \<Rightarrow> ('d, wait_event) ext_call"
  cl_ImagePull :: "'d ctx \<Rightarrow> string \<Rightarrow> ('d, error + error option) ext_call"
  cl_ImageInspect :: "'d ctx \<Rightarrow> string \<Rightarrow> ('d, error option) ext_call"
  cl_Close :: "('d, error option) ext_call"

record backoff_config =
  bo_InitialInterval :: duration
  bo_MaxInterval :: duration
  bo_MaxElapsedTime :: duration

type_synonym 'd retry =
  "backoff_config \<Rightarrow> 'd ctx \<Rightarrow> ('d world \<Rightarrow> error option \<times> 'd world) \<Rightarrow> 'd world \<Rightarrow> error option \<times> 'd world"

section \<open>The service\<close>

definition isGPUUUID :: "string \<Rightarrow> bool" where
  "isGPUUUID s = (HasPrefix s ''GPU-'' \<or> HasPrefix s ''MIG-'')"

definition ensureImage :: "'d DockerClient \<Rightarrow> 'd ctx \<Rightarrow> string \<Rightarrow> 'd world \<Rightarrow> error option \<times> 'd world" where
  "ensureImage cli ctx imageName w =
     (case ext_run (cl_ImageInspect cli ctx imageName) w of
        (None, w1) \<Rightarrow> (None, w1)
      | (Some _, w1) \<Rightarrow>
          (case ext_run (cl_ImagePull cli ctx imageName) w1 of
             (Inl e, w2) \<Rightarrow> (Some (Wrap (''failed to pull image '' @ imageName) e), w2)
           | (Inr (Some e), w2) \<Rightarrow> (Some (Wrap (''error during image pull '' @ imageName) e), w2)
           | (Inr None, w2) \<Rightarrow> (None, w2)))"

definition sshSetupScript :: string where
  "sshSetupScript = concat (map (\<lambda>line. line @ newline)
    [''set -e'',
     ''export DEBIAN_FRONTEND=noninteractive'',
     ''apt-get update -qq'',
     ''apt-get install -y -qq openssh-server sudo > /dev/null 2>&1'',
     '''',
     ''# Create user with password'',
     ''useradd -m -s /bin/bash \"$USER_NAME\" 2>/dev/null || true'',
     ''echo \"$USER_NAME:$SSH_PASSWORD\" | chpasswd'',
     ''echo \"$USER_NAME ALL=(ALL) NOPASSWD:ALL\" >> /etc/sudoers'',
     '''',
     ''# Configure sshd'',
     ''mkdir -p /run/sshd'',
     ''sed -i 's/#PasswordAuthentication yes/PasswordAuthentication yes/' /etc/ssh/sshd_config'',
     ''sed -i 's/PasswordAuthentication no/PasswordAuthentication yes/' /etc/ssh/sshd_config'',
     ''sed -i 's/#PermitRootLogin.*/PermitRootLogin no/' /etc/ssh/sshd_config'',
     '''',
     ''echo \"SSH server ready on port 22\"'',
     ''exec /usr/sbin/sshd -D''])"

definition gpuDevice :: "ContainerConfig \<Rightarrow> string" where
  "gpuDevice cfg =
     (if cc_GPUDeviceID cfg \<noteq> '''' \<and> cc_GPUDeviceID cfg \<noteq> ''all'' \<and> \<not> isGPUUUID (cc_GPUDeviceID cfg)
      then cc_GPUDeviceID cfg else ''all'')"

definition containerConfig :: "ContainerConfig \<Rightarrow> dk_Config" where
  "containerConfig cfg =
     (if cc_UseImageEntrypoint cfg then
        \<lparr>dk_Image = cc_Image cfg,
         dk_Env = [''NVIDIA_VISIBLE_DEVICES='' @ gpuDevice cfg, ''NVIDIA_DRIVER_CAPABILITIES=all''],
         dk_ExposedPorts = [], dk_Entrypoint = [], dk_Cmd = []\<rparr>
      else
        \<lparr>dk_Image = cc_Image cfg,
         dk_Env = [''SSH_PASSWORD='' @ cc_SSHPassword cfg, ''USER_NAME=ubuntu'',
                   ''NVIDIA_VISIBLE_DEVICES='' @ gpuDevice cfg, ''NVIDIA_DRIVER_CAPABILITIES=all''],
         dk_ExposedPorts = [''22/tcp''], dk_Entrypoint = [''/bin/bash'', ''-c''],
         dk_Cmd = [sshSetupScript]\<rparr>)"

definition hostConfig :: "ContainerConfig \<Rightarrow> dk_HostConfig" where
  "hostConfig cfg =
     \<lparr>dk_Runtime = ''nvidia'', dk_Memory = cc_MemoryBytes cfg,
      dk_NanoCPUs = cc_CPUCount cfg * 1000000000,
      dk_PortBindings =
        (if cc_UseImageEntrypoint cfg then []
         else [(''22/tcp'', [\<lparr>dk_HostIP = ''0.0.0.0'', dk_HostPort = Itoa (cc_SSHPort cfg)\<rparr>])])\<rparr>"

definition CreateContainer ::
  "'d DockerClient \<Rightarrow> 'd ctx \<Rightarrow> ContainerConfig \<Rightarrow> 'd world \<Rightarrow> (string \<times> error option) \<times> 'd world" where
  "CreateContainer cli ctx cfg w =
     (case ensureImage cli ctx (cc_Image cfg) w of
        (Some e, w1) \<Rightarrow> (('''', Some (Wrap ''failed to ensure image'' e)), w1)
      | (None, w1) \<Rightarrow>
          (case ext_run (cl_ContainerCreate cli ctx (containerConfig cfg) (hostConfig cfg) (cc_SessionID cfg)) w1 of
             (Inl e, w2) \<Rightarrow> (('''', Some (Wrap ''failed to create container'' e)), w2)
           | (Inr ID, w2) \<Rightarrow> ((ID, None), w2)))"

definition start_operation :: "'d DockerClient \<Rightarrow> 'd ctx \<Rightarrow> string \<Rightarrow> 'd world \<Rightarrow> error option \<times> 'd world" where
  "start_operation cli ctx containerID w =
     (case ext_run (cl_ContainerStart cli ctx containerID) w of
        (Some e, w1) \<Rightarrow> (Some (Wrap ''failed to start container'' e), w1)
      | (None, w1) \<Rightarrow> (None, w1))"

definition start_backoff :: backoff_config where
  "start_backoff =
     \<lparr>bo_InitialInterval = 2 * second, bo_MaxInterval = 10 * second, bo_MaxElapsedTime = 30 * second\<rparr>"

definition StartContainer ::
  "'d retry \<Rightarrow> 'd DockerClient \<Rightarrow> 'd ctx \<Rightarrow> string \<Rightarrow> 'd world \<Rightarrow> error option \<times> 'd world" where
  "StartContainer retry cli ctx containerID w =
     (case retry start_backoff ctx (start_operation cli ctx containerID) w of
        (Some e, w1) \<Rightarrow> (Some (Wrap ''failed to start container after retries'' e), w1)
      | (None, w1) \<Rightarrow> (None, w1))"

definition StopContainer ::
  "'d DockerClient \<Rightarrow> 'd ctx \<Rightarrow> string \<Rightarrow> int \<Rightarrow> 'd world \<Rightarrow> error option \<times> 'd world" where
  "StopContainer cli ctx containerID timeoutSeconds w =
     (case ext_run (cl_ContainerStop cli ctx containerID timeoutSeconds) w of
        (Some e, w1) \<Rightarrow> (Some (Wrap ''failed to stop container'' e), w1)
      | (None, w1) \<Rightarrow>
          (case ext_run (cl_ContainerWait cli ctx containerID) w1 of
             (WaitResponse, w2) \<Rightarrow> (None, w2)
           | (WaitError e, w2) \<Rightarrow> (Some (Wrap ''error waiting for container to stop'' e), w2)
           | (WaitContextDone, w2) \<Rightarrow> (ctx w2, w2)))"

definition RemoveContainer ::
  "'d DockerClient \<Rightarrow> 'd ctx \<Rightarrow> string \<Rightarrow> bool \<Rightarrow> 'd world \<Rightarrow> error option \<times> 'd world" where
  "RemoveContainer cli ctx containerID force w =
     (case ext_run (cl_ContainerRemove cli ctx containerID True force) w of
        (Some e, w1) \<Rightarrow> (Some (Wrap ''failed to remove container'' e), w1)
      | (None, w1) \<Rightarrow> (None, w1))"

definition inspect_sshPort :: "dk_ContainerJSON \<Rightarrow> int" where
  "inspect_sshPort inspect =
     (case dk_NetworkSettings inspect of
        Some (Some ports) \<Rightarrow>
          (case map_of ports ''22/tcp'' of
             Some (b # _) \<Rightarrow> (case Atoi (dk_HostPort b) of Some port \<Rightarrow> port | None \<Rightarrow> 0)
           | _ \<Rightarrow> 0)
      | _ \<Rightarrow> 0)"

definition inspect_info :: "dk_ContainerJSON \<Rightarrow> ContainerInfo" where
  "inspect_info inspect =
     \<lparr>ci_ContainerID = dk_ID inspect,
      ci_SSHPort = inspect_sshPort inspect,
      ci_State = (case dk_State_ptr inspect of Some st \<Rightarrow> dk_Status st | None \<Rightarrow> ''''),
      ci_Health = (case dk_State_ptr inspect of
                     Some st \<Rightarrow> (case dk_Health st of Some h \<Rightarrow> h | None \<Rightarrow> '''') | None \<Rightarrow> '''')\<rparr>"

definition InspectContainer ::
  "'d DockerClient \<Rightarrow> 'd ctx \<Rightarrow> string \<Rightarrow> 'd world \<Rightarrow> (error + ContainerInfo) \<times> 'd world" where
  "InspectContainer cli ctx containerID w =
     (case ext_run (cl_ContainerInspect cli ctx containerID) w of
        (Inl e, w1) \<Rightarrow> (Inl (Wrap ''failed to inspect container'' e), w1)
      | (Inr inspect, w1) \<Rightarrow> (Inr (inspect_info inspect), w1))"

text \<open>
  \<open>NewDockerService\<close>: the client comes from the SDK's constructor, the argument \<open>newClient\<close>.
\<close>

definition NewDockerService ::
  "('d, error + 'd DockerClient) ext_call \<Rightarrow> 'd world \<Rightarrow> (error + 'd DockerClient) \<times> 'd world" where
  "NewDockerService newClient w =
     (case ext_run newClient w of
        (Inl e, w1) \<Rightarrow> (Inl (Wrap ''failed to create docker client'' e), w1)
      | (Inr cli, w1) \<Rightarrow> (Inr cli, w1))"

text \<open>\<open>Close\<close>: a service whose client is nil closes nothing.\<close>

definition Close :: "'d DockerClient option \<Rightarrow> 'd world \<Rightarrow> error option \<times> 'd world" where
  "Close cli w = (case cli of Some c \<Rightarrow> ext_run (cl_Close c) w | None \<Rightarrow> (None, w))"

section \<open>The service as the interface its clients see\<close>

definition DockerService_iface :: "'d retry \<Rightarrow> 'd DockerClient \<Rightarrow> 'd DockerServiceInterface" where
  "DockerService_iface retry cli =
     \<lparr>di_CreateContainer = CreateContainer cli, di_StartContainer = StartContainer retry cli,
      di_StopContainer = StopContainer cli, di_RemoveContainer = RemoveContainer cli,
      di_InspectContainer = InspectContainer cli\<rparr>"

lemma DockerService_iface_simps [simp]:
  "di_CreateContainer (DockerService_iface retry cli) = CreateContainer cli"
  "di_StartContainer (DockerService_iface retry cli) = StartContainer retry cli"
  "di_StopContainer (DockerService_iface retry cli) = StopContainer cli"
  "di_RemoveContainer (DockerService_iface retry cli) = RemoveContainer cli"
  "di_InspectContainer (DockerService_iface retry cli) = InspectContainer cli"
  by (simp_all add: DockerService_iface_def)

interpretation ds: docker_service "DockerService_iface retry cli"
proof (unfold_locales, goal_cases)
  case (1 ctx cfg w cid e w')
  then show ?case
    by (auto simp: CreateContainer_def split: prod.splits option.splits sum.splits)
next
  case (2 ctx cid w r w')
  then show ?case
    by (auto simp: InspectContainer_def split: prod.splits sum.splits dest!: ext_run_clock)
qed

section \<open>What the service asks of Docker, and reads back\<close>

text \<open>
  The port an inspection reports is the port the container was created with: when Docker reports
  the bindings the service asked for, \<open>InspectContainer\<close> parses the decimal text back to the same
  64-bit port number.
\<close>

lemma published_port_round_trip:
  assumes "\<not> cc_UseImageEntrypoint cfg" and "- (2 ^ 63) \<le> cc_SSHPort cfg" and "cc_SSHPort cfg < 2 ^ 63"
    and "ext_run (cl_ContainerInspect cli ctx cid) w = (Inr ins, w')"
    and "dk_NetworkSettings ins = Some (Some (dk_PortBindings (hostConfig cfg)))"
  shows "\<exists>info. InspectContainer cli ctx cid w = (Inr info, w') \<and> ci_SSHPort info = cc_SSHPort cfg"
  using assms by (simp add: InspectContainer_def inspect_info_def inspect_sshPort_def hostConfig_def Atoi_Itoa)

text \<open>
  A container asked for with a GPU's UUID, which is what the configuration documents, sees every
  GPU of the host: \<open>NVIDIA_VISIBLE_DEVICES\<close> is set to \<open>all\<close> and to nothing else.
\<close>

lemma gpu_uuid_exposes_every_gpu:
  assumes "HasPrefix (cc_GPUDeviceID cfg) ''GPU-''"
  shows "filter (\<lambda>v. HasPrefix v ''NVIDIA_VISIBLE_DEVICES='') (dk_Env (containerConfig cfg)) =
           [''NVIDIA_VISIBLE_DEVICES=all'']"
proof -
  have "HasPrefix (''SSH_PASSWORD='' @ p) ''NVIDIA_VISIBLE_DEVICES='' \<longleftrightarrow> False" for p
    by (simp add: HasPrefix_def)
  with assms show ?thesis
    by (simp add: containerConfig_def gpuDevice_def isGPUUUID_def) (simp add: HasPrefix_def)
qed

text \<open>
  The CPU limit the service sends is the requested number of CPUs in units of \<open>10 ^ -9\<close>
  exactly when the request is between \<open>-9223372036\<close> and \<open>9223372036\<close>; outside, the 64-bit
  product wraps around.
\<close>

lemma cpu_limit_exact_iff:
  "sint (dk_NanoCPUs (hostConfig cfg)) = sint (cc_CPUCount cfg) * 1000000000 \<longleftrightarrow>
     - 9223372036 \<le> sint (cc_CPUCount cfg) \<and> sint (cc_CPUCount cfg) \<le> 9223372036"
  using sint_mult_exact_iff [of "cc_CPUCount cfg" 1000000000] by (auto simp: hostConfig_def)

text \<open>
  What the backoff library documents of \<open>Retry\<close>: it calls the operation, ends without error as soon
  as a call succeeds, and otherwise either gives up with an error or, after a pause, calls it again.
\<close>

inductive retry_run ::
  "('d world \<Rightarrow> error option \<times> 'd world) \<Rightarrow> 'd world \<Rightarrow> error option \<Rightarrow> 'd world \<Rightarrow> bool" for operation where
  retry_done: "operation w = (None, w') \<Longrightarrow> retry_run operation w None w'"
| retry_gives_up: "operation w = (Some e, w') \<Longrightarrow> retry_run operation w (Some e') w'"
| retry_again: "operation w = (Some e, w1) \<Longrightarrow> retry_run operation (w1\<lparr>w_clock := w_clock w1 + int pause\<rparr>) r w' \<Longrightarrow>
    retry_run operation w r w'"

definition retry_spec :: "'d retry \<Rightarrow> bool" where
  "retry_spec retry \<longleftrightarrow>
     (\<forall>cfg ctx operation w. retry_run operation w (fst (retry cfg ctx operation w)) (snd (retry cfg ctx operation w)))"

lemma retry_run_None: "retry_run operation w None w' \<Longrightarrow> \<exists>w1. w_clock w \<le> w_clock w1 \<and> operation w1 = (None, w')"
  if "\<And>w r w'. operation w = (r, w') \<Longrightarrow> w_clock w \<le> w_clock w'"
proof (induction w "None :: error option" w' rule: retry_run.induct)
  case (retry_done w w')
  then show ?case by blast
next
  case (retry_again w e w1 pause w')
  from retry_again.hyps(3) obtain w2 where "w_clock w1 + int pause \<le> w_clock w2" "operation w2 = (None, w')"
    by auto
  with that [OF retry_again.hyps(1)] show ?case by (intro exI [of _ w2]) simp
qed

lemma start_operation_clock: "start_operation cli ctx cid w = (r, w') \<Longrightarrow> w_clock w \<le> w_clock w'"
  by (auto simp: start_operation_def split: prod.split_asm option.split_asm dest!: ext_run_clock)

text \<open>
  \<open>StartContainer\<close> reports success only when its last attempt was a call of \<open>ContainerStart\<close>
  that Docker answered without an error, made no earlier than the call itself; and an error it
  reports says that it comes after retries.
\<close>

lemma StartContainer_success_is_real:
  assumes "retry_spec retry" and "StartContainer retry cli ctx cid w = (r, w')"
  shows "case r of
      None \<Rightarrow> \<exists>w1. w_clock w \<le> w_clock w1 \<and> ext_run (cl_ContainerStart cli ctx cid) w1 = (None, w')
    | Some e \<Rightarrow> \<exists>e'. e = Wrap ''failed to start container after retries'' e'"
proof (cases "retry start_backoff ctx (start_operation cli ctx cid) w")
  case (Pair r1 w1)
  show ?thesis
  proof (cases r1)
    case None
    with assms(1) Pair have "retry_run (start_operation cli ctx cid) w None w1"
      unfolding retry_spec_def by (metis fst_conv snd_conv)
    then obtain w2 where w2: "w_clock w \<le> w_clock w2" "start_operation cli ctx cid w2 = (None, w1)"
      using retry_run_None [of "start_operation cli ctx cid" w w1] start_operation_clock by blast
    then have "ext_run (cl_ContainerStart cli ctx cid) w2 = (None, w1)"
      by (auto simp: start_operation_def split: prod.split_asm option.split_asm)
    with w2 None Pair assms(2) show ?thesis by (auto simp: StartContainer_def)
  next
    case (Some e)
    with Pair assms(2) show ?thesis by (auto simp: StartContainer_def)
  qed
qed

section \<open>A Docker daemon for the witnesses\<close>

text \<open>Every call succeeds; the one container is running, with its port 22 published as 30000.\<close>

definition demo_inspect :: "string \<Rightarrow> dk_ContainerJSON" where
  "demo_inspect cid =
     \<lparr>dk_ID = cid,
      dk_NetworkSettings = Some (Some [(''22/tcp'', [\<lparr>dk_HostIP = ''0.0.0.0'', dk_HostPort = ''30000''\<rparr>])]),
      dk_State_ptr = Some \<lparr>dk_Status = ''running'', dk_Health = None\<rparr>\<rparr>"

definition demo_cli :: "unit DockerClient" where
  "demo_cli =
     \<lparr>cl_ContainerCreate = (\<lambda>ctx cfg hc name w. (Inr ''container-123'', 0, ())),
      cl_ContainerStart = (\<lambda>ctx cid w. (None, 0, ())),
      cl_ContainerStop = (\<lambda>ctx cid t w. (None, 0, ())),
      cl_ContainerRemove = (\<lambda>ctx cid v f w. (None, 0, ())),
      cl_ContainerInspect = (\<lambda>ctx cid w. (Inr (demo_inspect cid), 0, ())),
      cl_ContainerWait = (\<lambda>ctx cid w. (WaitResponse, 0, ())),
      cl_ImagePull = (\<lambda>ctx im w. (Inr None, 0, ())),
      cl_ImageInspect = (\<lambda>ctx im w. (None, 0, ())),
      cl_Close = (\<lambda>w. (None, 0, ()))\<rparr>"

definition demo_retry :: "'d retry" where
  "demo_retry cfg ctx operation w = operation w"

lemma demo_retry_spec: "retry_spec demo_retry"
  unfolding retry_spec_def demo_retry_def
proof (intro allI, goal_cases)
  case (1 cfg ctx operation w)
  then show ?case
    by (cases "operation w"; cases "fst (operation w)") (auto intro: retry_run.intros)
qed

end
