(* ===== verification/Rental_Node.thy ===== *)
theory Rental_Node
  imports Rental_Concurrency Docker_Service Rental_API
begin

text \<open>
  The rental executor as \<open>cmd/node/main.go\<close> puts it together: on the Docker service and the port
  manager of this repository, and offered to the HTTP handlers and the node daemon through
  \<open>RentalExecutorInterface\<close>.  The interpretations here discharge the laws the executor and the
  handlers rely on.
\<close>

interpretation rn: rental_backend "DockerService_iface retry cli" PortManager_iface pm_wf held
  by unfold_locales

interpretation rnr: rental_backend "DockerService_iface retry cli" PortManager_iface "pm_in lo hi" held
  by unfold_locales

section \<open>The executor behind its interface\<close>

text \<open>The state is the executor and the cleanup jobs that its \<open>StopRental\<close> has scheduled.\<close>

type_synonym 'p executor_state = "'p RentalExecutor \<times> cleanup_job list"

definition executor_iface ::
  "'d DockerServiceInterface \<Rightarrow> 'p PortManagerInterface \<Rightarrow> ('p executor_state, 'd) RentalExecutorInterface" where
  "executor_iface D P =
     \<lparr>ei_StartRental = (\<lambda>ctx req (re, jobs) w.
        map_option (\<lambda>(r, re', w'). (r, (re', jobs), w')) (StartRental D P ctx req re w)),
      ei_StopRental = (\<lambda>ctx sid (re, jobs) w.
        case StopRental D ctx sid re w of
          (r, job, re', w') \<Rightarrow> (r, (re', jobs @ (case job of None \<Rightarrow> [] | Some j \<Rightarrow> [j])), w')),
      ei_GetRentalStatus = (\<lambda>sid (re, jobs). GetRentalStatus sid re)\<rparr>"

definition active_rentals :: "'p executor_state \<Rightarrow> string \<rightharpoonup> RentalState" where
  "active_rentals e = re_activeRentals (fst e)"

lemma cleanupOnError_keeps_active:
  "cleanupOnError D P cid p re w = (re', w') \<Longrightarrow> re_activeRentals re' = re_activeRentals re"
  using cleanupOnError_active [of D P cid p re w] by simp

lemma StartRental_active_error:
  "StartRental D P ctx req re w = Some (Inl e, re', w') \<Longrightarrow> re_activeRentals re' = re_activeRentals re"
  by (auto simp: StartRental_def Let_def dest: cleanupOnError_keeps_active
      split: if_splits option.split_asm prod.split_asm sum.split_asm)

lemma StartRental_active_ok:
  assumes "StartRental D P ctx req re w = Some (Inr info, re', w')"
  shows "re_activeRentals re (sr_SessionID req) = None \<and>
    (\<exists>p cid. info = connection_info req p cid \<and>
       re_activeRentals re' = (re_activeRentals re)(sr_SessionID req \<mapsto> rental_state req p cid (w_clock w')))"
  using assms
  by (auto simp: StartRental_def Let_def split: if_splits option.split_asm prod.split_asm sum.split_asm) blast

interpretation svc: rental_service "executor_iface D P" active_rentals
proof (unfold_locales, goal_cases)
  case (1 e req ctx w)
  then show ?case by (cases e) (simp add: executor_iface_def active_rentals_def StartRental_def)
next
  case (2 ctx req e w err e' w')
  then show ?case
    by (cases e) (auto simp: executor_iface_def active_rentals_def StartRental_active_error)
next
  case (3 ctx req e w info e' w')
  obtain re jobs where e: "e = (re, jobs)" by (cases e)
  with 3 obtain re' where "StartRental D P ctx req re w = Some (Inr info, re', w')" "e' = (re', jobs)"
    by (auto simp: executor_iface_def)
  moreover from StartRental_active_ok [OF this(1)] obtain p cid where "info = connection_info req p cid"
      "re_activeRentals re (sr_SessionID req) = None"
      "re_activeRentals re' = (re_activeRentals re)(sr_SessionID req \<mapsto> rental_state req p cid (w_clock w'))"
    by blast
  ultimately show ?case
    by (auto simp: e active_rentals_def connection_info_def)
next
  case (4 e sid ctx w)
  then show ?case by (cases e) (simp add: executor_iface_def active_rentals_def StopRental_def)
next
  case (5 e sid st ctx w r e' w')
  then show ?case
    by (cases e) (auto simp: executor_iface_def active_rentals_def StopRental_def Let_def
        split: prod.split_asm option.split_asm)
next
  case (6 sid e)
  then show ?case by (cases e) (simp add: executor_iface_def active_rentals_def GetRentalStatus_def)
qed

section \<open>The executor on the node's own services\<close>

abbreviation demo_docker :: "unit DockerServiceInterface" where
  "demo_docker \<equiv> DockerService_iface demo_retry demo_cli"

lemmas demo_docker_defs = CreateContainer_def StartContainer_def StopContainer_def RemoveContainer_def
  InspectContainer_def ensureImage_def start_operation_def demo_retry_def demo_cli_def demo_inspect_def
  inspect_info_def go_eval quiet_world_def

lemma demo_docker_starts:
  assumes "ctx quiet_world = None" and "re_activeRentals re (sr_SessionID req) = None" and "0 \<le> re_healthTimeout re"
    and "pi_Allocate PortManager_iface 0 (sr_SessionID req) (re_portManager re) = (Inr p, pm)"
  shows "StartRental demo_docker PortManager_iface ctx req re quiet_world =
     Some (Inr (connection_info req p ''container-123''),
           re\<lparr>re_portManager := pm,
             re_activeRentals := (re_activeRentals re)(sr_SessionID req \<mapsto> rental_state req p ''container-123'' 0)\<rparr>, quiet_world)"
proof -
  have "waitForHealth demo_docker ctx cid (re\<lparr>re_portManager := pm\<rparr>) quiet_world = Some (None, quiet_world)" for cid
    unfolding waitForHealth_def using assms(1,3)
    by (subst health_loop.simps) (simp add: health_verdict_def demo_docker_defs)
  then show ?thesis
    using assms(2,4) by (simp add: StartRental_def demo_docker_defs Let_def)
qed

lemma demo_docker_started:
  assumes "ctx quiet_world = None" and "sr_SessionID req = ''s1''"
  shows "StartRental demo_docker PortManager_iface ctx req node_executor quiet_world =
     Some (Inr (connection_info req 30000 ''container-123''),
           node_executor\<lparr>re_portManager := assign 0 ''s1'' 30000 node_ports,
             re_activeRentals := [''s1'' \<mapsto> rental_state req 30000 ''container-123'' 0]\<rparr>, quiet_world)"
  using demo_docker_starts [of ctx node_executor req 30000 "assign 0 ''s1'' 30000 node_ports"]
    allocate_two(1) [of 0 "''s1''"] assms by simp

lemma demo_docker_start:
  "StartRental demo_docker PortManager_iface ctx_Background demo_request node_executor quiet_world =
     Some (Inr (connection_info demo_request 30000 ''container-123''), demo_running, quiet_world)"
  using demo_docker_started [of ctx_Background demo_request]
  by (simp add: ctx_Background_def demo_running_def demo_request_def)

lemma demo_executor_inv: "executor_inv pm_wf held demo_running"
proof -
  have "pm_wf (assign 0 ''s1'' 30000 node_ports)" by (simp add: pm_wf_def pm_eval)
  then show ?thesis
    by (simp add: executor_inv_def demo_running_def held_def demo_request_def)
qed

text \<open>
  C2. A call of \<open>StartRental\<close> that fails, at whichever step, leaves nothing behind: the table of
  active rentals is as before, and every port is held by the same session as before, so the port
  the call had allocated has been given back.
\<close>

theorem failed_start_leaves_nothing:
  assumes "pm_wf (re_portManager re)"
    and "StartRental (DockerService_iface retry cli) PortManager_iface ctx req re w = Some (Inl e, re', w')"
  shows "pm_wf (re_portManager re') \<and> re_activeRentals re' = re_activeRentals re \<and>
         held (re_portManager re') = held (re_portManager re)"
  using rn.StartRental_error [OF assms] .

definition failing_cli :: "unit DockerClient" where
  "failing_cli = demo_cli\<lparr>cl_ContainerCreate := (\<lambda>ctx cfg hc name w. (Inl (ErrorString ''no space left''), 7, ()))\<rparr>"

theorem failed_start_leaves_nothing_witness:
  "\<exists>e re' w'. StartRental (DockerService_iface demo_retry failing_cli) PortManager_iface ctx_Background demo_request
       node_executor quiet_world = Some (Inl e, re', w') \<and>
     re_portManager re' \<noteq> node_ports \<and> held (re_portManager re') = held node_ports"
proof -
  let ?call = "StartRental (DockerService_iface demo_retry failing_cli) PortManager_iface ctx_Background demo_request
       node_executor quiet_world"
  obtain e re' w' where run: "?call = Some (Inl e, re', w')"
      and pm: "re_portManager re' = snd (Release 7 30000 (assign 0 ''s1'' 30000 node_ports))"
    using allocate_two(1) [of 0 "''s1''"]
    by (simp add: StartRental_def failing_cli_def demo_docker_defs cleanupOnError_def demo_request_def Let_def)
  have "pm_wf (re_portManager node_executor)" by (simp add: valid_grace_def maxDuration_def)
  from failed_start_leaves_nothing [OF this run] have "held (re_portManager re') = held node_ports" by simp
  moreover have "pm_allocations (re_portManager re') 30000 \<noteq> pm_allocations node_ports 30000"
    unfolding pm by (simp add: pm_eval)
  ultimately show ?thesis using run by metis
qed

text \<open>
  C6. A call of \<open>StartRental\<close> that succeeds has found the session free and the container healthy:
  the connection information names a port that nobody held before and that the session holds now,
  and the rental recorded for the session, the only change to the table, is the one described to
  the caller.
\<close>

theorem successful_start_is_recorded:
  assumes "pm_wf (re_portManager re)"
    and "StartRental (DockerService_iface retry cli) PortManager_iface ctx req re w = Some (Inr info, re', w')"
  shows "\<exists>p cid deadline. info = connection_info req p cid \<and>
     re_activeRentals re (sr_SessionID req) = None \<and> held (re_portManager re) p = None \<and>
     held (re_portManager re') = (held (re_portManager re))(p \<mapsto> sr_SessionID req) \<and>
     re_activeRentals re' = (re_activeRentals re)(sr_SessionID req \<mapsto> rental_state req p cid (w_clock w')) \<and>
     found_healthy (DockerService_iface retry cli) deadline ctx cid w'"
  by (rule rn.StartRental_success [OF assms]) blast

theorem successful_start_is_recorded_witness:
  "\<exists>p cid. connection_info demo_request 30000 ''container-123'' = connection_info demo_request p cid \<and>
     held node_ports p = None \<and> held (re_portManager demo_running) = (held node_ports)(p \<mapsto> ''s1'')"
proof -
  have "pm_wf (re_portManager node_executor)" by (simp add: valid_grace_def maxDuration_def)
  from successful_start_is_recorded [OF this demo_docker_start] show ?thesis
    by (auto simp: demo_request_def)
qed

text \<open>
  C7. \<open>StartRental\<close> always returns, whatever Docker answers: the health check is bounded by its
  deadline, since every poll of a container that is not ready yet sleeps for a positive interval.
\<close>

theorem start_always_returns:
  assumes "0 < re_healthInterval re"
  shows "\<exists>r re' w'. StartRental (DockerService_iface retry cli) PortManager_iface ctx req re w = Some (r, re', w')"
  using rn.StartRental_returns [OF assms, of retry cli ctx req w] by auto

theorem start_always_returns_witness:
  "\<exists>r re' w'. StartRental demo_docker PortManager_iface ctx_Background demo_request node_executor quiet_world =
     Some (r, re', w')"
  by (rule start_always_returns) simp

text \<open>
  C8. The executor's invariant, that the table is keyed by session and every active rental's port is
  held by its session, is kept by \<open>StartRental\<close>, by \<open>StopRental\<close>, and by a cleanup job whose
  rental is still the recorded one; hence two active rentals never have the same port.
\<close>

theorem executor_invariant_kept:
  assumes "executor_inv pm_wf held re"
  shows "(StartRental (DockerService_iface retry cli) PortManager_iface ctx req re w = Some (r, re1, w1) \<longrightarrow>
            executor_inv pm_wf held re1) \<and>
         (StopRental (DockerService_iface retry cli) ctx sid re w = (r', job, re2, w2) \<longrightarrow>
            executor_inv pm_wf held re2 \<and> (\<forall>j. job = Some j \<longrightarrow> job_current re2 j)) \<and>
         (job_current re j \<longrightarrow>
            executor_inv pm_wf held (fst (scheduleCleanup (DockerService_iface retry cli) PortManager_iface j re w))) \<and>
         (\<forall>s1 s2 st1 st2. re_activeRentals re s1 = Some st1 \<and> re_activeRentals re s2 = Some st2 \<and>
            rs_SSHPort st1 = rs_SSHPort st2 \<longrightarrow> s1 = s2)"
proof (intro conjI impI allI, goal_cases)
  case 1
  then show ?case using rn.StartRental_inv [OF assms] by blast
next
  case 2
  then show ?case using rn.StopRental_inv [OF assms] by blast
next
  case (3 j)
  then show ?case
    by (auto simp: StopRental_def Let_def job_current_def split: option.split_asm prod.split_asm)
next
  case 4
  then show ?case by (simp add: scheduleCleanup_def rn.cleanup_inv assms)
next
  case 5
  then show ?case using executor_inv_ports_distinct [OF assms] by blast
qed

theorem executor_invariant_kept_witness:
  "executor_inv pm_wf held (fst (scheduleCleanup demo_docker PortManager_iface
     \<lparr>cj_sessionID = ''s1'', cj_containerID = ''container-123'', cj_sshPort = 30000\<rparr> demo_running quiet_world))"
proof -
  have "job_current demo_running \<lparr>cj_sessionID = ''s1'', cj_containerID = ''container-123'', cj_sshPort = 30000\<rparr>"
    by (simp add: job_current_def demo_running_def)
  with executor_invariant_kept [OF demo_executor_inv] show ?thesis by blast
qed

lemma StopRental_done:
  assumes "StopRental D ctx sid re w = (None, job, re', w')"
  obtains st where "re_activeRentals re sid = Some st" "job = Some (stop_job sid st)"
    "re' = re\<lparr>re_activeRentals := (re_activeRentals re)(sid \<mapsto> st\<lparr>rs_StoppedAt := Some (w_clock w)\<rparr>)\<rparr>"
  using assms
  by (auto simp: StopRental_def Let_def stop_job_def split: option.split_asm prod.split_asm)

lemma RemoveContainer_clock: "w_clock w \<le> w_clock (snd (RemoveContainer cli ctx cid force w))"
  by (auto simp: RemoveContainer_def split: prod.split option.split dest!: ext_run_clock)

text \<open>A cleanup job of a port that is held records the release no earlier than the end of its sleep.\<close>

lemma scheduleCleanup_release_time:
  assumes "held (re_portManager re) (cj_sshPort job) = Some sid"
  shows "\<exists>alloc t. pm_allocations (re_portManager (fst (scheduleCleanup (DockerService_iface retry cli)
             PortManager_iface job re w))) (cj_sshPort job) = Some alloc \<and>
           al_ReleasedAt alloc = Some t \<and> w_clock w + re_gracePeriod re \<le> t"
proof -
  let ?w = "time_Sleep (re_gracePeriod re) w"
  let ?t = "w_clock (snd (RemoveContainer cli ctx_Background (cj_containerID job) True ?w))"
  have t: "w_clock w + re_gracePeriod re \<le> ?t"
    using time_Sleep_clock(1) [of w "re_gracePeriod re"] RemoveContainer_clock order_trans by blast
  have "re_portManager (fst (scheduleCleanup (DockerService_iface retry cli) PortManager_iface job re w)) =
      snd (Release ?t (cj_sshPort job) (re_portManager re))"
    by (simp add: scheduleCleanup_def cleanup_after_sleep_def Let_def)
  with t assms show ?thesis
    by (cases rule: Release_cases [of "re_portManager re" "cj_sshPort job" ?t]) auto
qed

text \<open>
  C4. The life of a rental: a successful start, a successful stop and the cleanup it schedules bring
  the executor back to where it was.  After the stop the rental is still reported, as stopped;
  after the cleanup the session is unknown again, every port is held as before the start, and the
  rental's port was released no earlier than one grace period after the cleanup goroutine began.
\<close>

theorem rental_lifecycle:
  assumes wf: "pm_wf (re_portManager re)"
    and start: "StartRental (DockerService_iface retry cli) PortManager_iface ctx req re w = Some (Inr info, re1, w1)"
    and stop: "StopRental (DockerService_iface retry cli) ctx' (sr_SessionID req) re1 w2 = (None, job, re2, w3)"
  shows "\<exists>j st. job = Some j \<and>
    GetRentalStatus (sr_SessionID req) re2 = Inr st \<and> rs_StoppedAt st = Some (w_clock w2) \<and>
    (let re3 = fst (scheduleCleanup (DockerService_iface retry cli) PortManager_iface j re2 w4) in
       GetRentalStatus (sr_SessionID req) re3 = Inl ErrSessionNotFound \<and>
       re_activeRentals re3 = re_activeRentals re \<and> held (re_portManager re3) = held (re_portManager re) \<and>
       (\<exists>alloc t. pm_allocations (re_portManager re3) (cx_Port info) = Some alloc \<and>
          al_ReleasedAt alloc = Some t \<and> w_clock w4 + re_gracePeriod re2 \<le> t))"
proof (rule rn.StartRental_success [OF wf start], goal_cases)
  case (1 p cid d)
  let ?st = "rental_state req p cid (w_clock w1)" and ?sid = "sr_SessionID req"
  from stop obtain st where st: "re_activeRentals re1 ?sid = Some st" "job = Some (stop_job ?sid st)"
      "re2 = re1\<lparr>re_activeRentals := (re_activeRentals re1)(?sid \<mapsto> st\<lparr>rs_StoppedAt := Some (w_clock w2)\<rparr>)\<rparr>"
    by (rule StopRental_done)
  with 1 have st': "st = ?st" by simp
  let ?j = "stop_job ?sid ?st"
  let ?re3 = "fst (scheduleCleanup (DockerService_iface retry cli) PortManager_iface ?j re2 w4)"
  have j: "cj_sessionID ?j = ?sid" "cj_sshPort ?j = p" by (simp_all add: stop_job_def)
  have "re_activeRentals ?re3 = (re_activeRentals re2)(?sid := None)"
    by (simp add: scheduleCleanup_def cleanup_after_sleep_def Let_def j)
  then have act: "re_activeRentals ?re3 = re_activeRentals re" using st 1 by (simp add: fun_upd_idem)
  have "held (re_portManager ?re3) = (held (re_portManager re1))(p := None)"
    using rn.cleanup_ports [of re2 retry cli ?j "time_Sleep (re_gracePeriod re2) w4"] st 1
    by (simp add: scheduleCleanup_def j)
  then have ports: "held (re_portManager ?re3) = held (re_portManager re)" using 1 by (simp add: fun_upd_idem)
  have "held (re_portManager re2) (cj_sshPort ?j) = Some ?sid"
    unfolding j using st(3) 1 by simp
  from scheduleCleanup_release_time [OF this, of retry cli w4] act ports st st' 1 show ?case
    by (simp add: j GetRentalStatus_def Let_def connection_info_def)
qed

theorem rental_lifecycle_witness:
  "\<exists>j re2 w3. StopRental demo_docker ctx_Background ''s1'' demo_running quiet_world = (None, Some j, re2, w3) \<and>
     GetRentalStatus ''s1'' (fst (scheduleCleanup demo_docker PortManager_iface j re2 w3)) = Inl ErrSessionNotFound"
proof -
  have wf: "pm_wf (re_portManager node_executor)" by (simp add: valid_grace_def maxDuration_def)
  have sid: "sr_SessionID demo_request = ''s1''" by (simp add: demo_request_def)
  obtain j re2 w3 where
    stop: "StopRental demo_docker ctx_Background (sr_SessionID demo_request) demo_running quiet_world = (None, Some j, re2, w3)"
    by (simp add: StopRental_def demo_running_def demo_docker_defs sid Let_def)
  from rental_lifecycle [OF wf demo_docker_start stop, of w3] stop show ?thesis
    by (auto simp: sid Let_def)
qed

text \<open>
  C29. \<open>StopRental\<close> does not look at the mark of a rental that is already stopped.  A second stop
  during the grace period is answered like the first and schedules a second cleanup of the same
  container and port.  When the first cleanup is over and the session is rented again before the
  second, the second one deletes the record of the new rental: it can be neither queried nor
  stopped any more, and its port stays held for the session, or, if the new rental was given the
  old one's port, counts as released under the running rental.
\<close>

theorem second_stop_forgets_the_next_rental:
  assumes inv: "executor_inv pm_wf held re"
    and stops: "StopRental (DockerService_iface retry cli) ctx1 sid re w0 = (None, Some job1, re1, w1)"
      "StopRental (DockerService_iface retry cli) ctx2 sid re1 w2 = (None, Some job2, re2, w3)"
    and first: "cleanup_after_sleep (DockerService_iface retry cli) PortManager_iface job1 re2 w4 = (re3, w5)"
    and start: "StartRental (DockerService_iface retry cli) PortManager_iface ctx3 req re3 w6 = Some (Inr info, re4, w7)"
      "sr_SessionID req = sid"
    and second: "cleanup_after_sleep (DockerService_iface retry cli) PortManager_iface job2 re4 w8 = (re5, w9)"
  shows "(\<exists>st. re_activeRentals re4 sid = Some st \<and> rs_StoppedAt st = None \<and> rs_SSHPort st = cx_Port info) \<and>
    GetRentalStatus sid re5 = Inl ErrSessionNotFound \<and>
    StopRental (DockerService_iface retry cli) ctx sid re5 w = (Some ErrSessionNotFound, None, re5, w) \<and>
    held (re_portManager re5) (cx_Port info) = (if cx_Port info = cj_sshPort job1 then None else Some sid)"
proof -
  obtain st where job1: "job1 = stop_job sid st"
    and re1: "re1 = re\<lparr>re_activeRentals := (re_activeRentals re)(sid \<mapsto> st\<lparr>rs_StoppedAt := Some (w_clock w0)\<rparr>)\<rparr>"
    using StopRental_done [OF stops(1)] by auto
  obtain st2 where "re_activeRentals re1 sid = Some st2" and job2: "job2 = stop_job sid st2"
    and re2: "re2 = re1\<lparr>re_activeRentals := (re_activeRentals re1)(sid \<mapsto> st2\<lparr>rs_StoppedAt := Some (w_clock w2)\<rparr>)\<rparr>"
    using StopRental_done [OF stops(2)] by auto
  with job1 re1 have same: "job2 = job1" "cj_sessionID job1 = sid" by (auto simp: stop_job_def)
  have "pm_wf (re_portManager re2)" using inv by (simp add: re1 re2 executor_inv_def)
  then have "pm_wf (re_portManager re3)" using rn.cleanup_ports [of re2 retry cli job1 w4] first by simp
  from rn.StartRental_success [OF this start(1)] obtain p cid where
    info: "info = connection_info req p cid" and pm: "pm_wf (re_portManager re4)"
    and held: "held (re_portManager re4) = (held (re_portManager re3))(p \<mapsto> sr_SessionID req)"
    and active: "re_activeRentals re4 = (re_activeRentals re3)(sr_SessionID req \<mapsto> rental_state req p cid (w_clock w7))"
    by metis
  have held5: "held (re_portManager re5) = (held (re_portManager re4))(cj_sshPort job2 := None)"
    using rn.cleanup_ports [OF pm, of retry cli job2 w8] second by simp
  have gone: "re_activeRentals re5 sid = None"
    using second same by (auto simp: cleanup_after_sleep_def Let_def)
  have new: "re_activeRentals re4 sid = Some (rental_state req p cid (w_clock w7))"
    using active start(2) by simp
  show ?thesis
    using new gone held held5 start(2) same
    by (auto simp: info connection_info_def rental_state_def GetRentalStatus_def StopRental_def)
qed

text \<open>The rental of the demonstration request is stopped twice and its session rented again.\<close>

theorem second_stop_forgets_the_next_rental_witness:
  "\<exists>job re2 re3 info re4 re5.
     StopRental demo_docker ctx_Background ''s1'' demo_running quiet_world = (None, Some job, re2, quiet_world) \<and>
     StopRental demo_docker ctx_Background ''s1'' re2 quiet_world = (None, Some job, re2, quiet_world) \<and>
     cleanup_after_sleep demo_docker PortManager_iface job re2 quiet_world = (re3, quiet_world) \<and>
     StartRental demo_docker PortManager_iface ctx_Background demo_request re3 quiet_world = Some (Inr info, re4, quiet_world) \<and>
     cleanup_after_sleep demo_docker PortManager_iface job re4 quiet_world = (re5, quiet_world) \<and>
     GetRentalStatus ''s1'' re5 = Inl ErrSessionNotFound \<and> held (re_portManager re5) 30001 = Some ''s1''"
proof -
  define job where "job = \<lparr>cj_sessionID = ''s1'', cj_containerID = ''container-123'', cj_sshPort = (30000 :: int)\<rparr>"
  define re2 where "re2 = demo_running\<lparr>re_activeRentals := (re_activeRentals demo_running)
      (''s1'' \<mapsto> (rental_state demo_request 30000 ''container-123'' 0)\<lparr>rs_StoppedAt := Some 0\<rparr>)\<rparr>"
  define pm3 where "pm3 = snd (pi_Release PortManager_iface 0 30000 (assign 0 ''s1'' 30000 node_ports))"
  have sid: "sr_SessionID demo_request = ''s1''" by (simp add: demo_request_def)
  have stop1: "StopRental demo_docker ctx_Background ''s1'' demo_running quiet_world = (None, Some job, re2, quiet_world)"
    by (simp add: StopRental_def demo_running_def demo_docker_defs re2_def job_def rental_state_def Let_def)
  have stop2: "StopRental demo_docker ctx_Background ''s1'' re2 quiet_world = (None, Some job, re2, quiet_world)"
    by (simp add: StopRental_def re2_def demo_docker_defs job_def rental_state_def demo_running_def Let_def)
  obtain re3 where first: "cleanup_after_sleep demo_docker PortManager_iface job re2 quiet_world = (re3, quiet_world)"
    and re3: "re_portManager re3 = pm3" "re_activeRentals re3 = Map.empty" "re_healthTimeout re3 = re_healthTimeout node_executor"
    by (simp add: cleanup_after_sleep_def demo_docker_defs job_def re2_def demo_running_def pm3_def Let_def)
  have "pi_Allocate PortManager_iface 0 ''s1'' pm3 = (Inr 30001, assign 0 ''s1'' 30001 pm3)"
    by (simp add: pm3_def pm_eval)
  then obtain re4 where start: "StartRental demo_docker PortManager_iface ctx_Background demo_request re3 quiet_world =
      Some (Inr (connection_info demo_request 30001 ''container-123''), re4, quiet_world)"
    using demo_docker_starts [of ctx_Background re3 demo_request 30001] by (simp add: ctx_Background_def re3 sid)
  obtain re5 where second: "cleanup_after_sleep demo_docker PortManager_iface job re4 quiet_world = (re5, quiet_world)"
    by (simp add: cleanup_after_sleep_def demo_docker_defs Let_def)
  from second_stop_forgets_the_next_rental [OF demo_executor_inv stop1 stop2 first start sid second]
  have "GetRentalStatus ''s1'' re5 = Inl ErrSessionNotFound" "held (re_portManager re5) 30001 = Some ''s1''"
    by (simp_all add: connection_info_def job_def)
  with stop1 stop2 first start second show ?thesis by blast
qed

text \<open>
  \<open>ListActiveRentals\<close> returns every recorded rental exactly once, in whatever order the runtime
  visits the map.
\<close>

lemma ListActiveRentals_complete:
  assumes "executor_inv pm_wf held re" and "distinct order" and "set order = dom (re_activeRentals re)"
  shows "set (ListActiveRentals order re) = ran (re_activeRentals re) \<and>
         distinct (ListActiveRentals order re) \<and>
         map rs_SessionID (ListActiveRentals order re) = order"
proof -
  have sid: "map rs_SessionID (ListActiveRentals xs re) = xs" if "set xs \<subseteq> dom (re_activeRentals re)" for xs
    using that assms(1) by (induction xs) (auto simp: ListActiveRentals_def executor_inv_def)
  have "set (ListActiveRentals order re) = ran (re_activeRentals re)"
    using assms(3) by (force simp: ListActiveRentals_def ran_def split: option.splits)
  moreover from sid [of order] assms(2,3) have "distinct (map rs_SessionID (ListActiveRentals order re))" by simp
  ultimately show ?thesis using sid [of order] assms(3) distinct_map by blast
qed

section \<open>The HTTP handlers on this executor\<close>

abbreviation node_handler ::
  "'d retry \<Rightarrow> 'd DockerClient \<Rightarrow> string \<Rightarrow> (PortManager executor_state, 'd) RentalHandler" where
  "node_handler retry cli host \<equiv>
     NewRentalHandler (executor_iface (DockerService_iface retry cli) PortManager_iface) host"

abbreviation status_request :: "string \<Rightarrow> 'd http_request" where
  "status_request sid \<equiv> \<lparr>rq_Method = ''GET'', rq_Body = '''', rq_query_sessionId = sid, rq_Context = ctx_Background\<rparr>"

text \<open>
  C23. What a start request answered with 200 promises holds: the session in the answer had no rental
  before and has one now, the answer carries the node's host and the recorded port, and a status
  request for that session is answered with exactly that running rental.
\<close>

theorem start_200_then_status:
  assumes run: "HandleStartRental (node_handler retry cli host) r e w = Some (resp, e', w')"
    and ok: "hr_Status resp = 200"
  shows "\<exists>sid st user cmd. sid \<noteq> '''' \<and> active_rentals e sid = None \<and> active_rentals e' = (active_rentals e)(sid \<mapsto> st) \<and>
     hr_Body resp = StartBody \<lparr>sp_SessionID = sid, sp_SSHHost = host, sp_SSHPort = rs_SSHPort st,
                               sp_SSHUser = user, sp_SSHCommand = cmd\<rparr> \<and>
     rs_StoppedAt st = None \<and>
     HandleGetStatus (node_handler retry cli host) (status_request sid) e' = writeJSON 200 (StateBody st)"
proof (rule svc.HandleStartRental_200 [OF run ok], goal_cases)
  case (1 req st)
  then have "ar_SessionID req \<noteq> ''''"
    by (auto simp: check_start_def split: if_split_asm option.split_asm)
  with 1 svc.HandleGetStatus_result [of "status_request (ar_SessionID req)" "ar_SessionID req"
      "DockerService_iface retry cli" PortManager_iface host e'] show ?case
    by auto
qed

text \<open>
  C24. A start request answered with anything but 200 leaves the table of rentals as it was, and a
  well-formed request for a session that has a rental is answered with 409 and touches neither the
  executor nor Docker.
\<close>

theorem start_refused_changes_nothing:
  assumes run: "HandleStartRental (node_handler retry cli host) r e w = Some (resp, e', w')"
  shows "(hr_Status resp \<noteq> 200 \<longrightarrow> active_rentals e' = active_rentals e) \<and>
     (\<forall>req. check_start r = Inr req \<and> active_rentals e (ar_SessionID req) \<noteq> None \<longrightarrow>
        resp = writeError 409 ''rental already exists'' ''RENTAL_EXISTS'' \<and> e' = e \<and> w' = w) \<and>
     (\<forall>err. check_start r = Inl err \<longrightarrow> resp = err \<and> hr_Status err \<in> {400, 405} \<and> e' = e \<and> w' = w)"
proof (intro conjI impI allI, goal_cases)
  case 1
  then show ?case using svc.HandleStartRental_not_200 [OF run] by blast
next
  case (2 req)
  with run svc.HandleStartRental_duplicate [of r req e "DockerService_iface retry cli" PortManager_iface host w]
  show ?case by simp
next
  case (3 req)
  with run svc.HandleStartRental_duplicate [of r req e "DockerService_iface retry cli" PortManager_iface host w]
  show ?case by simp
next
  case (4 req)
  with run svc.HandleStartRental_duplicate [of r req e "DockerService_iface retry cli" PortManager_iface host w]
  show ?case by simp
next
  case (5 err)
  with run show ?case by (simp add: HandleStartRental_def)
next
  case (6 err)
  then show ?case by (auto simp: check_start_def writeError_def writeJSON_def split: if_split_asm option.split_asm)
next
  case (7 err)
  with run show ?case by (simp add: HandleStartRental_def)
next
  case (8 err)
  with run show ?case by (simp add: HandleStartRental_def)
qed

text \<open>
  C26. A well-formed stop request: for an unknown session it is answered with 404 and changes
  nothing; for a known one the rental is marked as stopped at the current time and stays visible to
  status requests, whether or not Docker managed to stop the container.
\<close>

theorem stop_request_effect:
  assumes "rq_Method r = ''POST''" and "decode_struct store_stop_field '''' (Decode (rq_Body r)) = Some sid" and "sid \<noteq> ''''"
    and run: "HandleStopRental (node_handler retry cli host) r e w = (resp, e', w')"
  shows "case active_rentals e sid of
      None \<Rightarrow> resp = writeError 404 ''rental not found'' ''RENTAL_NOT_FOUND'' \<and> e' = e \<and> w' = w
    | Some st \<Rightarrow>
        active_rentals e' = (active_rentals e)(sid \<mapsto> st\<lparr>rs_StoppedAt := Some (w_clock w)\<rparr>) \<and>
        HandleGetStatus (node_handler retry cli host) (status_request sid) e' =
          writeJSON 200 (StateBody (st\<lparr>rs_StoppedAt := Some (w_clock w)\<rparr>))"
proof (cases "active_rentals e sid")
  case None
  with assms svc.HandleStopRental_unknown [of r sid e "DockerService_iface retry cli" PortManager_iface host w]
  show ?thesis by simp
next
  case (Some st)
  let ?E = "executor_iface (DockerService_iface retry cli) PortManager_iface"
  from assms obtain res where "ei_StopRental ?E (rq_Context r) sid e w = (res, e', w')"
    by (auto simp: HandleStopRental_def NewRentalHandler_def split: prod.split_asm option.split_asm)
  from svc.stop_known [OF Some this] Some assms(3)
    svc.HandleGetStatus_result [of "status_request sid" sid "DockerService_iface retry cli" PortManager_iface host e']
  show ?thesis by simp
qed

section \<open>Witnesses for the handlers\<close>

definition demo_start_json :: json where
  "demo_start_json =
     JObj [(''sessionId'', JStr ''s1''), (''gpuDeviceId'', JStr ''GPU-1''), (''image'', JStr ''ubuntu:22.04''),
       (''sshPassword'', JStr ''pw''), (''memoryBytes'', JNum ''1024''), (''cpuCount'', JNum ''2'')]"

definition demo_stop_json :: json where
  "demo_stop_json = JObj [(''sessionId'', JStr ''s1'')]"

definition demo_start_body :: "unit http_request" where
  "demo_start_body =
     \<lparr>rq_Method = ''POST'', rq_Body = Marshal demo_start_json, rq_query_sessionId = '''', rq_Context = ctx_Background\<rparr>"

definition demo_stop_body :: "unit http_request" where
  "demo_stop_body =
     \<lparr>rq_Method = ''POST'', rq_Body = Marshal demo_stop_json, rq_query_sessionId = '''', rq_Context = ctx_Background\<rparr>"

lemma demo_decode:
  "Decode (Marshal demo_start_json) = Some demo_start_json" "Decode (Marshal demo_stop_json) = Some demo_stop_json"
proof -
  have n: "p_number ''1024'' = Some (''1024'', [])" "p_number ''2'' = Some (''2'', [])" by code_simp+
  have "wf_json demo_start_json" "wf_json demo_stop_json"
    by (simp_all add: demo_start_json_def demo_stop_json_def n)
  moreover have "json_depth demo_start_json \<le> maxNestingDepth" "json_depth demo_stop_json \<le> maxNestingDepth"
    by (simp_all add: demo_start_json_def demo_stop_json_def maxNestingDepth_def)
  ultimately show "Decode (Marshal demo_start_json) = Some demo_start_json" "Decode (Marshal demo_stop_json) = Some demo_stop_json"
    by (simp_all only: Decode_Marshal_wf)
qed

lemma demo_json_check_start:
  assumes "rq_Method r = ''POST''" and "rq_Body r = Marshal demo_start_json"
  shows "check_start r = Inr \<lparr>ar_SessionID = ''s1'', ar_GPUDeviceID = ''GPU-1'', ar_Image = ''ubuntu:22.04'',
     ar_SSHPassword = ''pw'', ar_MemoryBytes = 1024, ar_CPUCount = 2\<rparr>"
proof -
  have "decode_struct store_start_field zero_start_request (Some demo_start_json) =
      Some \<lparr>ar_SessionID = ''s1'', ar_GPUDeviceID = ''GPU-1'', ar_Image = ''ubuntu:22.04'',
        ar_SSHPassword = ''pw'', ar_MemoryBytes = 1024, ar_CPUCount = 2\<rparr>"
    by code_simp
  then show ?thesis by (simp add: check_start_def assms demo_decode)
qed

lemma demo_check_start:
  "check_start demo_start_body = Inr \<lparr>ar_SessionID = ''s1'', ar_GPUDeviceID = ''GPU-1'', ar_Image = ''ubuntu:22.04'',
     ar_SSHPassword = ''pw'', ar_MemoryBytes = 1024, ar_CPUCount = 2\<rparr>"
  by (rule demo_json_check_start) (simp_all add: demo_start_body_def)

lemma demo_handler_start:
  "HandleStartRental (node_handler demo_retry demo_cli ''node.example'') demo_start_body (node_executor, []) quiet_world =
     Some (writeJSON 200 (StartBody \<lparr>sp_SessionID = ''s1'', sp_SSHHost = ''node.example'', sp_SSHPort = 30000,
             sp_SSHUser = ''ubuntu'', sp_SSHCommand = ''ssh -p '' @ Itoa 30000 @ '' ubuntu@node.example''\<rparr>),
           (demo_running, []), quiet_world)"
proof -
  have req: "exec_request \<lparr>ar_SessionID = ''s1'', ar_GPUDeviceID = ''GPU-1'', ar_Image = ''ubuntu:22.04'',
      ar_SSHPassword = ''pw'', ar_MemoryBytes = 1024, ar_CPUCount = 2\<rparr> ''node.example'' = demo_request"
    by (simp add: exec_request_def demo_request_def)
  have "rq_Context demo_start_body = ctx_Background" by (simp add: demo_start_body_def)
  then show ?thesis
    by (simp add: HandleStartRental_def demo_check_start NewRentalHandler_def req executor_iface_def
        demo_docker_start [simplified] connection_info_def) (simp add: demo_request_def)
qed

theorem start_200_then_status_witness:
  "\<exists>sid st. active_rentals (demo_running, []) = (active_rentals (node_executor, []))(sid \<mapsto> st) \<and>
     HandleGetStatus (node_handler demo_retry demo_cli ''node.example'') (status_request sid) (demo_running, []) =
       writeJSON 200 (StateBody st)"
  using start_200_then_status [OF demo_handler_start] by (simp add: writeJSON_def) blast

theorem start_refused_changes_nothing_witness:
  "\<exists>resp. HandleStartRental (node_handler demo_retry demo_cli ''h'') demo_start_body (demo_running, []) quiet_world =
     Some (resp, (demo_running, []), quiet_world) \<and> resp = writeError 409 ''rental already exists'' ''RENTAL_EXISTS''"
proof -
  obtain resp e' w' where run:
      "HandleStartRental (node_handler demo_retry demo_cli ''h'') demo_start_body (demo_running, []) quiet_world =
         Some (resp, e', w')"
    by (simp add: HandleStartRental_def demo_check_start NewRentalHandler_def executor_iface_def exec_request_def
        StartRental_def demo_running_def)
  have "active_rentals (demo_running, []) ''s1'' \<noteq> None" by (simp add: active_rentals_def demo_running_def)
  with start_refused_changes_nothing [OF run] demo_check_start run show ?thesis by auto
qed

theorem stop_request_effect_witness:
  "\<exists>st resp e' w'. active_rentals (demo_running, []) ''s1'' = Some st \<and>
     HandleStopRental (node_handler demo_retry demo_cli ''h'') demo_stop_body (demo_running, []) quiet_world = (resp, e', w') \<and>
     HandleGetStatus (node_handler demo_retry demo_cli ''h'') (status_request ''s1'') e' =
       writeJSON 200 (StateBody (st\<lparr>rs_StoppedAt := Some 0\<rparr>))"
proof -
  obtain st where st: "active_rentals (demo_running, []) ''s1'' = Some st"
    by (simp add: active_rentals_def demo_running_def)
  obtain resp e' w' where run:
      "HandleStopRental (node_handler demo_retry demo_cli ''h'') demo_stop_body (demo_running, []) quiet_world = (resp, e', w')"
    by (metis prod.exhaust)
  have body: "rq_Method demo_stop_body = ''POST''"
      "decode_struct store_stop_field '''' (Decode (rq_Body demo_stop_body)) = Some ''s1''"
    unfolding demo_stop_body_def http_request.simps demo_decode
    by (simp_all add: demo_stop_json_def decode_struct_def store_stop_field_def)
  from stop_request_effect [OF body _ run] st run show ?thesis
    by (simp add: quiet_world_def)
qed

end
