(* ===== verification/Siwe_Auth.thy ===== *)
theory Siwe_Auth
  imports Go_Float
begin

text \<open>
  The Sign-In with Ethereum client of \<open>internal/auth/siwe.go\<close>.  The curve and the hash (package
  \<open>go-ethereum/crypto\<close>) are the record \<open>crypto_lib\<close>, the HTTP client and the Hub behind it the
  record \<open>http_lib\<close>; hexadecimal text and the message itself are modelled.  What a Hub checks of a
  login, reading the message line by line as EIP-4361 has it, is the definition \<open>hub_accepts\<close>.
\<close>

type_synonym byte = "8 word"

section \<open>Hexadecimal text\<close>

text \<open>\<open>hex.EncodeToString\<close> and \<open>hex.DecodeString\<close>, with the two errors the latter reports; the digits are
  those of \<open>Go_Json_Text\<close>.\<close>

definition EncodeToString :: "byte list \<Rightarrow> string" where
  "EncodeToString bs = concat (map (\<lambda>b. [hex_digit (unat b div 16), hex_digit (unat b mod 16)]) bs)"

text \<open>The text \<open>%#U\<close> gives for a byte, which the error for an invalid digit ends with.\<close>

definition upper_hex :: "nat \<Rightarrow> char" where
  "upper_hex n = (if n < 10 then char_of (48 + n) else char_of (55 + n))"

definition byte_as_rune :: "char \<Rightarrow> string" where
  "byte_as_rune c =
     (let n = (of_char c :: nat);
          shown = (if 32 \<le> n \<and> n < 127 then [c]
                   else if 161 \<le> n \<and> n \<noteq> 173 then [char_of (192 + n div 64), char_of (128 + n mod 64)]
                   else [])
      in ''U+00'' @ [upper_hex (n div 16), upper_hex (n mod 16)] @
         (if shown = [] then [] else [CHR '' '', CHR 0x27] @ shown @ [CHR 0x27]))"

fun DecodeString :: "string \<Rightarrow> error + byte list" where
  "DecodeString [] = Inr []"
| "DecodeString [p] =
     (case hex_value p of
        None \<Rightarrow> Inl (ErrorString (''encoding/hex: invalid byte: '' @ byte_as_rune p))
      | Some _ \<Rightarrow> Inl (ErrorString ''encoding/hex: odd length hex string''))"
| "DecodeString (p # q # cs) =
     (case hex_value p of
        None \<Rightarrow> Inl (ErrorString (''encoding/hex: invalid byte: '' @ byte_as_rune p))
      | Some a \<Rightarrow>
          (case hex_value q of
             None \<Rightarrow> Inl (ErrorString (''encoding/hex: invalid byte: '' @ byte_as_rune q))
           | Some b \<Rightarrow>
               (case DecodeString cs of
                  Inl e \<Rightarrow> Inl e
                | Inr bs \<Rightarrow> Inr (word_of_nat (16 * a + b) # bs))))"

lemma EncodeToString_Cons:
  "EncodeToString (b # bs) = hex_digit (unat b div 16) # hex_digit (unat b mod 16) # EncodeToString bs"
  by (simp add: EncodeToString_def)

lemma DecodeString_EncodeToString [simp]: "DecodeString (EncodeToString bs) = Inr bs"
proof (induction bs)
  case Nil
  then show ?case by (simp add: EncodeToString_def)
next
  case (Cons b bs)
  have "unat b < 256" using unsigned_less [of b, where 'a = nat] by simp
  then have "unat b div 16 < 16" by (simp add: less_mult_imp_div_less)
  with Cons show ?case by (simp add: EncodeToString_Cons)
qed

lemma length_EncodeToString [simp]: "length (EncodeToString bs) = 2 * length bs"
  by (induction bs) (simp_all add: EncodeToString_def)

section \<open>The client\<close>

record 'k crypto_lib =
  cl_ToECDSA :: "byte list \<Rightarrow> error + 'k"
  cl_PubkeyToAddress :: "'k \<Rightarrow> string"
  cl_Keccak256Hash :: "byte list \<Rightarrow> byte list"
  cl_Sign :: "byte list \<Rightarrow> 'k \<Rightarrow> error + byte list"

text \<open>
  A request and a reply, with the text of their bodies.
\<close>

record http_call =
  hc_Method :: string
  hc_URL :: string
  hc_Header :: "(string \<times> string) list"
  hc_Body :: "string option"

record http_reply =
  rp_StatusCode :: int
  rp_Text :: string

text \<open>
  \<open>hh_NewRequest\<close> is the error \<open>http.NewRequest\<close> gives for an address it cannot parse,
  \<open>hh_decode_error\<close> the error \<open>encoding/json\<close> reports for a body that does not decode.
\<close>

record 'd http_lib =
  hh_NewRequest :: "string \<Rightarrow> error option"
  hh_Do :: "duration \<Rightarrow> http_call \<Rightarrow> ('d, error + http_reply) ext_call"
  hh_decode_error :: "string \<Rightarrow> error"

record 'k SIWEClient =
  sw_hubURL :: string
  sw_domain :: string
  sw_privateKey :: 'k
  sw_address :: string
  sw_token :: string
  sw_timeout :: duration

definition NewSIWEClientWithDomain ::
  "'k crypto_lib \<Rightarrow> string \<Rightarrow> string \<Rightarrow> string \<Rightarrow> error + 'k SIWEClient" where
  "NewSIWEClientWithDomain cl hubURL privateKeyHex domain =
     (case DecodeString (TrimPrefix privateKeyHex ''0x'') of
        Inl err \<Rightarrow> Inl (Wrap ''invalid private key hex'' err)
      | Inr privateKeyBytes \<Rightarrow>
          (case cl_ToECDSA cl privateKeyBytes of
             Inl err \<Rightarrow> Inl (Wrap ''invalid private key'' err)
           | Inr privateKey \<Rightarrow>
               Inr \<lparr>sw_hubURL = TrimSuffix hubURL ''/'', sw_domain = domain, sw_privateKey = privateKey,
                    sw_address = cl_PubkeyToAddress cl privateKey, sw_token = '''',
                    sw_timeout = 30 * second\<rparr>))"

definition NewSIWEClient :: "'k crypto_lib \<Rightarrow> string \<Rightarrow> string \<Rightarrow> error + 'k SIWEClient" where
  "NewSIWEClient cl hubURL privateKeyHex = NewSIWEClientWithDomain cl hubURL privateKeyHex ''''"

definition GetAddress :: "'k SIWEClient \<Rightarrow> string" where
  "GetAddress c = sw_address c"

definition GetToken :: "'k SIWEClient \<Rightarrow> string" where
  "GetToken c = sw_token c"

text \<open>\<open>httpClient.Get\<close>, \<open>Post\<close> and \<open>NewRequest\<close> followed by \<open>Do\<close>.\<close>

definition http_do ::
  "'d http_lib \<Rightarrow> 'k SIWEClient \<Rightarrow> http_call \<Rightarrow> 'd world \<Rightarrow> (error + http_reply) \<times> 'd world" where
  "http_do hl c call w =
     (case hh_NewRequest hl (hc_URL call) of
        Some err \<Rightarrow> (Inl err, w)
      | None \<Rightarrow> ext_run (hh_Do hl (sw_timeout c) call) w)"

text \<open>The message of \<open>fmt.Errorf("... failed: %d - %s", resp.StatusCode, string(body))\<close>.\<close>

definition status_error :: "string \<Rightarrow> http_reply \<Rightarrow> error" where
  "status_error what resp =
     ErrorString (what @ '' failed: '' @ Itoa (rp_StatusCode resp) @ '' - '' @ rp_Text resp)"

text \<open>A struct with one string field: the anonymous structs the replies are decoded into.\<close>

definition decode_field :: "'d http_lib \<Rightarrow> string \<Rightarrow> string \<Rightarrow> error + string" where
  "decode_field hl field body =
     (case decode_struct (\<lambda>k v cur. if key_is field k then decode_string v cur else Some cur) '''' (Decode body) of
        None \<Rightarrow> Inl (hh_decode_error hl body)
      | Some s \<Rightarrow> Inr s)"

definition nonce_call :: "'k SIWEClient \<Rightarrow> http_call" where
  "nonce_call c =
     \<lparr>hc_Method = ''GET'', hc_URL = sw_hubURL c @ ''/api/v1/auth/nonce'', hc_Header = [], hc_Body = None\<rparr>"

definition getNonce :: "'d http_lib \<Rightarrow> 'k SIWEClient \<Rightarrow> 'd world \<Rightarrow> (error + string) \<times> 'd world" where
  "getNonce hl c w =
     (case http_do hl c (nonce_call c) w of
        (Inl err, w1) \<Rightarrow> (Inl err, w1)
      | (Inr resp, w1) \<Rightarrow>
          if rp_StatusCode resp \<noteq> 200 then (Inl (status_error ''nonce request'' resp), w1)
          else (decode_field hl ''nonce'' (rp_Text resp), w1))"

text \<open>The domain of the message: the configured one, or the host of the Hub's address.\<close>

definition message_domain :: "'k SIWEClient \<Rightarrow> string" where
  "message_domain c =
     (if sw_domain c \<noteq> '''' then sw_domain c
      else if Contains (sw_hubURL c) ''://'' then
        (let parts = Split (sw_hubURL c) ''://'' in
         if 1 < length parts then
           (let hostPart = hd (Split (hd (Split (parts ! 1) '':'')) ''/'') in
            if hostPart \<noteq> '''' then hostPart else ''localhost'')
         else ''localhost'')
      else ''localhost'')"

definition createSIWEMessage :: "'k SIWEClient \<Rightarrow> string \<Rightarrow> 'd world \<Rightarrow> string" where
  "createSIWEMessage c nonce w =
     message_domain c @ '' wants you to sign in with your Ethereum account:'' @ newline @
     sw_address c @ newline @ newline @
     ''Sign in to Worldland GPU Rental Platform as Provider'' @ newline @ newline @
     ''URI: '' @ sw_hubURL c @ newline @
     ''Version: 1'' @ newline @
     ''Chain ID: 56'' @ newline @
     ''Nonce: '' @ nonce @ newline @
     ''Issued At: '' @ format_RFC3339 0 (w_clock w)"

definition bytes_of :: "string \<Rightarrow> byte list" where
  "bytes_of s = map of_char s"

definition prefixedMessage :: "string \<Rightarrow> string" where
  "prefixedMessage message =
     CHR 0x19 # ''Ethereum Signed Message:'' @ newline @ Itoa (int (length message)) @ message"

definition signMessage :: "'k crypto_lib \<Rightarrow> 'k SIWEClient \<Rightarrow> string \<Rightarrow> (error + string) outcome" where
  "signMessage cl c message =
     (case cl_Sign cl (cl_Keccak256Hash cl (bytes_of (prefixedMessage message))) (sw_privateKey c) of
        Inl err \<Rightarrow> Returns (Inl err)
      | Inr signature \<Rightarrow>
          if length signature \<le> 64 then Panics
          else
            let signature' = (if signature ! 64 < 27 then signature[64 := signature ! 64 + 27] else signature)
            in Returns (Inr (''0x'' @ EncodeToString signature')))"

definition login_call :: "'k SIWEClient \<Rightarrow> string \<Rightarrow> string \<Rightarrow> http_call" where
  "login_call c message signature =
     \<lparr>hc_Method = ''POST'', hc_URL = sw_hubURL c @ ''/api/v1/auth/login'',
      hc_Header = [(''Content-Type'', ''application/json'')],
      hc_Body = Some (Marshal (JObj [(''message'', JStr message), (''signature'', JStr signature)]))\<rparr>"

definition loginWithSignature ::
  "'d http_lib \<Rightarrow> 'k SIWEClient \<Rightarrow> string \<Rightarrow> string \<Rightarrow> 'd world \<Rightarrow> (error + string) \<times> 'd world" where
  "loginWithSignature hl c message signature w =
     (case http_do hl c (login_call c message signature) w of
        (Inl err, w1) \<Rightarrow> (Inl err, w1)
      | (Inr resp, w1) \<Rightarrow>
          if rp_StatusCode resp \<noteq> 200 then (Inl (status_error ''login'' resp), w1)
          else (decode_field hl ''token'' (rp_Text resp), w1))"

definition Login ::
  "'k crypto_lib \<Rightarrow> 'd http_lib \<Rightarrow> 'k SIWEClient \<Rightarrow> 'd world \<Rightarrow>
   (error option \<times> 'k SIWEClient \<times> 'd world) outcome" where
  "Login cl hl c w =
     (case getNonce hl c w of
        (Inl err, w1) \<Rightarrow> Returns (Some (Wrap ''failed to get nonce'' err), c, w1)
      | (Inr nonce, w1) \<Rightarrow>
          let message = createSIWEMessage c nonce w1 in
          outcome_bind (signMessage cl c message) (\<lambda>signed.
            case signed of
              Inl err \<Rightarrow> Returns (Some (Wrap ''failed to sign message'' err), c, w1)
            | Inr signature \<Rightarrow>
                (case loginWithSignature hl c message signature w1 of
                   (Inl err, w2) \<Rightarrow> Returns (Some (Wrap ''failed to login'' err), c, w2)
                 | (Inr token, w2) \<Rightarrow> Returns (None, c\<lparr>sw_token := token\<rparr>, w2))))"

definition RegisterNode ::
  "'d http_lib \<Rightarrow> 'k SIWEClient \<Rightarrow> string \<Rightarrow> string \<Rightarrow> int \<Rightarrow> string \<Rightarrow> 'd world \<Rightarrow> (error + string) \<times> 'd world" where
  "RegisterNode hl c gpuUUID gpuType memoryGB pricePerSec w =
     (if sw_token c = '''' then (Inl (ErrorString ''not authenticated - call Login() first''), w)
      else
        (case http_do hl c
                \<lparr>hc_Method = ''POST'', hc_URL = sw_hubURL c @ ''/api/v1/nodes'',
                 hc_Header = [(''Content-Type'', ''application/json''),
                              (''Authorization'', ''Bearer '' @ sw_token c)],
                 hc_Body = Some (Marshal (JObj [(''gpu_type'', JStr gpuType), (''gpu_uuid'', JStr gpuUUID),
                                       (''memory_gb'', JNum (Itoa memoryGB)),
                                       (''price_per_sec'', JStr pricePerSec)]))\<rparr> w of
           (Inl err, w1) \<Rightarrow> (Inl err, w1)
         | (Inr resp, w1) \<Rightarrow>
             if rp_StatusCode resp \<noteq> 201 \<and> rp_StatusCode resp \<noteq> 200 then
               (Inl (status_error ''registration'' resp), w1)
             else (decode_field hl ''node_id'' (rp_Text resp), w1)))"

record CertificateBundle =
  cb_Certificate :: string
  cb_PrivateKey :: string
  cb_CACertificate :: string
  cb_ExpiresAt :: string
  cb_WalletAddress :: string

definition zero_bundle :: CertificateBundle where
  "zero_bundle = \<lparr>cb_Certificate = '''', cb_PrivateKey = '''', cb_CACertificate = '''',
                  cb_ExpiresAt = '''', cb_WalletAddress = ''''\<rparr>"

definition store_bundle_field :: "string \<Rightarrow> json \<Rightarrow> CertificateBundle \<Rightarrow> CertificateBundle option" where
  "store_bundle_field k v b =
     (if key_is ''certificate'' k then
        map_option (\<lambda>s. b\<lparr>cb_Certificate := s\<rparr>) (decode_string v (cb_Certificate b))
      else if key_is ''private_key'' k then
        map_option (\<lambda>s. b\<lparr>cb_PrivateKey := s\<rparr>) (decode_string v (cb_PrivateKey b))
      else if key_is ''ca_certificate'' k then
        map_option (\<lambda>s. b\<lparr>cb_CACertificate := s\<rparr>) (decode_string v (cb_CACertificate b))
      else if key_is ''expires_at'' k then
        map_option (\<lambda>s. b\<lparr>cb_ExpiresAt := s\<rparr>) (decode_string v (cb_ExpiresAt b))
      else if key_is ''wallet_address'' k then
        map_option (\<lambda>s. b\<lparr>cb_WalletAddress := s\<rparr>) (decode_string v (cb_WalletAddress b))
      else Some b)"

definition IssueCertificate ::
  "'d http_lib \<Rightarrow> 'k SIWEClient \<Rightarrow> 'd world \<Rightarrow> (error + CertificateBundle) \<times> 'd world" where
  "IssueCertificate hl c w =
     (if sw_token c = '''' then (Inl (ErrorString ''not authenticated - call Login() first''), w)
      else
        (case http_do hl c
                \<lparr>hc_Method = ''POST'', hc_URL = sw_hubURL c @ ''/api/v1/certs/bootstrap'',
                 hc_Header = [(''Authorization'', ''Bearer '' @ sw_token c)], hc_Body = None\<rparr> w of
           (Inl err, w1) \<Rightarrow> (Inl err, w1)
         | (Inr resp, w1) \<Rightarrow>
             if rp_StatusCode resp \<noteq> 200 then (Inl (status_error ''certificate issuance'' resp), w1)
             else
               (case decode_struct store_bundle_field zero_bundle (Decode (rp_Text resp)) of
                  None \<Rightarrow> (Inl (hh_decode_error hl (rp_Text resp)), w1)
                | Some bundle \<Rightarrow> (Inr bundle, w1))))"

section \<open>What the client signs and sends\<close>

text \<open>
  When no domain is configured, the domain of the sign-in message is the host of the Hub's
  address: the characters after the scheme up to the port or the path, and \<open>localhost\<close> when
  there are none.
\<close>

lemma message_domain_is_hub_host:
  assumes "sw_domain c = ''''" and "sw_hubURL c = scheme @ ''://'' @ rest" and "CHR '':'' \<notin> set scheme"
  shows "message_domain c =
    (let host = takeWhile (\<lambda>x. x \<noteq> CHR '':'' \<and> x \<noteq> CHR ''/'') rest
     in if host = '''' then ''localhost'' else host)"
proof -
  have split: "Split (sw_hubURL c) ''://'' = scheme # Split rest ''://''"
    using Split_first [of "CHR '':''" scheme "''//''" rest] assms by simp
  have part: "(scheme # Split rest ''://'') ! 1 = hd (Split rest ''://'')"
    by (simp add: hd_conv_nth)
  have host: "hd (Split (hd (Split (hd (Split rest ''://'')) '':'')) ''/'') =
      takeWhile (\<lambda>x. x \<noteq> CHR '':'' \<and> x \<noteq> CHR ''/'') rest"
    by (simp add: hd_Split_char takeWhile_hd_Split takeWhile_takeWhile)
  have "Contains (sw_hubURL c) ''://''"
    using Contains_append [of scheme "''://''" rest] assms(2) by simp
  with assms(1) show ?thesis
    by (simp only: message_domain_def split part host Let_def length_Cons) simp
qed

text \<open>
  What the Hub checks of a login: the signature is hexadecimal text of 65 bytes, its last byte is
  27 or 28, and the key recovered from the rest belongs to the address.  Recovery is an operation
  of the curve, outside the repository.
\<close>

definition signature_valid ::
  "'k crypto_lib \<Rightarrow> (byte list \<Rightarrow> byte list \<Rightarrow> string) \<Rightarrow> string \<Rightarrow> string \<Rightarrow> string \<Rightarrow> bool" where
  "signature_valid cl recover address message signature =
     (HasPrefix signature ''0x'' \<and>
      (case DecodeString (TrimPrefix signature ''0x'') of
         Inl e \<Rightarrow> False
       | Inr sig \<Rightarrow>
           length sig = 65 \<and> sig ! 64 \<in> {27, 28} \<and>
           recover (cl_Keccak256Hash cl (bytes_of (prefixedMessage message))) (sig[64 := sig ! 64 - 27]) = address))"

text \<open>
  The documented behaviour of \<open>crypto.Sign\<close>: 65 bytes ending in a recovery id of 0 or 1, from
  which the signer's address is recovered.
\<close>

definition sign_spec :: "'k crypto_lib \<Rightarrow> (byte list \<Rightarrow> byte list \<Rightarrow> string) \<Rightarrow> bool" where
  "sign_spec cl recover \<longleftrightarrow>
     (\<forall>h k sig. cl_Sign cl h k = Inr sig \<longrightarrow>
        length sig = 65 \<and> sig ! 64 \<in> {0, 1} \<and> recover h sig = cl_PubkeyToAddress cl k)"

lemma TrimPrefix_append [simp]: "TrimPrefix (p @ s) p = s"
  by (simp add: TrimPrefix_def)

lemma signature_valid_hex:
  "length sig = 65 \<Longrightarrow> sig ! 64 \<in> {27, 28} \<Longrightarrow>
   recover (cl_Keccak256Hash cl (bytes_of (prefixedMessage message))) (sig[64 := sig ! 64 - 27]) = address \<Longrightarrow>
   signature_valid cl recover address message (''0x'' @ EncodeToString sig)"
  using TrimPrefix_append [of "''0x''" "EncodeToString sig"] HasPrefix_append [of "''0x''" "EncodeToString sig"]
  unfolding signature_valid_def by simp

lemma signMessage_signs:
  assumes spec: "sign_spec cl recover"
    and signed: "cl_Sign cl (cl_Keccak256Hash cl (bytes_of (prefixedMessage message))) (sw_privateKey c) = Inr sig"
  shows "\<exists>signature. signMessage cl c message = Returns (Inr signature) \<and>
           signature_valid cl recover (cl_PubkeyToAddress cl (sw_privateKey c)) message signature"
proof -
  from spec signed have sig: "length sig = 65" "sig ! 64 = 0 \<or> sig ! 64 = 1"
      "recover (cl_Keccak256Hash cl (bytes_of (prefixedMessage message))) sig =
         cl_PubkeyToAddress cl (sw_privateKey c)"
    by (auto simp: sign_spec_def)
  let ?sig = "sig[64 := sig ! 64 + 27]"
  have unshift: "?sig[64 := ?sig ! 64 - 27] = sig" using sig(1) by simp
  have v: "?sig ! 64 \<in> {27, 28}" using sig(1,2) by auto
  have "signMessage cl c message = Returns (Inr (''0x'' @ EncodeToString ?sig))"
    using sig(1,2) by (auto simp: signMessage_def signed Let_def word_less_nat_alt)
  with signature_valid_hex [of ?sig recover cl message "cl_PubkeyToAddress cl (sw_privateKey c)"]
    sig v unshift show ?thesis by simp
qed

text \<open>
  C34. Whatever message is signed, \<open>signMessage\<close> does not panic, and the text it returns is a valid
  signature of that message by the client's own key: the recovery id is shifted to 27 or 28 exactly
  once and the hexadecimal text decodes to the bytes the curve produced.
\<close>

theorem signMessage_valid:
  assumes spec: "sign_spec cl recover"
  shows "\<exists>r. signMessage cl c message = Returns r \<and>
           (case r of
              Inl err \<Rightarrow> cl_Sign cl (cl_Keccak256Hash cl (bytes_of (prefixedMessage message))) (sw_privateKey c) = Inl err
            | Inr signature \<Rightarrow>
                signature_valid cl recover (cl_PubkeyToAddress cl (sw_privateKey c)) message signature)"
proof (cases "cl_Sign cl (cl_Keccak256Hash cl (bytes_of (prefixedMessage message))) (sw_privateKey c)")
  case (Inl err)
  then show ?thesis by (simp add: signMessage_def)
next
  case (Inr sig)
  then show ?thesis using signMessage_signs [OF spec Inr] by auto
qed

text \<open>
  What the Hub reads from the text that was signed, line by line as EIP-4361 lays it out.
\<close>

record siwe_message =
  sm_Domain :: string
  sm_Address :: string
  sm_URI :: string
  sm_Version :: string
  sm_ChainID :: string
  sm_Nonce :: string
  sm_IssuedAt :: string

definition siwe_parse :: "string \<Rightarrow> siwe_message option" where
  "siwe_parse m =
     (case Split m newline of
        [l1, address, e1, statement, e2, l6, l7, l8, l9, l10] \<Rightarrow>
          if HasSuffix l1 '' wants you to sign in with your Ethereum account:'' \<and> e1 = '''' \<and> e2 = '''' \<and>
             HasPrefix l6 ''URI: '' \<and> HasPrefix l7 ''Version: '' \<and> HasPrefix l8 ''Chain ID: '' \<and>
             HasPrefix l9 ''Nonce: '' \<and> HasPrefix l10 ''Issued At: ''
          then Some \<lparr>sm_Domain = TrimSuffix l1 '' wants you to sign in with your Ethereum account:'',
                     sm_Address = address, sm_URI = TrimPrefix l6 ''URI: '', sm_Version = TrimPrefix l7 ''Version: '',
                     sm_ChainID = TrimPrefix l8 ''Chain ID: '', sm_Nonce = TrimPrefix l9 ''Nonce: '',
                     sm_IssuedAt = TrimPrefix l10 ''Issued At: ''\<rparr>
          else None
      | _ \<Rightarrow> None)"

definition login_body :: "http_call \<Rightarrow> (string \<times> string) option" where
  "login_body call =
     (case hc_Body call of
        Some body \<Rightarrow>
          (case Unmarshal body of
             Some (JObj ms) \<Rightarrow>
               (case (map_of ms ''message'', map_of ms ''signature'') of
                  (Some (JStr m), Some (JStr s)) \<Rightarrow> Some (m, s)
                | _ \<Rightarrow> None)
           | _ \<Rightarrow> None)
      | None \<Rightarrow> None)"

text \<open>
  A Hub: its address, the domain and the chain it is configured for, and in its state the nonces it
  has issued that are still unused and the tokens that stand for a wallet.  It accepts a message
  that names its domain, its address and its chain, a nonce it has issued and a time of issue that
  is not in the future, and that the wallet named in it has signed.
\<close>

record 'd hub =
  hb_URL :: string
  hb_Domain :: string
  hb_ChainID :: string
  hb_issued :: "'d \<Rightarrow> string \<Rightarrow> bool"
  hb_session :: "'d \<Rightarrow> string \<Rightarrow> string \<Rightarrow> bool"

definition hub_accepts ::
  "'k crypto_lib \<Rightarrow> (byte list \<Rightarrow> byte list \<Rightarrow> string) \<Rightarrow> 'd hub \<Rightarrow> 'd world \<Rightarrow> string \<Rightarrow> string \<Rightarrow> string option" where
  "hub_accepts cl recover H w message signature =
     (case siwe_parse message of
        None \<Rightarrow> None
      | Some m \<Rightarrow>
          if sm_Domain m = hb_Domain H \<and> sm_URI m = hb_URL H \<and> sm_Version m = ''1'' \<and> sm_ChainID m = hb_ChainID H \<and>
             hb_issued H (w_ext w) (sm_Nonce m) \<and> (\<exists>t \<le> w_clock w. sm_IssuedAt m = format_RFC3339 0 t) \<and>
             signature_valid cl recover (sm_Address m) message signature
          then Some (sm_Address m) else None)"

text \<open>A call is answered in time with an object of one string field; nonces are as EIP-4361 has them.\<close>

definition answers_with ::
  "'d http_lib \<Rightarrow> http_call \<Rightarrow> 'd world \<Rightarrow> string \<Rightarrow> (string \<Rightarrow> 'd \<Rightarrow> bool) \<Rightarrow> bool" where
  "answers_with hl call w field good \<longleftrightarrow>
     hh_NewRequest hl (hc_URL call) = None \<and>
     (\<exists>val dt d. ValidString val \<and> good val d \<and>
        hh_Do hl (30 * second) call w =
          (Inr \<lparr>rp_StatusCode = 200, rp_Text = Marshal (JObj [(field, JStr val)])\<rparr>, dt, d))"

definition nonce_text :: "string \<Rightarrow> bool" where
  "nonce_text n \<longleftrightarrow> 8 \<le> length n \<and>
     list_all (\<lambda>c. byte c \<in> {48..57} \<union> {65..90} \<union> {97..122}) n"

definition conforming_hub ::
  "'k crypto_lib \<Rightarrow> (byte list \<Rightarrow> byte list \<Rightarrow> string) \<Rightarrow> 'd hub \<Rightarrow> 'd http_lib \<Rightarrow> bool" where
  "conforming_hub cl recover H hl \<longleftrightarrow>
     (\<forall>call w. hc_Method call = ''GET'' \<longrightarrow> hc_URL call = hb_URL H @ ''/api/v1/auth/nonce'' \<longrightarrow>
        answers_with hl call w ''nonce'' (\<lambda>n d. nonce_text n \<and> hb_issued H d n)) \<and>
     (\<forall>call w message signature address.
        hc_Method call = ''POST'' \<longrightarrow> hc_URL call = hb_URL H @ ''/api/v1/auth/login'' \<longrightarrow>
        (''Content-Type'', ''application/json'') \<in> set (hc_Header call) \<longrightarrow>
        login_body call = Some (message, signature) \<longrightarrow>
        hub_accepts cl recover H w message signature = Some address \<longrightarrow>
        answers_with hl call w ''token'' (\<lambda>token d. hb_session H d token address))"

text \<open>
  The host in an address, and text that is put into the message: UTF-8, so that the Hub reads the
  message that was signed, and without a line break.
\<close>

definition url_host :: "string \<Rightarrow> string \<Rightarrow> bool" where
  "url_host url host \<longleftrightarrow>
     (\<exists>scheme rest. url = scheme @ ''://'' @ host @ rest \<and> CHR '':'' \<notin> set scheme \<and>
        host \<noteq> '''' \<and> CHR '':'' \<notin> set host \<and> CHR ''/'' \<notin> set host \<and>
        (rest = '''' \<or> hd rest = CHR '':'' \<or> hd rest = CHR ''/''))"

definition one_line :: "string \<Rightarrow> bool" where
  "one_line s \<longleftrightarrow> ValidString s \<and> CHR 0x0A \<notin> set s"

lemma url_host_message_domain:
  assumes "url_host (sw_hubURL c) host" and "sw_domain c = ''''"
  shows "message_domain c = host"
proof -
  from assms(1) obtain scheme rest where url: "sw_hubURL c = scheme @ ''://'' @ host @ rest" "CHR '':'' \<notin> set scheme"
      "host \<noteq> ''''" "CHR '':'' \<notin> set host" "CHR ''/'' \<notin> set host"
      "rest = '''' \<or> hd rest = CHR '':'' \<or> hd rest = CHR ''/''"
    by (auto simp: url_host_def)
  let ?P = "\<lambda>x. x \<noteq> CHR '':'' \<and> x \<noteq> CHR ''/''"
  have "takeWhile ?P rest = []" using url(6) by (cases rest) auto
  moreover have "\<forall>x \<in> set host. ?P x" using url(4,5) by auto
  ultimately have "takeWhile ?P (host @ rest) = host" by (simp add: takeWhile_append2)
  with message_domain_is_hub_host [OF assms(2) url(1,2)] url(3) show ?thesis by (simp add: Let_def)
qed

lemma no_newline_digits: "list_all is_digit s \<Longrightarrow> CHR 0x0A \<notin> set s"
  by (auto simp: list_all_iff is_digit_def)

lemma no_newline_RFC3339: "CHR 0x0A \<notin> set (format_RFC3339 z t)"
proof -
  have itoa: "CHR 0x0A \<notin> set (Itoa i)" for i
    using no_newline_digits by (simp add: Itoa_def)
  have "CHR 0x0A \<notin> set (pad n i)" for n i
    using itoa by (simp add: pad_def Let_def)
  then show ?thesis by (simp add: format_RFC3339_def Let_def split_beta)
qed

lemma nonce_text_one_line: "nonce_text n \<Longrightarrow> one_line n"
proof -
  assume n: "nonce_text n"
  have "byte x < 0x80 \<and> x \<noteq> CHR 0x0A" if "x \<in> set n" for x
    using n that by (auto simp: nonce_text_def list_all_iff is_digit_def)
  then show ?thesis by (auto simp: one_line_def list_all_iff intro: ValidString_ascii)
qed

lemma createSIWEMessage_valid:
  "one_line (message_domain c) \<Longrightarrow> one_line (sw_address c) \<Longrightarrow> one_line (sw_hubURL c) \<Longrightarrow> one_line nonce \<Longrightarrow>
   ValidString (createSIWEMessage c nonce w)"
  by (simp add: createSIWEMessage_def one_line_def ValidString_append newline_def)

lemma Split_line: "CHR 0x0A \<notin> set a \<Longrightarrow> Split (a @ newline @ b) newline = a # Split b newline"
  using Split_first [of "CHR 0x0A" a "[]" b] by (simp add: newline_def)

lemma Split_last: "CHR 0x0A \<notin> set a \<Longrightarrow> Split a newline = [a]"
proof -
  have "split_scan [x] acc a = [rev acc @ a]" if "x \<notin> set a" for x acc
    using that by (induction a arbitrary: acc) (auto simp: HasPrefix_def)
  then show "CHR 0x0A \<notin> set a \<Longrightarrow> Split a newline = [a]" by (simp add: Split_def newline_def)
qed

text \<open>The Hub reads from the client's message what the client has put into it.\<close>

lemma siwe_parse_message:
  assumes "one_line (message_domain c)" "one_line (sw_address c)" "one_line (sw_hubURL c)" "one_line nonce"
  shows "siwe_parse (createSIWEMessage c nonce w) =
    Some \<lparr>sm_Domain = message_domain c, sm_Address = sw_address c, sm_URI = sw_hubURL c, sm_Version = ''1'',
          sm_ChainID = ''56'', sm_Nonce = nonce, sm_IssuedAt = format_RFC3339 0 (w_clock w)\<rparr>"
proof -
  let ?suffix = "'' wants you to sign in with your Ethereum account:''"
  have message: "createSIWEMessage c nonce w =
      (message_domain c @ ?suffix) @ newline @ sw_address c @ newline @ '''' @ newline @
      ''Sign in to Worldland GPU Rental Platform as Provider'' @ newline @ '''' @ newline @
      (''URI: '' @ sw_hubURL c) @ newline @ ''Version: 1'' @ newline @ ''Chain ID: 56'' @ newline @
      (''Nonce: '' @ nonce) @ newline @ (''Issued At: '' @ format_RFC3339 0 (w_clock w))"
    by (simp add: createSIWEMessage_def)
  have "Split (createSIWEMessage c nonce w) newline =
      [message_domain c @ ?suffix, sw_address c, '''', ''Sign in to Worldland GPU Rental Platform as Provider'', '''',
       ''URI: '' @ sw_hubURL c, ''Version: 1'', ''Chain ID: 56'', ''Nonce: '' @ nonce,
       ''Issued At: '' @ format_RFC3339 0 (w_clock w)]"
    unfolding message using assms by (simp add: Split_line Split_last one_line_def no_newline_RFC3339 del: append.simps append_assoc)
  then show ?thesis
    by (simp add: siwe_parse_def HasPrefix_def HasSuffix_def TrimPrefix_def TrimSuffix_def)
qed

lemma answers_with_do:
  assumes "answers_with hl call w field good" and "sw_timeout c = 30 * second"
  obtains val w' where "ValidString val" "good val (w_ext w')" "w_clock w \<le> w_clock w'"
    "http_do hl c call w = (Inr \<lparr>rp_StatusCode = 200, rp_Text = Marshal (JObj [(field, JStr val)])\<rparr>, w')"
proof -
  from assms(1) obtain val dt d where "ValidString val" "good val d" "hh_Do hl (30 * second) call w =
      (Inr \<lparr>rp_StatusCode = 200, rp_Text = Marshal (JObj [(field, JStr val)])\<rparr>, dt, d)"
    unfolding answers_with_def by blast
  with assms show ?thesis
    by (intro that [of val "w\<lparr>w_clock := w_clock w + int dt, w_ext := d\<rparr>"])
       (simp_all add: http_do_def answers_with_def go_eval)
qed

lemma Decode_field: "ValidString field \<Longrightarrow> ValidString s \<Longrightarrow>
    Decode (Marshal (JObj [(field, JStr s)])) = Some (JObj [(field, JStr s)])"
  by (rule Decode_Marshal_wf) (simp_all add: maxNestingDepth_def)

lemma decode_field_single:
  assumes "ValidString field" "ValidString s"
  shows "decode_field hl field (Marshal (JObj [(field, JStr s)])) = Inr s"
  unfolding decode_field_def Decode_field [OF assms] by (simp add: decode_struct_def)

lemma login_body_call:
  assumes "ValidString message" and "ValidString signature"
  shows "login_body (login_call c message signature) = Some (message, signature)"
proof -
  have "Unmarshal (Marshal (JObj [(''message'', JStr message), (''signature'', JStr signature)])) =
      Some (JObj [(''message'', JStr message), (''signature'', JStr signature)])"
    by (rule Unmarshal_Marshal_wf) (simp_all add: assms maxNestingDepth_def)
  then show ?thesis by (simp add: login_body_def login_call_def del: Marshal.simps)
qed

lemma ascii_EncodeToString: "ascii (EncodeToString bs)"
proof (induction bs)
  case (Cons b bs)
  have "unat b < 256" using unsigned_less [of b, where 'a = nat] by simp
  then have "unat b div 16 < 16" by (simp add: less_mult_imp_div_less)
  with Cons show ?case by (simp add: EncodeToString_Cons byte_hex_digit)
qed (simp add: EncodeToString_def)

lemma signMessage_ascii: "signMessage cl c message = Returns (Inr s) \<Longrightarrow> ValidString s"
  using ValidString_ascii [OF ascii_EncodeToString]
  by (auto simp: signMessage_def Let_def split: sum.splits if_splits)

text \<open>
  C33. Against a Hub that checks what a Sign-In with Ethereum Hub checks, the domain, address, chain
  and nonce of the message and the wallet's signature on it, a client made from a private key logs
  in: the login returns without error, and the client then holds a token that stands for its wallet
  at the Hub and is otherwise unchanged.  The domain may be configured, or left out when it is the
  host in the Hub's address, which may end in a slash.  The Hub reads the JSON text of the request.
\<close>

theorem Login_succeeds:
  assumes client: "NewSIWEClientWithDomain cl hubURL privateKeyHex domain = Inr c"
    and config: "TrimSuffix hubURL ''/'' = hb_URL H" "hb_ChainID H = ''56''" "hb_Domain H \<noteq> ''''"
      "if domain = '''' then url_host (hb_URL H) (hb_Domain H) else domain = hb_Domain H"
    and one: "one_line (hb_URL H)" "one_line (hb_Domain H)" "\<forall>k. one_line (cl_PubkeyToAddress cl k)"
    and sign: "sign_spec cl recover" "\<forall>h. \<exists>sig. cl_Sign cl h (sw_privateKey c) = Inr sig"
    and hub: "conforming_hub cl recover H hl"
  shows "\<exists>token w'. Login cl hl c w = Returns (None, c\<lparr>sw_token := token\<rparr>, w') \<and>
    hb_session H (w_ext w') token (sw_address c)"
proof -
  from client config(1) have c: "sw_address c = cl_PubkeyToAddress cl (sw_privateKey c)" "sw_hubURL c = hb_URL H"
      "sw_domain c = domain" "sw_timeout c = 30 * second"
    by (auto simp: NewSIWEClientWithDomain_def split: sum.splits)
  have domain: "message_domain c = hb_Domain H"
    using config(4) url_host_message_domain [of c "hb_Domain H"] c(2,3)
    by (auto simp: message_domain_def split: if_split_asm)
  from hub have "answers_with hl (nonce_call c) w ''nonce'' (\<lambda>n d. nonce_text n \<and> hb_issued H d n)"
    unfolding conforming_hub_def by (simp add: nonce_call_def c(2))
  then obtain nonce w1 where n: "nonce_text nonce" "hb_issued H (w_ext w1) nonce" "getNonce hl c w = (Inr nonce, w1)"
    by (rule answers_with_do [OF _ c(4)]) (auto simp: getNonce_def decode_field_single simp del: Marshal.simps)
  let ?m = "createSIWEMessage c nonce w1"
  from sign(2) obtain sg where "cl_Sign cl (cl_Keccak256Hash cl (bytes_of (prefixedMessage ?m)))
      (sw_privateKey c) = Inr sg" by blast
  with signMessage_signs [OF sign(1)] obtain s where signed:
      "signMessage cl c ?m = Returns (Inr s)" "signature_valid cl recover (sw_address c) ?m s"
    unfolding c(1) by blast
  have lines: "one_line (message_domain c)" "one_line (sw_address c)" "one_line (sw_hubURL c)" "one_line nonce"
    using one n(1) by (simp_all add: domain c nonce_text_one_line)
  have "hub_accepts cl recover H w1 ?m s = Some (sw_address c)"
    using n(2) signed(2) config(2) by (auto simp: hub_accepts_def siwe_parse_message [OF lines] domain c(2))
  moreover have "login_body (login_call c ?m s) = Some (?m, s)"
    by (rule login_body_call [OF createSIWEMessage_valid [OF lines] signMessage_ascii [OF signed(1)]])
  ultimately have "answers_with hl (login_call c ?m s) w1 ''token'' (\<lambda>token d. hb_session H d token (sw_address c))"
    using hub unfolding conforming_hub_def by (simp add: login_call_def c(2))
  then obtain token w2 where "hb_session H (w_ext w2) token (sw_address c)" "loginWithSignature hl c ?m s w1 = (Inr token, w2)"
    by (rule answers_with_do [OF _ c(4)]) (auto simp: loginWithSignature_def decode_field_single simp del: Marshal.simps)
  with n(3) signed(1) show ?thesis by (intro exI [of _ token] exI [of _ w2]) (simp add: Login_def Let_def)
qed

text \<open>
  A login that fails, at whichever step, leaves the client as it was, so a token is only ever
  replaced by one the Hub returned for the nonce it had issued and the message built from it.
\<close>

lemma Login_token_from_hub:
  assumes "Login cl hl c w = Returns (r, c', w')"
  shows "case r of
      Some err \<Rightarrow> c' = c
    | None \<Rightarrow> \<exists>nonce signature token w1.
        getNonce hl c w = (Inr nonce, w1) \<and>
        signMessage cl c (createSIWEMessage c nonce w1) = Returns (Inr signature) \<and>
        loginWithSignature hl c (createSIWEMessage c nonce w1) signature w1 = (Inr token, w') \<and>
        c' = c\<lparr>sw_token := token\<rparr>"
proof (cases "getNonce hl c w")
  case (Pair res w1)
  show ?thesis
  proof (cases res)
    case (Inl err)
    with assms Pair show ?thesis by (auto simp: Login_def)
  next
    case (Inr nonce)
    with assms Pair show ?thesis
      by (cases "signMessage cl c (createSIWEMessage c nonce w1)")
         (auto simp: Login_def Let_def split: prod.split_asm sum.split_asm)
  qed
qed

section \<open>A client and a Hub for the witnesses\<close>

definition demo_crypto :: "byte crypto_lib" where
  "demo_crypto =
     \<lparr>cl_ToECDSA = (\<lambda>bs. if bs = [] then Inl (ErrorString ''invalid length'') else Inr (hd bs)),
      cl_PubkeyToAddress = (\<lambda>k. ''0x'' @ EncodeToString [k]),
      cl_Keccak256Hash = (\<lambda>bs. take 32 (bs @ replicate 32 0)),
      cl_Sign = (\<lambda>h k. Inr (k # replicate 63 0 @ [1]))\<rparr>"

definition demo_recover :: "byte list \<Rightarrow> byte list \<Rightarrow> string" where
  "demo_recover h sig = ''0x'' @ EncodeToString [hd sig]"

definition demo_client :: "byte SIWEClient" where
  "demo_client =
     \<lparr>sw_hubURL = ''http://hub.example:8080'', sw_domain = '''', sw_privateKey = 10, sw_address = ''0x0a'',
      sw_token = '''', sw_timeout = 30 * second\<rparr>"

definition demo_reply :: "string \<Rightarrow> string \<Rightarrow> http_reply" where
  "demo_reply field val = \<lparr>rp_StatusCode = 200, rp_Text = Marshal (JObj [(field, JStr val)])\<rparr>"

text \<open>
  Its state: how many nonces were issued, the unused ones and the sessions.  A nonce is good for one
  login, and a login that is not accepted gets status 401.
\<close>

type_synonym demo_sessions = "nat \<times> string list \<times> (string \<times> string) list"

definition demo_nonce :: "nat \<Rightarrow> string" where
  "demo_nonce k = ''nonce000'' @ nat_decimal k"

definition demo_issuer :: "demo_sessions hub" where
  "demo_issuer =
     \<lparr>hb_URL = ''http://hub.example:8080'', hb_Domain = ''hub.example'', hb_ChainID = ''56'',
      hb_issued = (\<lambda>(k, nonces, sessions) n. n \<in> set nonces),
      hb_session = (\<lambda>(k, nonces, sessions) token address. (token, address) \<in> set sessions)\<rparr>"

definition demo_login :: "demo_sessions world \<Rightarrow> string \<Rightarrow> string \<Rightarrow> (error + http_reply) \<times> nat \<times> demo_sessions" where
  "demo_login w message signature =
     (case (w_ext w, hub_accepts demo_crypto demo_recover demo_issuer w message signature) of
        ((k, nonces, sessions), Some address) \<Rightarrow>
          (Inr (demo_reply ''token'' ''t1''), 1,
           (k, filter (\<lambda>n. map_option sm_Nonce (siwe_parse message) \<noteq> Some n) nonces, (''t1'', address) # sessions))
      | (d, None) \<Rightarrow> (Inr \<lparr>rp_StatusCode = 401, rp_Text = ''domain mismatch''\<rparr>, 1, d))"

definition demo_hub :: "demo_sessions http_lib" where
  "demo_hub =
     \<lparr>hh_NewRequest = (\<lambda>_. None),
      hh_Do = (\<lambda>t call w.
        if hc_Method call = ''GET'' then
          (case w_ext w of (k, nonces, sessions) \<Rightarrow>
             (Inr (demo_reply ''nonce'' (demo_nonce k)), 1, (Suc k, demo_nonce k # nonces, sessions)))
        else case login_body call of
            None \<Rightarrow> (Inr \<lparr>rp_StatusCode = 400, rp_Text = ''invalid body''\<rparr>, 1, w_ext w)
          | Some (message, signature) \<Rightarrow> demo_login w message signature),
      hh_decode_error = (\<lambda>_. ErrorString ''EOF'')\<rparr>"

lemma no_newline_EncodeToString: "CHR 0x0A \<notin> set (EncodeToString bs)"
proof (induction bs)
  case (Cons b bs)
  have digit: "hex_digit n \<noteq> CHR 0x0A" if "n < 16" for n
    using byte_hex_digit [OF that] hex_value_digit [OF that] by (auto simp: hex_value_def between_def)
  have "unat b < 256" using unsigned_less [of b, where 'a = nat] by simp
  then have "unat b div 16 < 16" by (simp add: less_mult_imp_div_less)
  with Cons digit [of "unat b div 16"] digit [of "unat b mod 16"] show ?case by (auto simp: EncodeToString_Cons)
qed (simp add: EncodeToString_def)

lemma demo_sign_spec: "sign_spec demo_crypto demo_recover"
  by (auto simp: sign_spec_def demo_crypto_def demo_recover_def nth_append)

lemma demo_client_new:
  "NewSIWEClientWithDomain demo_crypto ''http://hub.example:8080/'' ''0x0a'' '''' = Inr demo_client"
  by code_simp

lemma demo_nonce_text: "nonce_text (demo_nonce k)" "ValidString (demo_nonce k)"
proof -
  have "list_all is_digit (nat_decimal k)" by simp
  then show nonce: "nonce_text (demo_nonce k)"
    unfolding nonce_text_def demo_nonce_def by (auto simp: list_all_iff is_digit_def)
  from nonce_text_one_line [OF this] show "ValidString (demo_nonce k)" by (simp add: one_line_def)
qed

lemma demo_conforming: "conforming_hub demo_crypto demo_recover demo_issuer demo_hub"
proof -
  have "answers_with demo_hub call w ''nonce'' (\<lambda>n d. nonce_text n \<and> hb_issued demo_issuer d n)"
    if "hc_Method call = ''GET''" for call w
    unfolding answers_with_def using that demo_nonce_text
    by (cases "w_ext w") (auto simp: demo_hub_def demo_reply_def demo_issuer_def)
  moreover have "answers_with demo_hub call w ''token'' (\<lambda>token d. hb_session demo_issuer d token address)"
    if "hc_Method call = ''POST''" "login_body call = Some (message, signature)"
      "hub_accepts demo_crypto demo_recover demo_issuer w message signature = Some address"
    for call w message signature address
  proof -
    obtain k nonces sessions where "w_ext w = (k, nonces, sessions)" by (cases "w_ext w")
    with that(1,2) have "hh_Do demo_hub (30 * second) call w = (Inr (demo_reply ''token'' ''t1''), 1,
        (k, filter (\<lambda>n. map_option sm_Nonce (siwe_parse message) \<noteq> Some n) nonces, (''t1'', address) # sessions))"
      by (simp add: demo_hub_def demo_login_def that(3))
    then show ?thesis
      unfolding answers_with_def by (intro conjI exI [of _ "''t1''"]) (auto simp: demo_hub_def demo_reply_def demo_issuer_def)
  qed
  ultimately show ?thesis unfolding conforming_hub_def by blast
qed

theorem signMessage_valid_witness:
  "\<exists>r. signMessage demo_crypto demo_client ''hello'' = Returns r \<and>
     (case r of
        Inl err \<Rightarrow> cl_Sign demo_crypto (cl_Keccak256Hash demo_crypto (bytes_of (prefixedMessage ''hello''))) (sw_privateKey demo_client) = Inl err
      | Inr signature \<Rightarrow>
          signature_valid demo_crypto demo_recover (cl_PubkeyToAddress demo_crypto (sw_privateKey demo_client)) ''hello'' signature)"
  by (rule signMessage_valid [OF demo_sign_spec])

theorem Login_succeeds_witness:
  "\<exists>token w'. Login demo_crypto demo_hub demo_client \<lparr>w_clock = 0, w_lag = (\<lambda>_. 0), w_ext = (0, [], [])\<rparr> =
     Returns (None, demo_client\<lparr>sw_token := token\<rparr>, w') \<and> hb_session demo_issuer (w_ext w') token ''0x0a''"
proof -
  have url: "TrimSuffix ''http://hub.example:8080/'' ''/'' = hb_URL demo_issuer" "hb_ChainID demo_issuer = ''56''"
      "hb_Domain demo_issuer \<noteq> ''''"
    by (simp_all add: demo_issuer_def TrimSuffix_def HasSuffix_def)
  have "url_host (hb_URL demo_issuer) (hb_Domain demo_issuer)"
    unfolding url_host_def demo_issuer_def by (intro exI [of _ "''http''"] exI [of _ "'':8080''"]) simp
  then have host: "if ([] :: string) = '''' then url_host (hb_URL demo_issuer) (hb_Domain demo_issuer) else [] = hb_Domain demo_issuer"
    by simp
  have one: "one_line (hb_URL demo_issuer)" "one_line (hb_Domain demo_issuer)"
    by (simp_all add: one_line_def demo_issuer_def)
  have "one_line (cl_PubkeyToAddress demo_crypto k)" for k
    using ValidString_ascii [OF ascii_EncodeToString [of "[k]"]] no_newline_EncodeToString [of "[k]"]
    by (simp add: one_line_def demo_crypto_def)
  then have address: "\<forall>k. one_line (cl_PubkeyToAddress demo_crypto k)" by blast
  have "\<forall>h. \<exists>sig. cl_Sign demo_crypto h (sw_privateKey demo_client) = Inr sig" by (simp add: demo_crypto_def)
  from Login_succeeds [OF demo_client_new url host one address demo_sign_spec this demo_conforming]
  show ?thesis by (simp add: demo_client_def)
qed

end
