(* ===== verification/Node_Main.thy ===== *)
theory Node_Main
  imports Command_Wire Rental_Node Siwe_Auth
begin

text \<open>
  The program of \<open>cmd/node/main.go\<close>: identity of the machine, certificates on disk, the flags and
  their checks, wallet authentication, and the wiring of the components into a running node.  The
  operating system and the certificate library are the records \<open>os_lib\<close> and \<open>pki_lib\<close>;
  \<open>Command_Line\<close> parses the arguments into \<open>flags\<close>.
\<close>

section \<open>File names\<close>

text \<open>
  \<open>filepath.Clean\<close> and \<open>filepath.Join\<close> on Unix: the elements of the path in turn, dropping empty
  ones and \<open>.\<close>, and letting \<open>..\<close> remove the element before it.
\<close>

definition clean_element :: "bool \<Rightarrow> string \<Rightarrow> string list \<Rightarrow> string list" where
  "clean_element rooted el stack =
     (if el = '''' \<or> el = ''.'' then stack
      else if el = ''..'' then
        (if stack \<noteq> [] \<and> last stack \<noteq> ''..'' then butlast stack
         else if rooted then stack else stack @ [''..''])
      else stack @ [el])"

fun join_with :: "string \<Rightarrow> string list \<Rightarrow> string" where
  "join_with sep [] = ''''"
| "join_with sep [s] = s"
| "join_with sep (s # ss) = s @ sep @ join_with sep ss"

definition Clean :: "string \<Rightarrow> string" where
  "Clean path =
     (let rooted = HasPrefix path ''/'';
          out = (if rooted then ''/'' else '''') @ join_with ''/'' (fold (clean_element rooted) (Split path ''/'') [])
      in if out = '''' then ''.'' else out)"

definition filepath_Join :: "string list \<Rightarrow> string" where
  "filepath_Join elems =
     (case dropWhile (\<lambda>e. e = '''') elems of [] \<Rightarrow> '''' | es \<Rightarrow> Clean (join_with ''/'' es))"

text \<open>Joining a plain file name to a directory appends it to a prefix that only the directory determines.\<close>

definition plain_name :: "string \<Rightarrow> bool" where
  "plain_name f \<longleftrightarrow> f \<noteq> '''' \<and> f \<noteq> ''.'' \<and> f \<noteq> ''..'' \<and> CHR ''/'' \<notin> set f"

lemma split_scan_plain: "x \<notin> set f \<Longrightarrow> split_scan [x] acc f = [rev acc @ f]"
  by (induction f arbitrary: acc) (auto simp: HasPrefix_def)

lemma split_scan_snoc:
  "x \<notin> set f \<Longrightarrow> split_scan [x] acc (d @ x # f) = split_scan [x] acc d @ [f]"
proof (induction d arbitrary: acc)
  case Nil
  then show ?case by (simp add: HasPrefix_def split_scan_plain)
next
  case (Cons c d)
  then show ?case by (simp add: HasPrefix_def)
qed

lemma join_with_snoc: "ss \<noteq> [] \<Longrightarrow> join_with sep (ss @ [s]) = join_with sep ss @ sep @ s"
  by (induction ss rule: induct_list012) auto

lemma filepath_Join_plain:
  "\<exists>pre. \<forall>f. plain_name f \<longrightarrow> filepath_Join [d, f] = pre @ f"
proof (cases "d = ''''")
  case True
  have "filepath_Join [d, f] = '''' @ f" if "plain_name f" for f
    using that True
    by (cases f) (auto simp: filepath_Join_def Clean_def Split_def split_scan_plain plain_name_def
        clean_element_def HasPrefix_def Let_def)
  then show ?thesis by blast
next
  case False
  let ?rooted = "HasPrefix d ''/''"
  let ?stack = "fold (clean_element ?rooted) (Split d ''/'') []"
  let ?pre = "(if ?rooted then ''/'' else '''') @ (if ?stack = [] then '''' else join_with ''/'' ?stack @ ''/'')"
  have "filepath_Join [d, f] = ?pre @ f" if f: "plain_name f" for f
  proof -
    have "Split (d @ ''/'' @ f) ''/'' = Split d ''/'' @ [f]"
      using f by (simp add: Split_def split_scan_snoc plain_name_def)
    moreover have "HasPrefix (d @ ''/'' @ f) ''/'' = ?rooted"
      using False by (cases d) (simp_all add: HasPrefix_def)
    ultimately have "Clean (d @ ''/'' @ f) =
        (let out = (if ?rooted then ''/'' else '''') @ join_with ''/'' (?stack @ [f]) in if out = '''' then ''.'' else out)"
      using f by (simp add: Clean_def clean_element_def plain_name_def Let_def)
    also have "\<dots> = ?pre @ f"
      using f by (cases "?stack = []") (auto simp: join_with_snoc plain_name_def Let_def)
    finally show ?thesis using False f by (simp add: filepath_Join_def plain_name_def)
  qed
  then show ?thesis by blast
qed

section \<open>The operating system and the certificate library\<close>

record 'd os_lib =
  os_UserHomeDir :: "error + string"
  os_Stat :: "string \<Rightarrow> ('d, error option) ext_call"
  os_IsNotExist :: "error \<Rightarrow> bool"
  os_ReadFile :: "string \<Rightarrow> ('d, error + string) ext_call"
  os_WriteFile :: "string \<Rightarrow> string \<Rightarrow> nat \<Rightarrow> ('d, error option) ext_call"
  os_MkdirAll :: "string \<Rightarrow> nat \<Rightarrow> ('d, error option) ext_call"
  os_Hostname :: "('d, error + string) ext_call"

text \<open>
  A loaded key pair is of type \<open>'t\<close>, a certificate pool of type \<open>'q\<close>; \<open>pk_CommonName\<close> is the
  subject of the first certificate of a pair, or the error of parsing it.
\<close>

record ('d, 't, 'q) pki_lib =
  pk_LoadX509KeyPair :: "string \<Rightarrow> string \<Rightarrow> ('d, error + 't) ext_call"
  pk_AppendCertsFromPEM :: "string \<Rightarrow> 'q option"
  pk_CommonName :: "'t \<Rightarrow> error + string"

definition defaultCertDir :: "'d os_lib \<Rightarrow> string" where
  "defaultCertDir os =
     (case os_UserHomeDir os of
        Inl _ \<Rightarrow> ''.worldland/certs''
      | Inr home \<Rightarrow> filepath_Join [home, ''.worldland'', ''certs''])"

fun stat_loop :: "'d os_lib \<Rightarrow> string list \<Rightarrow> 'd world \<Rightarrow> bool \<times> 'd world" where
  "stat_loop os [] w = (True, w)"
| "stat_loop os (f # fs) w =
     (case ext_run (os_Stat os f) w of
        (Some err, w1) \<Rightarrow> if os_IsNotExist os err then (False, w1) else stat_loop os fs w1
      | (None, w1) \<Rightarrow> stat_loop os fs w1)"

definition certsExist :: "'d os_lib \<Rightarrow> string \<Rightarrow> string \<Rightarrow> string \<Rightarrow> 'd world \<Rightarrow> bool \<times> 'd world" where
  "certsExist os certFile keyFile caFile w = stat_loop os [certFile, keyFile, caFile] w"

text \<open>\<open>strings.TrimSpace\<close> on ASCII text.\<close>

definition is_space :: "char \<Rightarrow> bool" where
  "is_space c = ((of_char c :: nat) \<in> {9, 10, 11, 12, 13, 32})"

definition TrimSpace :: "string \<Rightarrow> string" where
  "TrimSpace s = rev (dropWhile is_space (rev (dropWhile is_space s)))"

definition getMachineID :: "'d os_lib \<Rightarrow> 'd world \<Rightarrow> (string \<times> 'd world) outcome" where
  "getMachineID os w =
     (let fallback = (\<lambda>w1.
            case ext_run (os_Hostname os) w1 of
              (Inl _, w2) \<Rightarrow> Returns (''CPU-unknown'', w2)
            | (Inr hostname, w2) \<Rightarrow> Returns (''CPU-'' @ hostname, w2))
      in case ext_run (os_ReadFile os ''/etc/machine-id'') w of
           (Inl _, w1) \<Rightarrow> fallback w1
         | (Inr data, w1) \<Rightarrow>
             (let machineID = TrimSpace data in
              if machineID \<noteq> '''' then
                outcome_bind (slice_to 16 machineID) (\<lambda>s. Returns (''MACHINE-'' @ s, w1))
              else fallback w1))"

text \<open>\<open>getGPUUUID\<close>; the deferred shutdown runs on every path after a successful \<open>Init\<close>.\<close>

definition getGPUUUID :: "'d GPUProvider \<Rightarrow> 'd world \<Rightarrow> string \<times> 'd world" where
  "getGPUUUID provider w =
     (case gp_Init provider w of
        (Some _, w1) \<Rightarrow> (''GPU-UNKNOWN'', w1)
      | (None, w1) \<Rightarrow>
          (case gp_GetSpecs provider w1 of
             (r, w2) \<Rightarrow>
               ((case r of Inr (spec # _) \<Rightarrow> gs_UUID spec | _ \<Rightarrow> ''GPU-UNKNOWN''),
                snd (gp_Shutdown provider w2))))"

text \<open>The permissions are \<open>0700\<close>, \<open>0644\<close> and \<open>0600\<close>, here in decimal.\<close>

definition saveCertificates ::
  "'d os_lib \<Rightarrow> string \<Rightarrow> CertificateBundle \<Rightarrow> 'd world \<Rightarrow> (error + string \<times> string \<times> string) \<times> 'd world" where
  "saveCertificates os certDir bundle w =
     (case ext_run (os_MkdirAll os certDir 448) w of
        (Some err, w1) \<Rightarrow> (Inl err, w1)
      | (None, w1) \<Rightarrow>
          let certPath = filepath_Join [certDir, ''node.crt''];
              keyPath = filepath_Join [certDir, ''node.key''];
              caPath = filepath_Join [certDir, ''ca.crt'']
          in case ext_run (os_WriteFile os certPath (cb_Certificate bundle) 420) w1 of
               (Some err, w2) \<Rightarrow> (Inl err, w2)
             | (None, w2) \<Rightarrow>
                 (case ext_run (os_WriteFile os keyPath (cb_PrivateKey bundle) 384) w2 of
                    (Some err, w3) \<Rightarrow> (Inl err, w3)
                  | (None, w3) \<Rightarrow>
                      (case ext_run (os_WriteFile os caPath (cb_CACertificate bundle) 420) w3 of
                         (Some err, w4) \<Rightarrow> (Inl err, w4)
                       | (None, w4) \<Rightarrow> (Inr (certPath, keyPath, caPath), w4))))"

section \<open>Flags and their checks\<close>

record flags =
  fl_hub :: string
  fl_hubHTTP :: string
  fl_apiPort :: string
  fl_host :: string
  fl_cert :: string
  fl_key :: string
  fl_ca :: string
  fl_certDir :: string
  fl_nodeID :: string
  fl_enableMining :: bool
  fl_miningImage :: string
  fl_miningDataDir :: string
  fl_privateKey :: string
  fl_privateKeyFile :: string
  fl_siweDomain :: string
  fl_gpuType :: string
  fl_memoryGB :: int
  fl_pricePerSec :: string

definition default_flags :: "'d os_lib \<Rightarrow> flags" where
  "default_flags os =
     \<lparr>fl_hub = ''localhost:8443'', fl_hubHTTP = '''', fl_apiPort = ''8444'', fl_host = '''', fl_cert = '''',
      fl_key = '''', fl_ca = '''', fl_certDir = defaultCertDir os, fl_nodeID = '''', fl_enableMining = True,
      fl_miningImage = ''mingeyom/worldland-mio:latest'', fl_miningDataDir = ''/data/worldland'',
      fl_privateKey = '''', fl_privateKeyFile = '''', fl_siweDomain = '''', fl_gpuType = ''NVIDIA RTX 4090'',
      fl_memoryGB = 24, fl_pricePerSec = ''2777777777778''\<rparr>"

text \<open>
  The stages of \<open>main\<close>.  \<open>Inl msg\<close> is a call of \<open>log.Fatal\<close> or \<open>log.Fatalf\<close>, which ends the
  process with that message.
\<close>

definition check_price :: "string \<Rightarrow> string + unit" where
  "check_price pricePerSec =
     (case parse_int pricePerSec of
        None \<Rightarrow> Inl (''Invalid price-per-sec value: '' @ pricePerSec)
      | Some userPrice \<Rightarrow>
          if userPrice < 2777777777778 then
            Inl (''price-per-sec must be at least 2777777777778 (0.01 WLC/hr), got: '' @ pricePerSec)
          else Inr ())"

definition set_defaults :: "flags \<Rightarrow> flags" where
  "set_defaults fl =
     fl\<lparr>fl_host := (if fl_host fl = '''' then ''localhost'' else fl_host fl),
        fl_cert := (if fl_cert fl = '''' then filepath_Join [fl_certDir fl, ''node.crt''] else fl_cert fl),
        fl_key := (if fl_key fl = '''' then filepath_Join [fl_certDir fl, ''node.key''] else fl_key fl),
        fl_ca := (if fl_ca fl = '''' then filepath_Join [fl_certDir fl, ''ca.crt''] else fl_ca fl)\<rparr>"

definition detect_gpu :: "'d GPUProvider \<Rightarrow> flags \<Rightarrow> 'd world \<Rightarrow> bool \<times> flags \<times> 'd world" where
  "detect_gpu testNVML fl w =
     (case gp_Init testNVML w of
        (Some _, w1) \<Rightarrow>
          (True,
           (if fl_gpuType fl = ''NVIDIA RTX 4090'' then fl\<lparr>fl_gpuType := ''CPU Node'', fl_memoryGB := 1\<rparr> else fl),
           w1)
      | (None, w1) \<Rightarrow>
          (case gp_GetSpecs testNVML w1 of
             (r, w2) \<Rightarrow>
               (False,
                (case r of
                   Inr (spec # _) \<Rightarrow>
                     fl\<lparr>fl_gpuType := (if fl_gpuType fl = ''NVIDIA RTX 4090'' then gs_Name spec else fl_gpuType fl),
                        fl_memoryGB := (if fl_memoryGB fl = 24 then sint (gs_MemoryTotal spec div 1024) else fl_memoryGB fl)\<rparr>
                 | _ \<Rightarrow> fl),
                snd (gp_Shutdown testNVML w2))))"

definition read_private_key :: "'d os_lib \<Rightarrow> flags \<Rightarrow> 'd world \<Rightarrow> (string + string) \<times> 'd world" where
  "read_private_key os fl w =
     (if fl_privateKey fl = '''' \<and> fl_privateKeyFile fl \<noteq> '''' then
        (case ext_run (os_ReadFile os (fl_privateKeyFile fl)) w of
           (Inl err, w1) \<Rightarrow> (Inl (''Failed to read private key file: '' @ error_text err), w1)
         | (Inr data, w1) \<Rightarrow> (Inr (TrimSpace data), w1))
      else (Inr (fl_privateKey fl), w))"

definition hub_http_url :: "flags \<Rightarrow> string" where
  "hub_http_url fl =
     (if fl_hubHTTP fl = '''' then ''http://'' @ hd (Split (fl_hub fl) '':'') @ '':8080'' else fl_hubHTTP fl)"

section \<open>Authentication and registration\<close>

definition bootstrap_certificates ::
  "'d os_lib \<Rightarrow> 'd http_lib \<Rightarrow> 'k SIWEClient \<Rightarrow> flags \<Rightarrow> 'd world \<Rightarrow> (string + flags) \<times> 'd world" where
  "bootstrap_certificates os hl c fl w =
     (case certsExist os (fl_cert fl) (fl_key fl) (fl_ca fl) w of
        (True, w1) \<Rightarrow> (Inr fl, w1)
      | (False, w1) \<Rightarrow>
          (case IssueCertificate hl c w1 of
             (Inl err, w2) \<Rightarrow> (Inl (''Failed to issue bootstrap certificate: '' @ error_text err), w2)
           | (Inr bundle, w2) \<Rightarrow>
               (case saveCertificates os (fl_certDir fl) bundle w2 of
                  (Inl err, w3) \<Rightarrow> (Inl (''Failed to save certificates: '' @ error_text err), w3)
                | (Inr (certPath, keyPath, caPath), w3) \<Rightarrow>
                    (Inr (fl\<lparr>fl_cert := certPath, fl_key := keyPath, fl_ca := caPath\<rparr>), w3))))"

definition device_uuid :: "'d os_lib \<Rightarrow> 'd GPUProvider \<Rightarrow> bool \<Rightarrow> 'd world \<Rightarrow> (string \<times> 'd world) outcome" where
  "device_uuid os nvml isCPUNode w = (if isCPUNode then getMachineID os w else Returns (getGPUUUID nvml w))"

definition authenticate ::
  "'d os_lib \<Rightarrow> 'd GPUProvider \<Rightarrow> 'k crypto_lib \<Rightarrow> 'd http_lib \<Rightarrow> bool \<Rightarrow> string \<Rightarrow> flags \<Rightarrow> 'd world \<Rightarrow>
   ((string + string \<times> flags) \<times> 'd world) outcome" where
  "authenticate os nvml cl hl isCPUNode privKeyHex fl w =
     (case NewSIWEClientWithDomain cl (hub_http_url fl) privKeyHex (fl_siweDomain fl) of
        Inl err \<Rightarrow> Returns (Inl (''Failed to create SIWE client: '' @ error_text err), w)
      | Inr siweClient \<Rightarrow>
          let walletAddress = GetAddress siweClient in
          outcome_bind (Login cl hl siweClient w) (\<lambda>(res, c, w1).
            case res of
              Some err \<Rightarrow> Returns (Inl (''SIWE authentication failed: '' @ error_text err), w1)
            | None \<Rightarrow>
                (case bootstrap_certificates os hl c fl w1 of
                   (Inl msg, w2) \<Rightarrow> Returns (Inl msg, w2)
                 | (Inr fl1, w2) \<Rightarrow>
                     outcome_bind (device_uuid os nvml isCPUNode w2) (\<lambda>(deviceUUID, w3).
                       case RegisterNode hl c deviceUUID (fl_gpuType fl1) (fl_memoryGB fl1) (fl_pricePerSec fl1) w3 of
                         (Inl _, w4) \<Rightarrow> Returns (Inr (walletAddress, fl1), w4)
                       | (Inr registeredNodeID, w4) \<Rightarrow>
                           Returns (Inr (walletAddress,
                             if fl_nodeID fl1 = '''' then fl1\<lparr>fl_nodeID := registeredNodeID\<rparr> else fl1), w4)))))"

text \<open>The wallet stage: with a key it authenticates, without one the certificates must exist.\<close>

definition wallet_stage ::
  "'d os_lib \<Rightarrow> 'd GPUProvider \<Rightarrow> 'k crypto_lib \<Rightarrow> 'd http_lib \<Rightarrow> bool \<Rightarrow> flags \<Rightarrow> 'd world \<Rightarrow>
   ((string + string \<times> flags) \<times> 'd world) outcome" where
  "wallet_stage os nvml cl hl isCPUNode fl w =
     (case read_private_key os fl w of
        (Inl msg, w1) \<Rightarrow> Returns (Inl msg, w1)
      | (Inr privKeyHex, w1) \<Rightarrow>
          if privKeyHex \<noteq> '''' then authenticate os nvml cl hl isCPUNode privKeyHex fl w1
          else
            (case certsExist os (fl_cert fl) (fl_key fl) (fl_ca fl) w1 of
               (True, w2) \<Rightarrow> Returns (Inr ('''', fl), w2)
             | (False, w2) \<Rightarrow>
                 Returns (Inl (''Certificates not found at '' @ fl_certDir fl @
                   ''. Either provide -private-key for auto-bootstrap or manually place certificates.''), w2)))"

definition load_certificates ::
  "'d os_lib \<Rightarrow> ('d, 't, 'q) pki_lib \<Rightarrow> flags \<Rightarrow> 'd world \<Rightarrow> (string + 't \<times> 'q \<times> string) \<times> 'd world" where
  "load_certificates os pki fl w =
     (case ext_run (pk_LoadX509KeyPair pki (fl_cert fl) (fl_key fl)) w of
        (Inl err, w1) \<Rightarrow> (Inl (''Failed to load certificate: '' @ error_text err), w1)
      | (Inr cert, w1) \<Rightarrow>
          (case ext_run (os_ReadFile os (fl_ca fl)) w1 of
             (Inl err, w2) \<Rightarrow> (Inl (''Failed to read CA certificate: '' @ error_text err), w2)
           | (Inr caCert, w2) \<Rightarrow>
               (case pk_AppendCertsFromPEM pki caCert of
                  None \<Rightarrow> (Inl ''Failed to parse CA certificate'', w2)
                | Some caCertPool \<Rightarrow>
                    if fl_nodeID fl = '''' then
                      (case pk_CommonName pki cert of
                         Inl err \<Rightarrow> (Inl (''Failed to parse certificate for CN extraction: '' @ error_text err), w2)
                       | Inr cn \<Rightarrow>
                           if cn = '''' then (Inl ''node-id is required (certificate has no CN)'', w2)
                           else (Inr (cert, caCertPool, cn), w2))
                    else (Inr (cert, caCertPool, fl_nodeID fl), w2))))"

section \<open>Wiring the node\<close>

definition cpu_provider :: "'d GPUProvider" where
  "cpu_provider =
     MockProvider (NewMockGPUProvider
       [\<lparr>gm_UUID = ''cpu-node'', gm_Name = ''CPU Only'', gm_MemoryTotal = 0, gm_MemoryUsed = 0, gm_GPUUtil = 0,
         gm_MemoryUtil = 0, gm_Temperature = 0\<rparr>]
       [\<lparr>gs_UUID = ''cpu-node'', gs_Name = ''CPU Only'', gs_MemoryTotal = 0, gs_DriverVer = ''N/A''\<rparr>])"

definition select_provider :: "'d GPUProvider \<Rightarrow> bool \<Rightarrow> 'd world \<Rightarrow> (string + 'd GPUProvider) \<times> 'd world" where
  "select_provider realNVML isCPUNode w =
     (if isCPUNode then (Inr cpu_provider, w)
      else
        (case gp_Init realNVML w of
           (Some err, w1) \<Rightarrow> (Inl (''GPU was detected earlier but failed to initialize: '' @ error_text err), w1)
         | (None, w1) \<Rightarrow> (Inr realNVML, w1)))"

text \<open>The UUIDs collected for the mining configuration.\<close>

definition collect_gpus :: "'d GPUProvider \<Rightarrow> 'd world \<Rightarrow> string list \<times> 'd world" where
  "collect_gpus testNVML w =
     (case gp_Init testNVML w of
        (Some _, w1) \<Rightarrow> ([], w1)
      | (None, w1) \<Rightarrow>
          (case gp_GetSpecs testNVML w1 of
             (r, w2) \<Rightarrow>
               ((case r of Inl _ \<Rightarrow> [] | Inr specs \<Rightarrow> map gs_UUID specs), snd (gp_Shutdown testNVML w2))))"

definition init_mining ::
  "'d GPUProvider \<Rightarrow> bool \<Rightarrow> string \<Rightarrow> flags \<Rightarrow> 'd world \<Rightarrow> MiningDaemon option \<times> 'd world" where
  "init_mining nvml isCPUNode walletAddress fl w =
     (if fl_enableMining fl \<and> \<not> isCPUNode then
        (case collect_gpus nvml w of
           (gpuUUIDs, w1) \<Rightarrow>
             (Some (NewMiningDaemon
                \<lparr>mc_Enabled = True, mc_WalletAddress = walletAddress, mc_Image = fl_miningImage fl,
                 mc_GPUDeviceIDs = gpuUUIDs, mc_DataDir = fl_miningDataDir fl, mc_ChainID = 10396,
                 mc_P2PPort = 30303, mc_HTTPRPCPort = 8545, mc_ExtraArgs = []\<rparr>), w1))
      else (None, w))"

text \<open>
  Everything \<open>main\<close> takes from outside: the libraries, the constructor of the Docker client, the
  network once it is configured with the node's certificates, and the JSON encoder and float
  conversion the daemon uses.
\<close>

record ('d, 'k, 't, 'q, 'c) platform =
  pf_os :: "'d os_lib"
  pf_nvml :: "'d GPUProvider"
  pf_crypto :: "'k crypto_lib"
  pf_http :: "'d http_lib"
  pf_pki :: "('d, 't, 'q) pki_lib"
  pf_newClient :: "('d, error + 'd DockerClient) ext_call"
  pf_retry :: "'d retry"
  pf_net :: "'t \<Rightarrow> 'q \<Rightarrow> ('d, 'c) tls_net"
  pf_float_impl :: "rat \<Rightarrow> int64"
  pf_DialUDP :: "('d, error + string) ext_call"
  pf_zone :: int

definition build_env ::
  "('d, 'k, 't, 'q, 'c) platform \<Rightarrow> 'd DockerClient \<Rightarrow> 'd GPUProvider \<Rightarrow> 't \<Rightarrow> 'q \<Rightarrow>
   (PortManager executor_state, 'd, 'c) node_env" where
  "build_env pf cli gpuProvider cert caCertPool =
     (let docker = DockerService_iface (pf_retry pf) cli in
      \<lparr>ne_executor = executor_iface docker PortManager_iface, ne_docker = docker, ne_gpu = gpuProvider,
       ne_net = pf_net pf cert caCertPool, ne_float_impl = pf_float_impl pf,
       ne_DialUDP = pf_DialUDP pf, ne_zone = pf_zone pf\<rparr>)"

definition build_daemon ::
  "flags \<Rightarrow> string \<Rightarrow> MiningDaemon option \<Rightarrow> (PortManager executor_state, 'c) NodeDaemon" where
  "build_daemon fl nodeID miningDaemon =
     (let portManager = NewPortManager 30000 32000 (30 * minute);
          rentalExecutor = NewRentalExecutor portManager (30 * minute);
          daemon = WithRentalExecutor (rentalExecutor, []) (fl_host fl) (NewNodeDaemon nodeID)
      in case miningDaemon of None \<Rightarrow> daemon | Some md \<Rightarrow> WithMiningDaemon md daemon)"

text \<open>
  A node that is ready: the daemon, connected to the Hub, what it is wired to, and the flags as they
  have become.  The goroutines that \<open>main\<close> starts from here on are \<open>daemon_Start\<close>, \<open>Listen\<close> and
  \<open>reportMetrics\<close>, the mining daemon's \<open>Start\<close> and \<open>MonitorLoop\<close>, and the API server.
\<close>

record ('d, 'c) ready_node =
  rn_daemon :: "(PortManager executor_state, 'c) NodeDaemon"
  rn_env :: "(PortManager executor_state, 'd, 'c) node_env"
  rn_flags :: flags

definition wire_node ::
  "('d, 'k, 't, 'q, 'c) platform \<Rightarrow> bool \<Rightarrow> string \<Rightarrow> flags \<Rightarrow> 't \<Rightarrow> 'q \<Rightarrow> string \<Rightarrow> 'd world \<Rightarrow>
   (string + ('d, 'c) ready_node) \<times> 'd world" where
  "wire_node pf isCPUNode walletAddress fl cert caCertPool nodeID w =
     (case select_provider (pf_nvml pf) isCPUNode w of
        (Inl msg, w1) \<Rightarrow> (Inl msg, w1)
      | (Inr gpuProvider, w1) \<Rightarrow>
          (case NewDockerService (pf_newClient pf) w1 of
             (Inl err, w2) \<Rightarrow> (Inl (''Failed to initialize Docker service: '' @ error_text err), w2)
           | (Inr cli, w2) \<Rightarrow>
               (case init_mining (pf_nvml pf) isCPUNode walletAddress fl w2 of
                  (miningDaemon, w3) \<Rightarrow>
                    (let env = build_env pf cli gpuProvider cert caCertPool in
                     case ConnectToHub env (fl_hub fl) (build_daemon fl nodeID miningDaemon) w3 of
                       (Some err, daemon, w4) \<Rightarrow> (Inl (''Failed to connect to Hub: '' @ error_text err), w4)
                     | (None, daemon, w4) \<Rightarrow>
                         (Inr \<lparr>rn_daemon = daemon, rn_env = env, rn_flags = fl\<rparr>, w4)))))"

definition main_startup ::
  "('d, 'k, 't, 'q, 'c) platform \<Rightarrow> flags \<Rightarrow> 'd world \<Rightarrow> ((string + ('d, 'c) ready_node) \<times> 'd world) outcome" where
  "main_startup pf fl w =
     (case check_price (fl_pricePerSec fl) of
        Inl msg \<Rightarrow> Returns (Inl msg, w)
      | Inr _ \<Rightarrow>
          (case detect_gpu (pf_nvml pf) (set_defaults fl) w of
             (isCPUNode, fl1, w1) \<Rightarrow>
               outcome_bind (wallet_stage (pf_os pf) (pf_nvml pf) (pf_crypto pf) (pf_http pf) isCPUNode fl1 w1)
                 (\<lambda>(res, w2).
                    case res of
                      Inl msg \<Rightarrow> Returns (Inl msg, w2)
                    | Inr (walletAddress, fl2) \<Rightarrow>
                        (case load_certificates (pf_os pf) (pf_pki pf) fl2 w2 of
                           (Inl msg, w3) \<Rightarrow> Returns (Inl msg, w3)
                         | (Inr (cert, caCertPool, nodeID), w3) \<Rightarrow>
                             Returns (wire_node pf isCPUNode walletAddress fl2 cert caCertPool nodeID w3)))))"

section \<open>The API server and shutdown\<close>

datatype api_reply = ApiReply http_response | HealthReply | NotFoundReply

text \<open>The routes of the server's mux; every other path is answered with 404 by the library.\<close>

definition serve ::
  "('e, 'd) RentalHandler \<Rightarrow> string \<Rightarrow> 'd http_request \<Rightarrow> 'e \<Rightarrow> 'd world \<Rightarrow> (api_reply \<times> 'e \<times> 'd world) option" where
  "serve h path r e w =
     (if path = ''/rentals/start'' then map_option (\<lambda>(resp, e', w'). (ApiReply resp, e', w')) (HandleStartRental h r e w)
      else if path = ''/rentals/stop'' then
        (case HandleStopRental h r e w of (resp, e', w') \<Rightarrow> Some (ApiReply resp, e', w'))
      else if path = ''/rentals/status'' then Some (ApiReply (HandleGetStatus h r e), e, w)
      else if path = ''/health'' then Some (HealthReply, e, w)
      else Some (NotFoundReply, e, w))"

datatype client_auth = NoClientCert | RequireAndVerifyClientCert

record server_tls =
  st_ClientAuth :: client_auth
  st_MinVersion :: int

definition server_tls_config :: server_tls where
  "server_tls_config = \<lparr>st_ClientAuth = RequireAndVerifyClientCert, st_MinVersion = VersionTLS13\<rparr>"

text \<open>After the signal: mining first, then the daemon; the server's own shutdown is the library's.\<close>

definition stop_mining ::
  "'d DockerServiceInterface \<Rightarrow> MiningDaemon \<Rightarrow> 'd world \<Rightarrow> (MiningDaemon \<times> 'd world) outcome" where
  "stop_mining D md w =
     outcome_bind (Close_mining md) (\<lambda>md1.
       outcome_bind (Stop D (ctx_WithTimeout ctx_Background (10 * second) w) md1 w)
         (\<lambda>(_, md2, w1). Returns (md2, w1)))"

definition shutdown_mining ::
  "('e, 'd, 'c) node_env \<Rightarrow> ('e, 'c) NodeDaemon \<Rightarrow> 'd world \<Rightarrow> (('e, 'c) NodeDaemon \<times> 'd world) outcome" where
  "shutdown_mining env d w =
     (case nd_miningDaemon d of
        None \<Rightarrow> Returns (d, w)
      | Some md \<Rightarrow>
          outcome_bind (stop_mining (ne_docker env) md w)
            (\<lambda>(md', w1). Returns (d\<lparr>nd_miningDaemon := Some md'\<rparr>, w1)))"

definition main_shutdown ::
  "('e, 'd, 'c) node_env \<Rightarrow> ('e, 'c) NodeDaemon \<Rightarrow> 'd world \<Rightarrow> (('e, 'c) NodeDaemon \<times> 'd world) outcome" where
  "main_shutdown env d w = outcome_bind (shutdown_mining env d w) (\<lambda>(d1, w1). daemon_Stop env d1 w1)"

section \<open>What start-up establishes\<close>

lemma main_startup_stages:
  assumes "main_startup pf fl w = Returns (Inr node, w')"
  obtains isCPUNode fl1 w1 walletAddress fl2 w2 cert pool nodeID w3 where
    "check_price (fl_pricePerSec fl) = Inr ()"
    and "detect_gpu (pf_nvml pf) (set_defaults fl) w = (isCPUNode, fl1, w1)"
    and "wallet_stage (pf_os pf) (pf_nvml pf) (pf_crypto pf) (pf_http pf) isCPUNode fl1 w1 =
           Returns (Inr (walletAddress, fl2), w2)"
    and "load_certificates (pf_os pf) (pf_pki pf) fl2 w2 = (Inr (cert, pool, nodeID), w3)"
    and "wire_node pf isCPUNode walletAddress fl2 cert pool nodeID w3 = (Inr node, w')"
proof -
  obtain isCPUNode fl1 w1 where det: "detect_gpu (pf_nvml pf) (set_defaults fl) w = (isCPUNode, fl1, w1)"
    by (metis prod.exhaust)
  with assms have price: "check_price (fl_pricePerSec fl) = Inr ()"
    by (cases "check_price (fl_pricePerSec fl)") (auto simp: main_startup_def)
  from assms det price obtain res w2 where
    wal: "wallet_stage (pf_os pf) (pf_nvml pf) (pf_crypto pf) (pf_http pf) isCPUNode fl1 w1 = Returns (res, w2)"
    by (auto simp: main_startup_def outcome_bind_Returns)
  with assms det price obtain walletAddress fl2 where res: "res = Inr (walletAddress, fl2)"
    by (cases res) (auto simp: main_startup_def)
  obtain lc w3 where ld: "load_certificates (pf_os pf) (pf_pki pf) fl2 w2 = (lc, w3)" by fastforce
  with assms det price wal res obtain cert pool nodeID where lc: "lc = Inr (cert, pool, nodeID)"
    by (cases lc) (auto simp: main_startup_def)
  show thesis
    by (rule that [OF price det _ _ _]) (use assms det price wal res ld lc in \<open>auto simp: main_startup_def\<close>)
qed

lemma wire_node_ready:
  assumes "wire_node pf isCPUNode walletAddress fl cert pool nodeID w = (Inr node, w')"
  obtains gp cli md w1 w2 w3 conn where
    "select_provider (pf_nvml pf) isCPUNode w = (Inr gp, w1)"
    and "init_mining (pf_nvml pf) isCPUNode walletAddress fl w2 = (md, w3)"
    and "rn_env node = build_env pf cli gp cert pool" and "rn_flags node = fl"
    and "rn_daemon node = (build_daemon fl nodeID md)\<lparr>nd_mtlsClient := Some ((NewClient (fl_hub fl))\<lparr>ct_conn := Some conn\<rparr>)\<rparr>"
    and "NewDockerService (pf_newClient pf) w1 = (Inr cli, w2)"
proof -
  from assms obtain gp w1 cli w2 where
    sel: "select_provider (pf_nvml pf) isCPUNode w = (Inr gp, w1)"
    and dk: "NewDockerService (pf_newClient pf) w1 = (Inr cli, w2)"
    by (auto simp: wire_node_def split: prod.split_asm sum.split_asm)
  obtain md w3 where mining: "init_mining (pf_nvml pf) isCPUNode walletAddress fl w2 = (md, w3)" by fastforce
  let ?env = "build_env pf cli gp cert pool"
  from assms sel dk mining obtain d where
    conn: "ConnectToHub ?env (fl_hub fl) (build_daemon fl nodeID md) w3 = (None, d, w')"
    and node: "node = \<lparr>rn_daemon = d, rn_env = ?env, rn_flags = fl\<rparr>"
    by (auto simp: wire_node_def Let_def split: prod.split_asm option.split_asm)
  from conn obtain c where
    "d = (build_daemon fl nodeID md)\<lparr>nd_mtlsClient := Some ((NewClient (fl_hub fl))\<lparr>ct_conn := Some c\<rparr>)\<rparr>"
    by (auto simp: ConnectToHub_def Connect_def split: prod.split_asm sum.split_asm option.split_asm)
  with sel mining node that dk show thesis by simp
qed

text \<open>
  A node gets past start-up only with a price that parses as an integer and is at least the
  minimum of 2777777777778 wei per second.
\<close>

lemma startup_requires_minimum_price:
  assumes "main_startup pf fl w = Returns (Inr node, w')"
  shows "\<exists>price. parse_int (fl_pricePerSec fl) = Some price \<and> 2777777777778 \<le> price"
  by (rule main_startup_stages [OF assms])
     (auto simp: check_price_def split: option.split_asm if_split_asm)

text \<open>
  A node that comes out of start-up is ready to serve: it is connected to the Hub and not
  stopped, its executor has no rentals and satisfies the executor's invariant with a health
  interval that lets every start return, all 2001 ports of 30000 to 32000 are free, and its mining
  daemon, if it has one, is stopped with no GPU marked as rented.
\<close>

lemma ready_node_is_fresh:
  assumes "main_startup pf fl w = Returns (Inr node, w')"
  shows "\<exists>re c. nd_rentalExecutor (rn_daemon node) = Some (re, []) \<and>
     re_activeRentals re = Map.empty \<and> executor_inv pm_wf held re \<and> 0 < re_healthInterval re \<and>
     AvailableCount t (re_portManager re) = 2001 \<and>
     nd_mtlsClient (rn_daemon node) = Some c \<and> ct_conn c \<noteq> None \<and> \<not> nd_stopCh_closed (rn_daemon node) \<and>
     (\<forall>md. nd_miningDaemon (rn_daemon node) = Some md \<longrightarrow>
        md_state md = MiningStateStopped \<and> mining_wf md \<and> md_pausedGPUs md = {})"
proof (rule main_startup_stages [OF assms], rule wire_node_ready, assumption, goal_cases)
  case (1 isCPU fl1 w1 wa fl2 w2 cert pool nid w3 gp cli md w4 w5 w6 conn)
  let ?re = "NewRentalExecutor node_ports (30 * minute)"
  have "executor_inv pm_wf held ?re"
    by (simp add: executor_inv_def valid_grace_def maxDuration_def)
  moreover have "AvailableCount t node_ports = 2001"
  proof -
    have "{q \<in> {30000 .. 32000}. IsAvailable t q node_ports} = {30000 .. 32000}"
      by (auto simp: IsAvailable_def NewPortManager_def)
    then show ?thesis
      using available_scan_eq [of node_ports t 30000 0] by (simp add: AvailableCount_def NewPortManager_def)
  qed
  moreover have "md_state m = MiningStateStopped \<and> mining_wf m \<and> md_pausedGPUs m = {}" if "md = Some m" for m
    using 1(7) that
    by (auto simp: init_mining_def NewMiningDaemon_def mining_wf_def split: if_split_asm prod.split_asm)
  ultimately show ?case
    using 1(10)
    by (auto simp: build_daemon_def WithRentalExecutor_def WithMiningDaemon_def NewNodeDaemon_def Let_def
        split: option.splits)
qed

text \<open>The two facts about a ready node that the commands it then handles rely on.\<close>

lemma ready_executor:
  assumes "main_startup pf fl w = Returns (Inr node, w')"
  shows "(\<exists>cli w0 w1. NewDockerService (pf_newClient pf) w0 = (Inr cli, w1) \<and>
       ne_docker (rn_env node) = DockerService_iface (pf_retry pf) cli \<and>
       ne_executor (rn_env node) = executor_iface (DockerService_iface (pf_retry pf) cli) PortManager_iface) \<and>
     (\<exists>re jobs. nd_rentalExecutor (rn_daemon node) = Some (re, jobs) \<and> executor_inv (pm_in 30000 32000) held re)"
proof (rule main_startup_stages [OF assms], rule wire_node_ready, assumption, goal_cases)
  case (1 isCPU fl1 w1 wa fl2 w2 cert pool nid w3 gp cli md w4 w5 w6 conn)
  have "executor_inv (pm_in 30000 32000) held (NewRentalExecutor node_ports (30 * minute))"
    by (simp add: executor_inv_def pm_in_def valid_grace_def maxDuration_def) (simp add: NewPortManager_def)
  with 1(8,10,11) show ?case
    by (auto simp: build_env_def build_daemon_def WithRentalExecutor_def WithMiningDaemon_def Let_def split: option.splits)
qed

text \<open>
  A node built without NVML starts only as a CPU node: it has no mining daemon, and its metrics
  come from the fixed provider with its single, empty device.
\<close>

lemma stub_build_is_cpu_node:
  assumes "pf_nvml pf = StubProvider" and "main_startup pf fl w = Returns (Inr node, w')"
  shows "nd_miningDaemon (rn_daemon node) = None \<and> ne_gpu (rn_env node) = cpu_provider \<and>
     (\<exists>m. gp_GetMetrics (ne_gpu (rn_env node)) w0 = (Inr [m], w0) \<and> gm_UUID m = ''cpu-node'')"
proof (rule main_startup_stages [OF assms(2)], rule wire_node_ready, assumption, goal_cases)
  case (1 isCPU fl1 w1 wa fl2 w2 cert pool nid w3 gp cli md w4 w5 w6 conn)
  from 1(2) assms(1) have cpu: "isCPU" by (auto simp: detect_gpu_def StubProvider_def)
  with 1(7) have "md = None" by (simp add: init_mining_def)
  moreover from cpu 1(6) have "gp = cpu_provider" by (simp add: select_provider_def)
  ultimately show ?case
    using 1(8,10)
    by (simp add: build_env_def build_daemon_def WithRentalExecutor_def NewNodeDaemon_def Let_def
        cpu_provider_def MockProvider_def NewMockGPUProvider_def)
qed

section \<open>Certificates on disk\<close>

text \<open>What a file mode asked for becomes under the process's umask.\<close>

definition umasked :: "nat \<Rightarrow> nat \<Rightarrow> nat" where
  "umasked umask mode = nat (and (int mode) (not (int umask)))"

lemma bit_umasked: "bit (umasked umask mode) n \<longleftrightarrow> bit mode n \<and> \<not> bit umask n"
  by (simp add: umasked_def bit_nat_iff bit_simps)

lemma umasked_and: "and (umasked umask mode) k = umasked umask (and mode k)"
  by (rule bit_eqI) (auto simp: bit_umasked bit_simps)

lemma umasked_0 [simp]: "umasked umask 0 = 0"
  by (simp add: umasked_def)

text \<open>
  The documented behaviour of \<open>os.WriteFile\<close> and \<open>os.MkdirAll\<close> on the regular files of the
  outside state, by their paths, none of which is a link to another: a successful write leaves the
  new contents in that file, with the permissions asked for less the umask when the file is new and
  its old ones otherwise, and touches no other file; making directories changes no file.
\<close>

definition written :: "nat \<Rightarrow> string \<Rightarrow> string \<Rightarrow> nat \<Rightarrow> (string \<rightharpoonup> string \<times> nat) \<Rightarrow> string \<rightharpoonup> string \<times> nat" where
  "written umask p c mode fs = fs(p \<mapsto> (c, case fs p of None \<Rightarrow> umasked umask mode | Some (_, m0) \<Rightarrow> m0))"

definition file_system_spec :: "'d os_lib \<Rightarrow> nat \<Rightarrow> ('d \<Rightarrow> string \<rightharpoonup> string \<times> nat) \<Rightarrow> bool" where
  "file_system_spec os umask files \<longleftrightarrow>
     (\<forall>p c m w dt d. os_WriteFile os p c m w = (None, dt, d) \<longrightarrow> files d = written umask p c m (files (w_ext w))) \<and>
     (\<forall>p m w dt d. os_MkdirAll os p m w = (None, dt, d) \<longrightarrow> files d = files (w_ext w))"

lemma write_file_spec:
  assumes "file_system_spec os umask files" and "ext_run (os_WriteFile os p c m) w = (None, w')"
  shows "files (w_ext w') = written umask p c m (files (w_ext w))"
proof -
  obtain r dt d where call: "os_WriteFile os p c m w = (r, dt, d)" by (cases "os_WriteFile os p c m w") auto
  with assms(2) have "r = None" "w_ext w' = d" by (auto simp: ext_run_def)
  with call assms(1) show ?thesis unfolding file_system_spec_def by blast
qed

lemma make_dir_spec:
  assumes "file_system_spec os umask files" and "ext_run (os_MkdirAll os p m) w = (None, w')"
  shows "files (w_ext w') = files (w_ext w)"
proof -
  obtain r dt d where call: "os_MkdirAll os p m w = (r, dt, d)" by (cases "os_MkdirAll os p m w") auto
  with assms(2) have "r = None" "w_ext w' = d" by (auto simp: ext_run_def)
  with call assms(1) show ?thesis unfolding file_system_spec_def by blast
qed

lemma certificate_paths_distinct:
  "filepath_Join [d, ''node.crt''] \<noteq> filepath_Join [d, ''node.key'']"
  "filepath_Join [d, ''node.crt''] \<noteq> filepath_Join [d, ''ca.crt'']"
  "filepath_Join [d, ''node.key''] \<noteq> filepath_Join [d, ''ca.crt'']"
proof -
  obtain pre where "\<forall>f. plain_name f \<longrightarrow> filepath_Join [d, f] = pre @ f"
    using filepath_Join_plain by blast
  then have "filepath_Join [d, ''node.crt''] = pre @ ''node.crt''" "filepath_Join [d, ''node.key''] = pre @ ''node.key''"
    "filepath_Join [d, ''ca.crt''] = pre @ ''ca.crt''"
    by (auto simp: plain_name_def)
  then show "filepath_Join [d, ''node.crt''] \<noteq> filepath_Join [d, ''node.key'']"
    "filepath_Join [d, ''node.crt''] \<noteq> filepath_Join [d, ''ca.crt'']"
    "filepath_Join [d, ''node.key''] \<noteq> filepath_Join [d, ''ca.crt'']" by simp_all
qed

text \<open>
  C36. Certificates that were saved without an error are what is on disk: the three paths returned
  are different and hold the bundle's certificate, key and CA certificate, whatever the directory
  is called.  A key file that is new has mode 0600 less the umask, so neither its group nor others
  have any permission on it.
\<close>

theorem saved_certificates_on_disk:
  assumes fs: "file_system_spec os umask files"
    and save: "saveCertificates os certDir bundle w = (Inr (certPath, keyPath, caPath), w')"
  shows "distinct [certPath, keyPath, caPath] \<and>
    map_option fst (files (w_ext w') certPath) = Some (cb_Certificate bundle) \<and>
    map_option fst (files (w_ext w') keyPath) = Some (cb_PrivateKey bundle) \<and>
    map_option fst (files (w_ext w') caPath) = Some (cb_CACertificate bundle) \<and>
    (files (w_ext w) keyPath = None \<longrightarrow>
       (\<exists>mode. files (w_ext w') keyPath = Some (cb_PrivateKey bundle, mode) \<and>
          mode = umasked umask 384 \<and> and mode 63 = 0))"
proof -
  let ?J = "\<lambda>f. filepath_Join [certDir, f]"
  from save obtain w1 w2 w3 where
    steps: "ext_run (os_MkdirAll os certDir 448) w = (None, w1)"
      "ext_run (os_WriteFile os (?J ''node.crt'') (cb_Certificate bundle) 420) w1 = (None, w2)"
      "ext_run (os_WriteFile os (?J ''node.key'') (cb_PrivateKey bundle) 384) w2 = (None, w3)"
      "ext_run (os_WriteFile os (?J ''ca.crt'') (cb_CACertificate bundle) 420) w3 = (None, w')"
    and paths: "certPath = ?J ''node.crt''" "keyPath = ?J ''node.key''" "caPath = ?J ''ca.crt''"
    by (auto simp: saveCertificates_def Let_def split: prod.split_asm option.split_asm)
  note effects = make_dir_spec [OF fs steps(1)] write_file_spec [OF fs steps(2)]
    write_file_spec [OF fs steps(3)] write_file_spec [OF fs steps(4)]
  have "and (umasked umask 384) 63 = 0" by (simp add: umasked_and)
  then show ?thesis
    unfolding paths using certificate_paths_distinct [of certDir] effects
    by (simp add: written_def certificate_paths_distinct [symmetric])
qed

text \<open>
  \<open>getMachineID\<close> panics exactly when \<open>/etc/machine-id\<close> holds some text, but fewer than sixteen
  characters; a CPU node on such a machine crashes during registration.
\<close>

lemma getMachineID_panics_iff:
  "getMachineID os w = Panics \<longleftrightarrow>
     (\<exists>data w1. ext_run (os_ReadFile os ''/etc/machine-id'') w = (Inr data, w1) \<and>
        TrimSpace data \<noteq> '''' \<and> length (TrimSpace data) < 16)"
  by (auto simp: getMachineID_def slice_to_def Let_def split: prod.split sum.split)

section \<open>Shutdown\<close>

lemma stop_mining_returns:
  assumes "\<not> md_stopCh_closed md" "mining_wf md" "md_containerID md = '''' \<or> 12 \<le> length (md_containerID md)"
  shows "\<exists>md' w1. stop_mining D md w = Returns (md', w1) \<and> md_state md' = MiningStateStopped \<and>
           md_containerID md' = '''' \<and> md_stopCh_closed md'"
  using assms
  by (cases "md_state md = MiningStateStopped"; cases "md_containerID md = ''''")
     (simp_all add: stop_mining_def Close_mining_def Stop_def mining_wf_def go_eval Let_def)

text \<open>
  A shutdown of a daemon that was not stopped before returns, whatever Docker answers, and leaves
  it stopped: the stop channels are closed, and the mining daemon has no container any more.  The
  one condition is on the container ID, whose first twelve characters the code logs.
\<close>

lemma shutdown_mining_returns:
  assumes "\<forall>md. nd_miningDaemon d = Some md \<longrightarrow> \<not> md_stopCh_closed md \<and> mining_wf md \<and>
           (md_containerID md = '''' \<or> 12 \<le> length (md_containerID md))"
  obtains d1 w1 where "shutdown_mining env d w = Returns (d1, w1)"
    "nd_stopCh_closed d1 = nd_stopCh_closed d" "nd_mtlsClient d1 = nd_mtlsClient d"
    "\<forall>md. nd_miningDaemon d1 = Some md \<longrightarrow>
       md_state md = MiningStateStopped \<and> md_containerID md = '''' \<and> md_stopCh_closed md"
proof (cases "nd_miningDaemon d")
  case None
  with that [of d w] show ?thesis by (simp add: shutdown_mining_def)
next
  case (Some md)
  with assms stop_mining_returns [of md "ne_docker env" w] obtain md' w1 where
    "stop_mining (ne_docker env) md w = Returns (md', w1)" "md_state md' = MiningStateStopped"
    "md_containerID md' = ''''" "md_stopCh_closed md'" by blast
  with Some that [of "d\<lparr>nd_miningDaemon := Some md'\<rparr>" w1] show ?thesis by (simp add: shutdown_mining_def)
qed

lemma daemon_Stop_returns:
  assumes "\<not> nd_stopCh_closed d" and "\<forall>c. nd_mtlsClient d = Some c \<longrightarrow> \<not> ct_stopCh_closed c"
  obtains d' w' where "daemon_Stop env d w = Returns (d', w')" "nd_stopCh_closed d'"
    "\<forall>c. nd_mtlsClient d' = Some c \<longrightarrow> ct_stopCh_closed c" "nd_miningDaemon d' = nd_miningDaemon d"
proof (cases "nd_mtlsClient d")
  case None
  with assms that [of "d\<lparr>nd_stopCh_closed := True\<rparr>" w] show ?thesis by (simp add: daemon_Stop_def Let_def)
next
  case (Some c)
  with assms(2) obtain c' w' where "Close_client (ne_net env) c w = Returns (c', w')" "ct_stopCh_closed c'"
    by (auto simp: Close_client_def split: option.splits)
  with Some assms(1) that [of "d\<lparr>nd_stopCh_closed := True, nd_mtlsClient := Some c'\<rparr>" w'] show ?thesis
    by (simp add: daemon_Stop_def Let_def)
qed

lemma shutdown_stops:
  assumes "\<not> nd_stopCh_closed d" and "\<forall>c. nd_mtlsClient d = Some c \<longrightarrow> \<not> ct_stopCh_closed c"
    and "\<forall>md. nd_miningDaemon d = Some md \<longrightarrow> \<not> md_stopCh_closed md \<and> mining_wf md \<and>
           (md_containerID md = '''' \<or> 12 \<le> length (md_containerID md))"
  shows "\<exists>d' w'. main_shutdown env d w = Returns (d', w') \<and> nd_stopCh_closed d' \<and>
     (\<forall>c. nd_mtlsClient d' = Some c \<longrightarrow> ct_stopCh_closed c) \<and>
     (\<forall>md. nd_miningDaemon d' = Some md \<longrightarrow>
        md_state md = MiningStateStopped \<and> md_containerID md = '''' \<and> md_stopCh_closed md)"
proof -
  obtain d1 w1 where mining: "shutdown_mining env d w = Returns (d1, w1)"
    "nd_stopCh_closed d1 = nd_stopCh_closed d" "nd_mtlsClient d1 = nd_mtlsClient d"
    "\<forall>md. nd_miningDaemon d1 = Some md \<longrightarrow>
       md_state md = MiningStateStopped \<and> md_containerID md = '''' \<and> md_stopCh_closed md"
    by (rule shutdown_mining_returns [OF assms(3)])
  with assms(1,2) obtain d' w' where "daemon_Stop env d1 w1 = Returns (d', w')" "nd_stopCh_closed d'"
    "\<forall>c. nd_mtlsClient d' = Some c \<longrightarrow> ct_stopCh_closed c" "nd_miningDaemon d' = nd_miningDaemon d1"
    by (metis daemon_Stop_returns)
  with mining show ?thesis by (simp add: main_shutdown_def)
qed

section \<open>A platform for the witnesses\<close>

type_synonym demo_files = "string \<rightharpoonup> string \<times> nat"

definition demo_os :: "demo_files os_lib" where
  "demo_os =
     \<lparr>os_UserHomeDir = Inr ''/root'',
      os_Stat = (\<lambda>p w. (None, 0, w_ext w)),
      os_IsNotExist = (\<lambda>_. True),
      os_ReadFile = (\<lambda>p w. (Inr ''text'', 0, w_ext w)),
      os_WriteFile = (\<lambda>p c m w. (None, 0, written 18 p c m (w_ext w))),
      os_MkdirAll = (\<lambda>p m w. (None, 0, w_ext w)),
      os_Hostname = (\<lambda>w. (Inr ''host'', 0, w_ext w))\<rparr>"

definition demo_pki :: "(demo_files, unit, unit) pki_lib" where
  "demo_pki =
     \<lparr>pk_LoadX509KeyPair = (\<lambda>c k w. (Inr (), 0, w_ext w)), pk_AppendCertsFromPEM = (\<lambda>_. Some ()),
      pk_CommonName = (\<lambda>_. Inr ''node-1'')\<rparr>"

definition silent_cli :: "'d DockerClient" where
  "silent_cli =
     \<lparr>cl_ContainerCreate = (\<lambda>ctx cfg hc name w. (Inr ''container-123'', 0, w_ext w)),
      cl_ContainerStart = (\<lambda>ctx cid w. (None, 0, w_ext w)),
      cl_ContainerStop = (\<lambda>ctx cid t w. (None, 0, w_ext w)),
      cl_ContainerRemove = (\<lambda>ctx cid v f w. (None, 0, w_ext w)),
      cl_ContainerInspect = (\<lambda>ctx cid w. (Inr (demo_inspect cid), 0, w_ext w)),
      cl_ContainerWait = (\<lambda>ctx cid w. (WaitResponse, 0, w_ext w)),
      cl_ImagePull = (\<lambda>ctx im w. (Inr None, 0, w_ext w)),
      cl_ImageInspect = (\<lambda>ctx im w. (None, 0, w_ext w)),
      cl_Close = (\<lambda>w. (None, 0, w_ext w))\<rparr>"

definition silent_hub :: "'d http_lib" where
  "silent_hub = \<lparr>hh_NewRequest = (\<lambda>_. None), hh_Do = (\<lambda>t call w. (Inl (ErrorString ''no route''), 0, w_ext w)),
     hh_decode_error = (\<lambda>_. ErrorString ''EOF'')\<rparr>"

definition demo_platform :: "(demo_files, byte, unit, unit, unit) platform" where
  "demo_platform =
     \<lparr>pf_os = demo_os, pf_nvml = StubProvider, pf_crypto = demo_crypto, pf_http = silent_hub, pf_pki = demo_pki,
      pf_newClient = (\<lambda>w. (Inr silent_cli, 0, w_ext w)), pf_retry = demo_retry, pf_net = (\<lambda>_ _. text_net demo_stop_text),
      pf_float_impl = (\<lambda>_. 0), pf_DialUDP = (\<lambda>w. (Inr ''10.0.0.1'', 0, w_ext w)),
      pf_zone = 0\<rparr>"

definition demo_world :: "demo_files world" where
  "demo_world = \<lparr>w_clock = 0, w_lag = (\<lambda>_. 0), w_ext = Map.empty\<rparr>"

lemma demo_price: "check_price ''2777777777778'' = Inr ()"
proof -
  have "parse_int ''2777777777778'' = Some 2777777777778"
    by (simp add: parse_int_def parse_nat_def is_digit_def decimal_value_def)
  then show ?thesis by (simp add: check_price_def)
qed

lemma demo_node:
  "\<exists>node w'. main_startup demo_platform (default_flags demo_os) demo_world = Returns (Inr node, w') \<and>
     rn_daemon node = (build_daemon (rn_flags node) ''node-1'' None)
       \<lparr>nd_mtlsClient := Some ((NewClient (fl_hub (rn_flags node)))\<lparr>ct_conn := Some ()\<rparr>)\<rparr> \<and>
     rn_env node = build_env demo_platform silent_cli cpu_provider () ()"
  by (simp add: main_startup_def default_flags_def demo_price detect_gpu_def set_defaults_def demo_platform_def
      StubProvider_def wallet_stage_def read_private_key_def certsExist_def go_eval demo_os_def
      load_certificates_def demo_pki_def wire_node_def select_provider_def NewDockerService_def init_mining_def
      ConnectToHub_def Connect_def build_env_def text_net_def Let_def)

lemma demo_startup:
  "\<exists>node w'. main_startup demo_platform (default_flags demo_os) demo_world = Returns (Inr node, w')"
  using demo_node by blast

text \<open>Its umask is 0022, here in decimal.\<close>

lemma demo_file_system: "file_system_spec demo_os 18 id"
  by (simp add: file_system_spec_def demo_os_def)

definition demo_bundle :: CertificateBundle where
  "demo_bundle = \<lparr>cb_Certificate = ''CERT'', cb_PrivateKey = ''KEY'', cb_CACertificate = ''CA'',
     cb_ExpiresAt = '''', cb_WalletAddress = ''''\<rparr>"

theorem saved_certificates_on_disk_witness:
  "\<exists>certPath keyPath caPath w'. saveCertificates demo_os ''certs'' demo_bundle demo_world =
       (Inr (certPath, keyPath, caPath), w') \<and>
     certPath \<noteq> keyPath \<and> w_ext w' keyPath = Some (''KEY'', 384)"
proof -
  obtain certPath keyPath caPath w' where
    save: "saveCertificates demo_os ''certs'' demo_bundle demo_world = (Inr (certPath, keyPath, caPath), w')"
    by (simp add: saveCertificates_def demo_os_def go_eval Let_def)
  have "umasked 18 384 = 384" by (simp add: umasked_def)
  with saved_certificates_on_disk [OF demo_file_system save] save show ?thesis
    by (simp add: demo_bundle_def demo_world_def)
qed

end
