(* ===== verification/Node_System.thy ===== *)
theory Node_System
  imports Node_Main
begin

text \<open>
  The running node: the goroutines that \<open>main\<close> of \<open>cmd/node/main.go\<close> starts once the components are
  wired, as one step relation over the daemon, its executor and its mining daemon, from the end of
  start-up to the end of shutdown.  A step is a call of one component's operation; what can happen
  inside two calls at once is the subject of \<open>Rental_Concurrency\<close> and \<open>Mining_Concurrency\<close>.
\<close>

section \<open>Steps\<close>

text \<open>
  How far the process is: a signal has it stop the mining daemon, the daemon and the API server, in
  this order, before \<open>main\<close> returns.
\<close>

datatype node_phase = Serving | Mining_stopped | Daemon_stopped | Ended

text \<open>
  \<open>ns_monitored\<close>: the goroutine of the mining daemon is past its first \<open>Start\<close> and in the monitor loop.
\<close>

record ('d, 'c) running_node =
  ns_daemon :: "(PortManager executor_state, 'c) NodeDaemon"
  ns_world :: "'d world"
  ns_monitored :: bool
  ns_phase :: node_phase

abbreviation ns_ended :: "('d, 'c) running_node \<Rightarrow> bool" where
  "ns_ended s \<equiv> ns_phase s = Ended"

text \<open>The daemon, and with it the connection to the Hub, is not stopped yet.\<close>

abbreviation ns_attached :: "('d, 'c) running_node \<Rightarrow> bool" where
  "ns_attached s \<equiv> ns_phase s = Serving \<or> ns_phase s = Mining_stopped"

definition launch :: "('d, 'c) ready_node \<Rightarrow> 'd world \<Rightarrow> ('d, 'c) running_node" where
  "launch node w = \<lparr>ns_daemon = rn_daemon node, ns_world = w, ns_monitored = False, ns_phase = Serving\<rparr>"

text \<open>
  One turn of the read loop, a round of reconnecting, a request to the API server, a cleanup
  goroutine whose sleep is over, the mining daemon's first start, a restart goroutine, a tick of its
  monitor, a heartbeat, anything outside the process that takes time, and the three stages of the
  shutdown.  Until the API server is shut down the process goes on with what it is doing.  An error
  of the API server ends the process at once.
\<close>

inductive node_step ::
  "(PortManager executor_state, 'd, 'c) node_env \<Rightarrow> ('d, 'c) running_node \<Rightarrow> ('d, 'c) running_node \<Rightarrow> bool"
  for env where
  hub_turn: "ns_attached s \<Longrightarrow> nd_mtlsClient (ns_daemon s) = Some c \<Longrightarrow> ct_conn c = Some conn \<Longrightarrow>
    read_loop (ne_net env) (Some (handleCommand env)) conn [False] (ns_daemon s) (ns_world s) =
      Returns (ended, tr, d', w') \<Longrightarrow>
    node_step env s (s\<lparr>ns_daemon := d', ns_world := w'\<rparr>)"
| hub_reconnect: "ns_attached s \<Longrightarrow> nd_mtlsClient (ns_daemon s) = Some c \<Longrightarrow>
    reconnect_loop (ne_net env) waits initial_backoff c (ns_world s) = (res, c', w') \<Longrightarrow>
    node_step env s (s\<lparr>ns_daemon := (ns_daemon s)\<lparr>nd_mtlsClient := Some c'\<rparr>, ns_world := w'\<rparr>)"
| api_request: "\<not> ns_ended s \<Longrightarrow> nd_rentalExecutor (ns_daemon s) = Some e \<Longrightarrow>
    serve (NewRentalHandler (ne_executor env) (nd_hostAddr (ns_daemon s))) path r e (ns_world s) =
      Some (reply, e', w') \<Longrightarrow>
    node_step env s (s\<lparr>ns_daemon := (ns_daemon s)\<lparr>nd_rentalExecutor := Some e'\<rparr>, ns_world := w'\<rparr>)"
| cleanup: "\<not> ns_ended s \<Longrightarrow> nd_rentalExecutor (ns_daemon s) = Some (re, before @ job # after) \<Longrightarrow>
    cleanup_after_sleep (ne_docker env) PortManager_iface job re (ns_world s) = (re', w') \<Longrightarrow>
    node_step env s
      (s\<lparr>ns_daemon := (ns_daemon s)\<lparr>nd_rentalExecutor := Some (re', before @ after)\<rparr>, ns_world := w'\<rparr>)"
| mining_start: "\<not> ns_ended s \<Longrightarrow> \<not> ns_monitored s \<Longrightarrow> nd_miningDaemon (ns_daemon s) = Some md \<Longrightarrow>
    Start (ne_docker env) ctx_Background md (ns_world s) = Returns (r, md', w') \<Longrightarrow>
    node_step env s
      (s\<lparr>ns_daemon := (ns_daemon s)\<lparr>nd_miningDaemon := Some md'\<rparr>, ns_world := w', ns_monitored := True\<rparr>)"
| mining_restart: "\<not> ns_ended s \<Longrightarrow> nd_restarts (ns_daemon s) = Suc n \<Longrightarrow>
    nd_miningDaemon (ns_daemon s) = Some md \<Longrightarrow>
    background_restart (ne_docker env) md (ns_world s) = Returns (md', w') \<Longrightarrow>
    node_step env s
      (s\<lparr>ns_daemon := (ns_daemon s)\<lparr>nd_miningDaemon := Some md', nd_restarts := n\<rparr>, ns_world := w'\<rparr>)"
| mining_monitor: "\<not> ns_ended s \<Longrightarrow> ns_monitored s \<Longrightarrow> nd_miningDaemon (ns_daemon s) = Some md \<Longrightarrow>
    monitor_tick (ne_docker env) ctx_Background md (ns_world s) = Returns (md', w') \<Longrightarrow>
    node_step env s (s\<lparr>ns_daemon := (ns_daemon s)\<lparr>nd_miningDaemon := Some md'\<rparr>, ns_world := w'\<rparr>)"
| heartbeat: "\<not> ns_ended s \<Longrightarrow> report_tick env (ns_daemon s) (ns_world s) = (hb, w') \<Longrightarrow>
    node_step env s (s\<lparr>ns_world := w'\<rparr>)"
| outside: "w_clock (ns_world s) \<le> w_clock w' \<Longrightarrow> node_step env s (s\<lparr>ns_world := w'\<rparr>)"
| shutdown_mining: "ns_phase s = Serving \<Longrightarrow>
    shutdown_mining env (ns_daemon s) (ns_world s) = Returns (d', w') \<Longrightarrow>
    node_step env s (s\<lparr>ns_daemon := d', ns_world := w', ns_phase := Mining_stopped\<rparr>)"
| shutdown_daemon: "ns_phase s = Mining_stopped \<Longrightarrow>
    daemon_Stop env (ns_daemon s) (ns_world s) = Returns (d', w') \<Longrightarrow>
    node_step env s (s\<lparr>ns_daemon := d', ns_world := w', ns_phase := Daemon_stopped\<rparr>)"
| shutdown_server: "ns_phase s = Daemon_stopped \<Longrightarrow> w_clock (ns_world s) \<le> w_clock w' \<Longrightarrow>
    node_step env s (s\<lparr>ns_world := w', ns_phase := Ended\<rparr>)"
| server_failed: "\<not> ns_ended s \<Longrightarrow> node_step env s (s\<lparr>ns_phase := Ended\<rparr>)"

text \<open>
  The states a node reaches.  With \<open>once\<close>, only runs count in which no session is stopped again
  while its cleanup is still to come; the code itself does not prevent that.
\<close>

definition cleanups_distinct :: "('p executor_state, 'c) NodeDaemon \<Rightarrow> bool" where
  "cleanups_distinct d \<longleftrightarrow>
     (case nd_rentalExecutor d of None \<Rightarrow> True | Some (re, jobs) \<Rightarrow> distinct (map cj_sessionID jobs))"

inductive node_reaches ::
  "(PortManager executor_state, 'd, 'c) node_env \<Rightarrow> bool \<Rightarrow> ('d, 'c) running_node \<Rightarrow> ('d, 'c) running_node \<Rightarrow> bool"
  for env once s0 where
  start: "node_reaches env once s0 s0"
| step: "node_reaches env once s0 s \<Longrightarrow> node_step env s s' \<Longrightarrow>
    once \<longrightarrow> cleanups_distinct (ns_daemon s') \<Longrightarrow> node_reaches env once s0 s'"

section \<open>What a step does to the executor and to the mining daemon\<close>

inductive executor_call :: "('e, 'd) RentalExecutorInterface \<Rightarrow> 'e \<Rightarrow> 'e \<Rightarrow> bool" for E where
  unchanged: "executor_call E e e"
| started: "sr_SessionID req \<noteq> '''' \<Longrightarrow> ei_StartRental E ctx req e w = Some (r, e', w') \<Longrightarrow> executor_call E e e'"
| stopped: "ei_StopRental E ctx sid e w = (r, e', w') \<Longrightarrow> executor_call E e e'"

inductive mining_call :: "'d DockerServiceInterface \<Rightarrow> MiningDaemon \<Rightarrow> MiningDaemon \<Rightarrow> bool" for D where
  idle: "mining_call D md md"
| begun: "Start D ctx md w = Returns (r, md', w') \<Longrightarrow> mining_call D md md'"
| paused: "PauseForRental D ctx gpus md w = (b, md', w') \<Longrightarrow> mining_call D md md'"
| resumed: "ResumeAfterRental D ctx [] md w = Returns (r, md', w') \<Longrightarrow> mining_call D md md'"
| restarted: "background_restart D md w = Returns (md', w') \<Longrightarrow> mining_call D md md'"
| monitored: "monitor_tick D ctx md w = Returns (md', w') \<Longrightarrow> mining_call D md md'"

text \<open>
  The effect of a call of the daemon: at most one call of the executor, at most one of the mining
  daemon, and nothing else but the number of restart goroutines.
\<close>

definition daemon_effect ::
  "('e, 'd, 'c) node_env \<Rightarrow> ('e, 'c) NodeDaemon \<Rightarrow> ('e, 'c) NodeDaemon \<Rightarrow> bool" where
  "daemon_effect env d d' \<longleftrightarrow>
     rel_option (executor_call (ne_executor env)) (nd_rentalExecutor d) (nd_rentalExecutor d') \<and>
     rel_option (mining_call (ne_docker env)) (nd_miningDaemon d) (nd_miningDaemon d') \<and>
     nd_mtlsClient d' = nd_mtlsClient d \<and> nd_stopCh_closed d' = nd_stopCh_closed d \<and>
     nd_hostAddr d' = nd_hostAddr d"

lemma rel_option_refl [simp]: "(\<And>x. R x x) \<Longrightarrow> rel_option R x x"
  by (cases x) auto

lemma daemon_effect_refl [simp]: "daemon_effect env d d"
  by (simp add: daemon_effect_def executor_call.unchanged mining_call.idle)

lemma pause_mining_effect:
  assumes "pause_mining env gpu d w = (d', w')"
  shows "daemon_effect env d d' \<and> nd_rentalExecutor d' = nd_rentalExecutor d"
  using assms
  by (auto simp: pause_mining_def daemon_effect_def executor_call.unchanged mining_call.idle
      split: option.splits if_splits prod.splits intro: mining_call.paused)

lemma resume_mining_effect:
  assumes "resume_mining env d w = Returns (d', w')"
  shows "daemon_effect env d d' \<and> nd_rentalExecutor d' = nd_rentalExecutor d"
  using assms
  by (auto simp: resume_mining_def daemon_effect_def executor_call.unchanged mining_call.idle outcome_bind_Returns
      split: option.splits intro: mining_call.resumed)

lemma daemon_effect_executor:
  assumes "daemon_effect env d0 d1" and "nd_rentalExecutor d0 = Some e" and "executor_call (ne_executor env) e e'"
  shows "daemon_effect env d0 (d1\<lparr>nd_rentalExecutor := Some e'\<rparr>)"
  using assms by (simp add: daemon_effect_def)

lemma handleStartRental_effect:
  assumes "handleStartRental env cmd d w = Returns (ack, d', w')"
  shows "daemon_effect env d d'"
proof (cases "nd_rentalExecutor d = None \<or> payload_string (cmd_Payload cmd) ''session_id'' = ''''")
  case True
  with assms show ?thesis by (auto simp: handleStartRental_def split: option.splits)
next
  case False
  then obtain ex where ex: "nd_rentalExecutor d = Some ex" "payload_string (cmd_Payload cmd) ''session_id'' \<noteq> ''''" by auto
  show ?thesis
  proof (rule handleStartRental_runs [OF assms ex], goal_cases)
    case (1 d1 w1 res ex' w2)
    have "sr_SessionID (command_request (ne_float_impl env) cmd (nd_hostAddr d)) \<noteq> ''''"
      using ex(2) by (simp add: command_request_def Let_def)
    with 1 pause_mining_effect [of env _ d w d1 w1] ex show ?case
      by (auto intro!: daemon_effect_executor intro: executor_call.started)
  qed
qed

lemma handleStopRental_effect:
  assumes "handleStopRental env cmd d w = Returns (ack, d', w')"
  shows "daemon_effect env d d'"
proof (cases "nd_rentalExecutor d = None \<or> payload_string (cmd_Payload cmd) ''session_id'' = ''''")
  case True
  with assms show ?thesis by (auto simp: handleStopRental_def Let_def split: option.splits)
next
  case False
  then obtain ex where ex: "nd_rentalExecutor d = Some ex" "payload_string (cmd_Payload cmd) ''session_id'' \<noteq> ''''" by auto
  show ?thesis
  proof (rule handleStopRental_runs [OF assms ex(1) refl ex(2)], goal_cases)
    case (1 res ex' w1)
    then have call: "executor_call (ne_executor env) ex ex'" by (blast intro: executor_call.stopped)
    show ?case
    proof (cases res)
      case None
      with 1 resume_mining_effect [of env "d\<lparr>nd_rentalExecutor := Some ex'\<rparr>" w1 d' w'] call ex(1) show ?thesis
        by (simp add: daemon_effect_def)
    next
      case (Some err)
      with 1 call ex(1) show ?thesis by (simp add: daemon_effect_executor)
    qed
  qed
qed

lemma handleCommand_effect: "handleCommand env cmd d w = Returns (ack, d', w') \<Longrightarrow> daemon_effect env d d'"
  by (auto simp: handleCommand_def split: if_splits dest: handleStartRental_effect handleStopRental_effect)

lemma hub_turn_effect:
  assumes "read_loop net (Some (handleCommand env)) conn [False] d w = Returns (ended, tr, d', w')"
  shows "daemon_effect env d d'"
  using assms
  by (auto simp: outcome_bind_Returns call_OnCommand_def handleCommand_effect
      split: prod.splits sum.splits option.splits)

lemma serve_effect:
  assumes "serve (NewRentalHandler E host) path r e w = Some (reply, e', w')"
  shows "executor_call E e e'"
proof -
  have stop: "executor_call E e e'" if "HandleStopRental (NewRentalHandler E host) r e w = (resp, e', w')" for resp
    using that
    by (auto simp: HandleStopRental_def NewRentalHandler_def executor_call.unchanged
        split: if_splits option.splits prod.splits intro: executor_call.stopped)
  have start: "executor_call E e e'" if "HandleStartRental (NewRentalHandler E host) r e w = Some (resp, e', w')" for resp
  proof (cases "check_start r")
    case (Inr req)
    with that obtain res where "ei_StartRental E (rq_Context r) (exec_request req host) e w = Some (res, e', w')"
      by (auto simp: HandleStartRental_def NewRentalHandler_def Inr)
    moreover have "sr_SessionID (exec_request req host) \<noteq> ''''"
      using check_start_session [OF Inr] by (simp add: exec_request_def)
    ultimately show ?thesis by (rule executor_call.started [rotated])
  qed (use that in \<open>simp add: HandleStartRental_def executor_call.unchanged\<close>)
  from assms show ?thesis
    by (auto simp: serve_def executor_call.unchanged split: if_splits prod.splits dest: start stop)
qed

section \<open>A node that has not been shut down\<close>

definition mining_open :: "MiningDaemon \<Rightarrow> bool" where
  "mining_open md \<longleftrightarrow> \<not> md_stopCh_closed md \<and> mining_wf md \<and>
     (md_containerID md = '''' \<or> 12 \<le> length (md_containerID md))"

lemma Start_open: "Start D ctx m w = Returns (r, m', w') \<Longrightarrow> mining_open m \<Longrightarrow> mining_open m'"
  using Start_wf [of m D ctx w r m' w']
  by (auto simp: mining_open_def Start_def slice_to_def split: if_splits list.splits prod.splits option.splits)

lemma Pause_open: "PauseForRental D ctx gpus m w = (b, m', w') \<Longrightarrow> mining_open m \<Longrightarrow> mining_open m'"
  using Pause_wf [of m D ctx gpus w b m' w'] by (auto simp: mining_open_def PauseForRental_def Let_def split: if_splits)

lemma Resume_open: "ResumeAfterRental D ctx gpus m w = Returns (r, m', w') \<Longrightarrow> mining_open m \<Longrightarrow> mining_open m'"
  by (auto simp: ResumeAfterRental_def Let_def split: if_splits elim!: Start_open) (auto simp: mining_open_def mining_wf_def)

lemma tick_open: "monitor_tick D ctx m w = Returns (m', w') \<Longrightarrow> mining_open m \<Longrightarrow> mining_open m'"
  by (auto simp: monitor_tick_def outcome_bind_Returns split: if_splits prod.splits elim!: Start_open)
     (auto simp: mining_open_def mining_wf_def)

lemma mining_call_open: "mining_call D m m' \<Longrightarrow> mining_open m \<Longrightarrow> mining_open m'"
  by (induction rule: mining_call.induct)
     (auto simp: background_restart_def outcome_bind_Returns dest: Start_open Pause_open Resume_open tick_open)

lemma Connect_stopCh: "Connect net c w = (r, c', w') \<Longrightarrow> ct_stopCh_closed c' = ct_stopCh_closed c"
  by (auto simp: Connect_def split: prod.splits sum.splits option.splits)

lemma reconnect_stopCh:
  "reconnect_loop net stops b c w = (r, c', w') \<Longrightarrow> ct_stopCh_closed c' = ct_stopCh_closed c"
proof (induction stops arbitrary: b c w)
  case (Cons st stops)
  obtain e c1 w1 where "Connect net c (time_Sleep b w) = (e, c1, w1)" by (metis prod_cases3)
  with Cons Connect_stopCh [of net c _ e c1 w1] show ?case by (cases st; cases e) auto
qed simp

text \<open>What a step does to the daemon.\<close>

lemma node_step_daemon:
  assumes "node_step env s s'"
  obtains (effect) "ns_phase s' = ns_phase s \<or> ns_ended s'" "daemon_effect env (ns_daemon s) (ns_daemon s')"
  | (client) c c' where "ns_phase s' = ns_phase s" "nd_mtlsClient (ns_daemon s) = Some c"
      "ct_stopCh_closed c' = ct_stopCh_closed c" "ns_daemon s' = (ns_daemon s)\<lparr>nd_mtlsClient := Some c'\<rparr>"
  | (cleanup) re bef job aft re' w w' where "ns_phase s' = ns_phase s"
      "nd_rentalExecutor (ns_daemon s) = Some (re, bef @ job # aft)"
      "cleanup_after_sleep (ne_docker env) PortManager_iface job re w = (re', w')"
      "ns_daemon s' = (ns_daemon s)\<lparr>nd_rentalExecutor := Some (re', bef @ aft)\<rparr>"
  | (mining) md md' n where "ns_phase s' = ns_phase s" "nd_miningDaemon (ns_daemon s) = Some md"
      "mining_call (ne_docker env) md md'"
      "ns_daemon s' = (ns_daemon s)\<lparr>nd_miningDaemon := Some md', nd_restarts := n\<rparr>"
  | (mining_stopped) w w' where "ns_phase s = Serving" "ns_phase s' = Mining_stopped"
      "shutdown_mining env (ns_daemon s) w = Returns (ns_daemon s', w')"
  | (daemon_stopped) w w' where "ns_phase s' = Daemon_stopped"
      "daemon_Stop env (ns_daemon s) w = Returns (ns_daemon s', w')"
  using assms
proof (cases rule: node_step.cases)
  case (hub_turn c conn ended tr d' w')
  with hub_turn_effect [OF hub_turn(5)] effect show thesis by simp
next
  case (hub_reconnect c waits res c' w')
  with client [of c c'] reconnect_stopCh [OF hub_reconnect(4)] show thesis by simp
next
  case (api_request e path r reply e' w')
  from serve_effect [OF api_request(4)] api_request(3)
  have "daemon_effect env (ns_daemon s) ((ns_daemon s)\<lparr>nd_rentalExecutor := Some e'\<rparr>)"
    by (intro daemon_effect_executor) auto
  with api_request effect show thesis by simp
next
  case (cleanup re bef job aft re' w')
  with that(3) show thesis by simp
next
  case (mining_start md r md' w')
  have "ns_daemon s' = (ns_daemon s)\<lparr>nd_miningDaemon := Some md', nd_restarts := nd_restarts (ns_daemon s)\<rparr>"
    using mining_start by simp
  moreover have "mining_call (ne_docker env) md md'" by (rule mining_call.begun [OF mining_start(5)])
  ultimately show thesis using mining_start by (intro mining [of md md' "nd_restarts (ns_daemon s)"]) simp_all
next
  case (mining_restart n md md' w')
  with mining [of md md' n] mining_call.restarted [OF mining_restart(5)] show thesis by simp
next
  case (mining_monitor md md' w')
  have "ns_daemon s' = (ns_daemon s)\<lparr>nd_miningDaemon := Some md', nd_restarts := nd_restarts (ns_daemon s)\<rparr>"
    using mining_monitor by simp
  moreover have "mining_call (ne_docker env) md md'" by (rule mining_call.monitored [OF mining_monitor(5)])
  ultimately show thesis using mining_monitor by (intro mining [of md md' "nd_restarts (ns_daemon s)"]) simp_all
next
  case (shutdown_mining d' w')
  with mining_stopped show thesis by simp
next
  case (shutdown_daemon d' w')
  with daemon_stopped show thesis by simp
next
  case (heartbeat hb w')
  then show thesis using effect by simp
next
  case (outside w')
  then show thesis using effect by simp
next
  case (shutdown_server w')
  then show thesis using effect by simp
next
  case server_failed
  then show thesis using effect by simp
qed

text \<open>A property of the daemon that every kind of step keeps holds in every state that is reached.\<close>

lemma node_reaches_induct [consumes 1, case_names start effect client cleanup mining mining_stopped daemon_stopped]:
  assumes "node_reaches env once s0 s"
    and "I (ns_daemon s0)"
    and "\<And>d d'. I d \<Longrightarrow> daemon_effect env d d' \<Longrightarrow> once \<longrightarrow> cleanups_distinct d' \<Longrightarrow> I d'"
    and "\<And>d c c'. I d \<Longrightarrow> nd_mtlsClient d = Some c \<Longrightarrow> ct_stopCh_closed c' = ct_stopCh_closed c \<Longrightarrow>
      I (d\<lparr>nd_mtlsClient := Some c'\<rparr>)"
    and "\<And>d re bef job aft re' w w'. I d \<Longrightarrow> nd_rentalExecutor d = Some (re, bef @ job # aft) \<Longrightarrow>
      cleanup_after_sleep (ne_docker env) PortManager_iface job re w = (re', w') \<Longrightarrow>
      I (d\<lparr>nd_rentalExecutor := Some (re', bef @ aft)\<rparr>)"
    and "\<And>d md md' n. I d \<Longrightarrow> nd_miningDaemon d = Some md \<Longrightarrow> mining_call (ne_docker env) md md' \<Longrightarrow>
      I (d\<lparr>nd_miningDaemon := Some md', nd_restarts := n\<rparr>)"
    and "\<And>d d' w w'. I d \<Longrightarrow> shutdown_mining env d w = Returns (d', w') \<Longrightarrow> I d'"
    and "\<And>d d' w w'. I d \<Longrightarrow> daemon_Stop env d w = Returns (d', w') \<Longrightarrow> I d'"
  shows "I (ns_daemon s)"
  using assms(1)
proof (induction rule: node_reaches.induct)
  case start
  show ?case by (rule assms(2))
next
  case (step s s')
  from step(2) show ?case
  proof (cases rule: node_step_daemon)
    case effect
    then show ?thesis using assms(3) step by blast
  next
    case (client c c')
    then show ?thesis using assms(4) [OF step.IH] by metis
  next
    case (cleanup re bef job aft re' w w')
    then show ?thesis using assms(5) [OF step.IH] by metis
  next
    case (mining md md' n)
    then show ?thesis using assms(6) [OF step.IH] by metis
  next
    case (mining_stopped w w')
    then show ?thesis using assms(7) [OF step.IH] by metis
  next
    case (daemon_stopped w w')
    then show ?thesis using assms(8) [OF step.IH] by metis
  qed
qed

text \<open>What is still open in each phase.\<close>

definition daemon_attached :: "('e, 'c) NodeDaemon \<Rightarrow> bool" where
  "daemon_attached d \<longleftrightarrow> \<not> nd_stopCh_closed d \<and> pred_option (\<lambda>c. \<not> ct_stopCh_closed c) (nd_mtlsClient d)"

definition phase_open :: "('d, 'c) running_node \<Rightarrow> bool" where
  "phase_open s \<longleftrightarrow> (ns_phase s = Serving \<longrightarrow> pred_option mining_open (nd_miningDaemon (ns_daemon s))) \<and>
     (ns_attached s \<longrightarrow> daemon_attached (ns_daemon s))"

lemma effect_attached: "daemon_effect env d d' \<Longrightarrow> daemon_attached d \<Longrightarrow> daemon_attached d'"
  by (simp add: daemon_effect_def daemon_attached_def)

lemma effect_mining_open:
  "daemon_effect env d d' \<Longrightarrow> pred_option mining_open (nd_miningDaemon d) \<Longrightarrow> pred_option mining_open (nd_miningDaemon d')"
  by (auto simp: daemon_effect_def option.rel_sel pred_option_def dest: mining_call_open split: option.splits)

lemma shutdown_mining_attached:
  "shutdown_mining env d w = Returns (d', w') \<Longrightarrow> daemon_attached d \<Longrightarrow> daemon_attached d'"
  by (auto simp: shutdown_mining_def daemon_attached_def outcome_bind_Returns split: option.splits)

lemma node_reaches_open:
  assumes "node_reaches env once s0 s" and "phase_open s0"
  shows "phase_open s"
  using assms(1)
proof (induction rule: node_reaches.induct)
  case start
  show ?case by (rule assms(2))
next
  case (step s s')
  from step(2) show ?case
  proof (cases rule: node_step_daemon)
    case effect
    with step.IH effect_attached [OF effect(2)] effect_mining_open [OF effect(2)] show ?thesis
      by (auto simp: phase_open_def)
  next
    case (client c c')
    with step.IH show ?thesis by (simp add: phase_open_def daemon_attached_def)
  next
    case (cleanup re bef job aft re' w w')
    with step.IH show ?thesis by (simp add: phase_open_def daemon_attached_def)
  next
    case (mining md md' n)
    with step.IH mining_call_open [OF mining(3)] show ?thesis by (simp add: phase_open_def daemon_attached_def)
  next
    case (mining_stopped w w')
    with step.IH shutdown_mining_attached [OF mining_stopped(3)] show ?thesis by (simp add: phase_open_def)
  next
    case (daemon_stopped w w')
    then show ?thesis by (simp add: phase_open_def)
  qed
qed

lemma launch_simps [simp]:
  "ns_daemon (launch node w) = rn_daemon node" "ns_world (launch node w) = w" "ns_phase (launch node w) = Serving"
  by (simp_all add: launch_def)

lemma started_node_open:
  assumes "main_startup pf fl w = Returns (Inr node, w')"
  shows "phase_open (launch node v)"
proof (rule main_startup_stages [OF assms], rule wire_node_ready, assumption, goal_cases)
  case (1 isCPU fl1 w1 wa fl2 w2 cert pool nid w3 gp cli md w4 w5 w6 conn)
  have "mining_open m" if "md = Some m" for m
    using 1(7) that
    by (auto simp: init_mining_def NewMiningDaemon_def mining_wf_def mining_open_def split: if_split_asm prod.split_asm)
  with 1(10) show ?case
    by (auto simp: phase_open_def daemon_attached_def build_daemon_def WithRentalExecutor_def WithMiningDaemon_def NewNodeDaemon_def
        NewClient_def Let_def split: option.splits)
qed

section \<open>Shutdown\<close>

text \<open>The stages of an undisturbed shutdown are steps of the node.\<close>

lemma main_shutdown_steps:
  assumes "main_shutdown env (ns_daemon s) (ns_world s) = Returns (d', w')" and "ns_phase s = Serving"
  obtains s1 where "node_step env s s1" "ns_phase s1 = Mining_stopped"
    "node_step env s1 (s\<lparr>ns_daemon := d', ns_world := w', ns_phase := Daemon_stopped\<rparr>)"
proof -
  from assms(1) obtain d1 w1 where "shutdown_mining env (ns_daemon s) (ns_world s) = Returns (d1, w1)"
      "daemon_Stop env d1 w1 = Returns (d', w')"
    by (auto simp: main_shutdown_def outcome_bind_Returns)
  with that [of "s\<lparr>ns_daemon := d1, ns_world := w1, ns_phase := Mining_stopped\<rparr>"] assms(2)
    node_step.shutdown_mining [of s env d1 w1]
    node_step.shutdown_daemon [of "s\<lparr>ns_daemon := d1, ns_world := w1, ns_phase := Mining_stopped\<rparr>" env d' w']
  show ?thesis by simp
qed

text \<open>
  C39. However long a node has been running and whatever has happened to it, commands, requests,
  cleanups, crashes of mining containers, reconnections: when the signal comes in a serving node and
  no call of another goroutine comes between the two stages of the shutdown, the shutdown returns
  without a panic, whatever Docker answers, and leaves the stop channels closed and the mining
  daemon, if there is one, stopped with no container of its own.  Where other goroutines do run
  calls between the stages, the second stage still returns without a panic, but nothing is said here
  of the mining daemon, which such a call may have started again.
\<close>

theorem shutdown_returns_stopped:
  assumes "main_startup pf fl w = Returns (Inr node, w1)"
    and "node_reaches (rn_env node) once (launch node w1) s" and "ns_attached s"
  shows "if ns_phase s = Serving then
       \<exists>d' w'. main_shutdown (rn_env node) (ns_daemon s) (ns_world s) = Returns (d', w') \<and> nd_stopCh_closed d' \<and>
         (\<forall>c. nd_mtlsClient d' = Some c \<longrightarrow> ct_stopCh_closed c) \<and>
         (\<forall>md. nd_miningDaemon d' = Some md \<longrightarrow>
            md_state md = MiningStateStopped \<and> md_containerID md = '''' \<and> md_stopCh_closed md)
     else returns (daemon_Stop (rn_env node) (ns_daemon s) (ns_world s))"
proof -
  have op: "phase_open s" by (rule node_reaches_open [OF assms(2) started_node_open [OF assms(1)]])
  show ?thesis
  proof (cases "ns_phase s = Serving")
    case True
    show ?thesis
      unfolding if_P [OF True]
      by (rule shutdown_stops) (use True op in \<open>auto simp: phase_open_def daemon_attached_def mining_open_def\<close>)
  next
    case False
    with op assms(3) have "daemon_attached (ns_daemon s)" by (auto simp: phase_open_def)
    then have "\<not> nd_stopCh_closed (ns_daemon s)" "\<forall>c. nd_mtlsClient (ns_daemon s) = Some c \<longrightarrow> \<not> ct_stopCh_closed c"
      by (auto simp: daemon_attached_def)
    then obtain d' w' where "daemon_Stop (rn_env node) (ns_daemon s) (ns_world s) = Returns (d', w')"
      by (rule daemon_Stop_returns)
    with False show ?thesis by simp
  qed
qed

theorem shutdown_returns_stopped_witness:
  "\<exists>node w1 d' w'. main_startup demo_platform (default_flags demo_os) demo_world = Returns (Inr node, w1) \<and>
     main_shutdown (rn_env node) (rn_daemon node) w1 = Returns (d', w') \<and> nd_stopCh_closed d'"
proof -
  obtain node w1 where start: "main_startup demo_platform (default_flags demo_os) demo_world = Returns (Inr node, w1)"
    using demo_startup by blast
  from shutdown_returns_stopped [OF start node_reaches.start] start show ?thesis by auto
qed

end
