(* ===== verification/Mining_Concurrency.thy ===== *)
theory Mining_Concurrency
  imports Mining_Daemon "HOL-Library.Multiset"
begin

text \<open>
  The mining daemon of \<open>internal/mining/daemon.go\<close> with its calls interleaved: the node's pauses and
  resumes, the goroutine of \<open>main\<close>, the restart goroutines and the monitor, each of which takes the
  daemon's mutex for a region of its code.  \<open>ResumeAfterRental\<close> and a tick of the monitor leave the
  mutex before they call \<open>Start\<close>; between the two, anything else may run.  The mining containers
  Docker has are part of the state: their one name, \<open>worldland-mining\<close>, is taken as long as one of
  them is there, running or not.  Docker's answers are arbitrary within that, and containers exit
  or are removed by others at any time.
\<close>

section \<open>The regions under the mutex\<close>

text \<open>A goroutine is a call that has yet to take the mutex.\<close>

datatype mining_goroutine =
    StartCall
  | StopCall
  | PauseCall "string list"
  | ResumeCall "string list"
  | TickCall

text \<open>
  \<open>my_containers\<close> are the mining containers that run and \<open>my_present\<close> those that exist, with the GPU
  each was created with, the one \<open>Start\<close> asked for.  (What the container runtime exposes for a GPU
  that is named by its UUID is another matter, of \<open>hostConfig\<close> in \<open>Docker_Service\<close>.)  \<open>my_lost\<close> is a
  history: the containers that were still running when the daemon, told by Docker that a start or an
  inspection had failed, or after a removal that did, went on without them.
\<close>

record mining_sys =
  my_daemon :: MiningDaemon
  my_goroutines :: "mining_goroutine multiset"
  my_containers :: "string \<rightharpoonup> string"
  my_present :: "string \<rightharpoonup> string"
  my_lost :: "string set"

text \<open>The running and the existing containers; on their own they only become fewer.\<close>

type_synonym containers = "(string \<rightharpoonup> string) \<times> (string \<rightharpoonup> string)"

definition fades :: "containers \<Rightarrow> containers \<Rightarrow> bool" where
  "fades d d' \<longleftrightarrow> fst d' \<subseteq>\<^sub>m fst d \<and> snd d' \<subseteq>\<^sub>m snd d \<and> fst d' \<subseteq>\<^sub>m snd d'"

text \<open>
  What the stop and the forced removal of a container leave; the daemon ignores the errors of both
  calls.  When Docker is \<open>reliable\<close>, the container is gone.
\<close>

definition removed :: "bool \<Rightarrow> string \<Rightarrow> containers \<Rightarrow> containers \<Rightarrow> bool" where
  "removed reliable cid d d' \<longleftrightarrow> fades d d' \<and> (reliable \<longrightarrow> snd d' cid = None)"

text \<open>The daemon goes on without a container: it is lost when it still runs.\<close>

definition left_behind :: "string \<Rightarrow> (string \<rightharpoonup> string) \<Rightarrow> string set \<Rightarrow> string set" where
  "left_behind cid R L = (if R cid = None then L else insert cid L)"

definition idle :: "MiningDaemon \<Rightarrow> bool" where
  "idle m \<longleftrightarrow> \<not> (md_state m = MiningStateRunning \<and> md_containerID m \<noteq> '''')"

text \<open>The states the regions leave the daemon in.\<close>

definition started_on :: "string \<Rightarrow> time \<Rightarrow> MiningDaemon \<Rightarrow> MiningDaemon" where
  "started_on cid t m =
     m\<lparr>md_containerID := cid, md_state := MiningStateRunning, md_startedAt := Some t, md_pausedAt := None\<rparr>"

definition paused_at :: "time \<Rightarrow> MiningDaemon \<Rightarrow> MiningDaemon" where
  "paused_at t m = m\<lparr>md_state := MiningStatePaused, md_pausedAt := Some t\<rparr>"

definition stopped_daemon :: "MiningDaemon \<Rightarrow> MiningDaemon" where
  "stopped_daemon m =
     m\<lparr>md_containerID := '''', md_state := MiningStateStopped, md_startedAt := None, md_pausedAt := None\<rparr>"

definition marked :: "string list \<Rightarrow> MiningDaemon \<Rightarrow> MiningDaemon" where
  "marked gpus m = m\<lparr>md_pausedGPUs := md_pausedGPUs m \<union> set gpus\<rparr>"

definition unmarked :: "string list \<Rightarrow> MiningDaemon \<Rightarrow> MiningDaemon" where
  "unmarked gpus m = m\<lparr>md_pausedGPUs := md_pausedGPUs m - set gpus\<rparr>"

text \<open>\<open>Start\<close> gets past its first checks, and its first available GPU is \<open>gpu\<close>.\<close>

definition wants_gpu :: "MiningDaemon \<Rightarrow> string \<Rightarrow> bool" where
  "wants_gpu m gpu \<longleftrightarrow> mc_Enabled (md_config m) \<and> md_state m \<noteq> MiningStateRunning \<and>
     (\<exists>rest. getAvailableGPUs m = gpu # rest)"

inductive mining_step :: "bool \<Rightarrow> mining_sys \<Rightarrow> mining_sys \<Rightarrow> bool" for reliable where
  call: "mining_step reliable s (s\<lparr>my_goroutines := add_mset g (my_goroutines s)\<rparr>)"
| containers_fade: "fades (my_containers s, my_present s) (R, P) \<Longrightarrow>
    mining_step reliable s (s\<lparr>my_containers := R, my_present := P\<rparr>)"
| start_ignored: "my_goroutines s = add_mset StartCall G \<Longrightarrow>
    \<not> mc_Enabled (md_config (my_daemon s)) \<or> md_state (my_daemon s) = MiningStateRunning \<Longrightarrow>
    mining_step reliable s (s\<lparr>my_goroutines := G\<rparr>)"
| start_no_gpu: "my_goroutines s = add_mset StartCall G \<Longrightarrow>
    mc_Enabled (md_config (my_daemon s)) \<Longrightarrow> md_state (my_daemon s) \<noteq> MiningStateRunning \<Longrightarrow>
    getAvailableGPUs (my_daemon s) = [] \<Longrightarrow>
    mining_step reliable s (s\<lparr>my_daemon := paused_at t (my_daemon s), my_goroutines := G\<rparr>)"
| start_refused: "my_goroutines s = add_mset StartCall G \<Longrightarrow> wants_gpu (my_daemon s) gpu \<Longrightarrow>
    mining_step reliable s (s\<lparr>my_goroutines := G\<rparr>)"
| start_abandoned: "my_goroutines s = add_mset StartCall G \<Longrightarrow> wants_gpu (my_daemon s) gpu \<Longrightarrow> \<not> reliable \<Longrightarrow>
    my_present s = Map.empty \<Longrightarrow> R \<subseteq>\<^sub>m [cid \<mapsto> gpu] \<Longrightarrow>
    mining_step reliable s
      (s\<lparr>my_goroutines := G, my_containers := R, my_present := [cid \<mapsto> gpu],
         my_lost := left_behind cid R (my_lost s)\<rparr>)"
| started: "my_goroutines s = add_mset StartCall G \<Longrightarrow> wants_gpu (my_daemon s) gpu \<Longrightarrow>
    my_present s = Map.empty \<Longrightarrow> 12 \<le> length cid \<Longrightarrow>
    mining_step reliable s
      (s\<lparr>my_daemon := started_on cid t (my_daemon s), my_goroutines := G,
         my_containers := [cid \<mapsto> gpu], my_present := [cid \<mapsto> gpu], my_lost := my_lost s - {cid}\<rparr>)"
| stop_ignored: "my_goroutines s = add_mset StopCall G \<Longrightarrow> md_state (my_daemon s) = MiningStateStopped \<Longrightarrow>
    mining_step reliable s (s\<lparr>my_goroutines := G\<rparr>)"
| stop_bare: "my_goroutines s = add_mset StopCall G \<Longrightarrow> md_state (my_daemon s) \<noteq> MiningStateStopped \<Longrightarrow>
    md_containerID (my_daemon s) = '''' \<Longrightarrow>
    mining_step reliable s (s\<lparr>my_daemon := stopped_daemon (my_daemon s), my_goroutines := G\<rparr>)"
| stopped: "my_goroutines s = add_mset StopCall G \<Longrightarrow> md_state (my_daemon s) \<noteq> MiningStateStopped \<Longrightarrow>
    12 \<le> length (md_containerID (my_daemon s)) \<Longrightarrow>
    removed reliable (md_containerID (my_daemon s)) (my_containers s, my_present s) (R, P) \<Longrightarrow>
    mining_step reliable s
      (s\<lparr>my_daemon := stopped_daemon (my_daemon s), my_goroutines := G, my_containers := R, my_present := P,
         my_lost := left_behind (md_containerID (my_daemon s)) R (my_lost s)\<rparr>)"
| pause_idle: "my_goroutines s = add_mset (PauseCall gpus) G \<Longrightarrow> idle (my_daemon s) \<Longrightarrow>
    mining_step reliable s (s\<lparr>my_daemon := marked gpus (my_daemon s), my_goroutines := G\<rparr>)"
| pause_all: "my_goroutines s = add_mset (PauseCall gpus) G \<Longrightarrow> \<not> idle (my_daemon s) \<Longrightarrow>
    removed reliable (md_containerID (my_daemon s)) (my_containers s, my_present s) (R, P) \<Longrightarrow>
    m = (marked gpus (my_daemon s))\<lparr>md_containerID := ''''\<rparr> \<Longrightarrow> getAvailableGPUs m = [] \<Longrightarrow>
    mining_step reliable s
      (s\<lparr>my_daemon := paused_at t m, my_goroutines := G, my_containers := R, my_present := P,
         my_lost := left_behind (md_containerID (my_daemon s)) R (my_lost s)\<rparr>)"
| pause_some: "my_goroutines s = add_mset (PauseCall gpus) G \<Longrightarrow> \<not> idle (my_daemon s) \<Longrightarrow>
    removed reliable (md_containerID (my_daemon s)) (my_containers s, my_present s) (R, P) \<Longrightarrow>
    m = (marked gpus (my_daemon s))\<lparr>md_containerID := ''''\<rparr> \<Longrightarrow> getAvailableGPUs m \<noteq> [] \<Longrightarrow>
    mining_step reliable s
      (s\<lparr>my_daemon := m, my_goroutines := add_mset StartCall G, my_containers := R, my_present := P,
         my_lost := left_behind (md_containerID (my_daemon s)) R (my_lost s)\<rparr>)"
| resume_running: "my_goroutines s = add_mset (ResumeCall gpus) G \<Longrightarrow>
    md_state (my_daemon s) = MiningStateRunning \<Longrightarrow>
    mining_step reliable s (s\<lparr>my_daemon := unmarked gpus (my_daemon s), my_goroutines := G\<rparr>)"
| resume_start: "my_goroutines s = add_mset (ResumeCall gpus) G \<Longrightarrow>
    md_state (my_daemon s) \<noteq> MiningStateRunning \<Longrightarrow>
    mining_step reliable s (s\<lparr>my_daemon := unmarked gpus (my_daemon s), my_goroutines := add_mset StartCall G\<rparr>)"
| tick_quiet: "my_goroutines s = add_mset TickCall G \<Longrightarrow> mining_step reliable s (s\<lparr>my_goroutines := G\<rparr>)"
| tick_dead: "my_goroutines s = add_mset TickCall G \<Longrightarrow> \<not> idle (my_daemon s) \<Longrightarrow>
    reliable \<longrightarrow> my_containers s (md_containerID (my_daemon s)) = None \<Longrightarrow>
    mining_step reliable s
      (s\<lparr>my_daemon := (my_daemon s)\<lparr>md_containerID := '''', md_state := MiningStateStopped\<rparr>,
         my_goroutines := add_mset StartCall G,
         my_lost := left_behind (md_containerID (my_daemon s)) (my_containers s) (my_lost s)\<rparr>)"
| closed: "\<not> md_stopCh_closed (my_daemon s) \<Longrightarrow>
    mining_step reliable s (s\<lparr>my_daemon := (my_daemon s)\<lparr>md_stopCh_closed := True\<rparr>\<rparr>)"

abbreviation mining_steps :: "bool \<Rightarrow> mining_sys \<Rightarrow> mining_sys \<Rightarrow> bool" where
  "mining_steps reliable \<equiv> (mining_step reliable)\<^sup>*\<^sup>*"

definition mining_init :: "MiningConfig \<Rightarrow> mining_sys" where
  "mining_init cfg = \<lparr>my_daemon = NewMiningDaemon cfg, my_goroutines = {#}, my_containers = Map.empty,
     my_present = Map.empty, my_lost = {}\<rparr>"

lemmas daemon_states = started_on_def paused_at_def stopped_daemon_def marked_def unmarked_def

section \<open>Every mining container is under control\<close>

text \<open>
  One container at most has the name, and a running one that is not lost is the one the daemon names.
\<close>

definition containers_inv :: "bool \<Rightarrow> mining_sys \<Rightarrow> bool" where
  "containers_inv reliable s \<longleftrightarrow> mining_wf (my_daemon s) \<and> my_containers s \<subseteq>\<^sub>m my_present s \<and>
     (\<exists>cid gpu. my_present s \<subseteq>\<^sub>m [cid \<mapsto> gpu]) \<and> (reliable \<longrightarrow> my_lost s = {}) \<and>
     (\<forall>cid gpu. my_containers s cid = Some gpu \<longrightarrow> cid \<notin> my_lost s \<longrightarrow>
        md_state (my_daemon s) = MiningStateRunning \<and> md_containerID (my_daemon s) = cid \<and> cid \<noteq> '''' \<and>
        gpu \<in> set (getAvailableGPUs (my_daemon s)))"

lemma available_upd [simp]:
  "getAvailableGPUs (started_on cid t m) = getAvailableGPUs m"
  "getAvailableGPUs (paused_at t m) = getAvailableGPUs m"
  "getAvailableGPUs (stopped_daemon m) = getAvailableGPUs m"
  "getAvailableGPUs (m\<lparr>md_stopCh_closed := b\<rparr>) = getAvailableGPUs m"
  by (simp_all add: daemon_states getAvailableGPUs_def)

lemma started_on_simps [simp]:
  "md_state (started_on cid t m) = MiningStateRunning" "md_containerID (started_on cid t m) = cid"
  "md_config (started_on cid t m) = md_config m" "md_pausedGPUs (started_on cid t m) = md_pausedGPUs m"
  by (simp_all add: started_on_def)

lemma available_unmarked: "gpu \<in> set (getAvailableGPUs m) \<Longrightarrow> gpu \<in> set (getAvailableGPUs (unmarked gpus m))"
  by (auto simp: unmarked_def getAvailableGPUs_def split: if_splits)

lemma map_le_empty: "m \<subseteq>\<^sub>m Map.empty \<longleftrightarrow> m = Map.empty"
proof
  assume "m \<subseteq>\<^sub>m Map.empty"
  then have "m x = None" for x by (force simp: map_le_def)
  then show "m = Map.empty" by (simp add: fun_eq_iff)
qed simp

lemma map_le_single: "m \<subseteq>\<^sub>m [k \<mapsto> v] \<longleftrightarrow> m = Map.empty \<or> m = [k \<mapsto> v]"
proof
  assume m: "m \<subseteq>\<^sub>m [k \<mapsto> v]"
  then have other: "m x = None" if "x \<noteq> k" for x using that by (force simp: map_le_def)
  show "m = Map.empty \<or> m = [k \<mapsto> v]"
  proof (cases "m k")
    case None
    then have "m x = None" for x using other by (cases "x = k") auto
    then show ?thesis by (simp add: fun_eq_iff)
  next
    case (Some v')
    with m have "v' = v" by (force simp: map_le_def)
    with Some other show ?thesis by (auto simp: fun_eq_iff)
  qed
qed auto

lemma map_le_Some: "m \<subseteq>\<^sub>m m' \<Longrightarrow> m x = Some y \<Longrightarrow> m' x = Some y"
  by (force simp: map_le_def)

lemma map_le_None: "m \<subseteq>\<^sub>m m' \<Longrightarrow> m' x = None \<Longrightarrow> m x = None"
  by (force simp: map_le_def)

lemma fades_refl: "fst d \<subseteq>\<^sub>m snd d \<Longrightarrow> fades d d"
  by (simp add: fades_def)

lemma fades_trans: "fades d d1 \<Longrightarrow> fades d1 d2 \<Longrightarrow> fades d d2"
  unfolding fades_def by (metis map_le_trans)

lemma fades_empty: "fades d (Map.empty, Map.empty)"
  by (simp add: fades_def)

text \<open>What a step does to the containers and the daemon, as far as the invariant is concerned.\<close>

lemma containers_inv_fade:
  assumes inv: "containers_inv r s" and fade: "fades (my_containers s, my_present s) (R, P)"
  shows "containers_inv r (s\<lparr>my_containers := R, my_present := P\<rparr>)"
proof -
  from fade have R: "R \<subseteq>\<^sub>m my_containers s" and P: "P \<subseteq>\<^sub>m my_present s" and "R \<subseteq>\<^sub>m P"
    by (simp_all add: fades_def)
  have "\<exists>cid gpu. P \<subseteq>\<^sub>m [cid \<mapsto> gpu]"
    using inv map_le_trans [OF P] unfolding containers_inv_def by blast
  moreover have named: "md_state (my_daemon s) = MiningStateRunning \<and> md_containerID (my_daemon s) = cid \<and> cid \<noteq> '''' \<and>
      gpu \<in> set (getAvailableGPUs (my_daemon s))" if "R cid = Some gpu" "cid \<notin> my_lost s" for cid gpu
    using inv map_le_Some [OF R that(1)] that(2) unfolding containers_inv_def by blast
  ultimately show ?thesis
    using inv \<open>R \<subseteq>\<^sub>m P\<close> by (auto simp: containers_inv_def dest: named)
qed

lemma idle_all_lost:
  "containers_inv r s \<Longrightarrow> idle (my_daemon s) \<Longrightarrow> my_containers s cid = Some gpu \<Longrightarrow> cid \<in> my_lost s"
  by (auto simp: containers_inv_def idle_def)

lemma containers_inv_unnamed:
  assumes "containers_inv r s" and "idle (my_daemon s)" and "mining_wf m"
  shows "containers_inv r (s\<lparr>my_daemon := m, my_goroutines := G\<rparr>)"
  using assms(1,3) idle_all_lost [OF assms(1,2)] by (auto simp: containers_inv_def)

lemma containers_inv_forget:
  assumes inv: "containers_inv r s" and fade: "fades (my_containers s, my_present s) (R, P)"
    and gone: "r \<longrightarrow> R (md_containerID (my_daemon s)) = None" and wf: "mining_wf m"
  shows "containers_inv r (s\<lparr>my_daemon := m, my_goroutines := G, my_containers := R, my_present := P,
    my_lost := left_behind (md_containerID (my_daemon s)) R (my_lost s)\<rparr>)"
proof -
  have "cid \<in> left_behind (md_containerID (my_daemon s)) R (my_lost s)" if "R cid = Some gpu" for cid gpu
  proof -
    from fade that have "my_containers s cid = Some gpu" by (auto simp: fades_def dest: map_le_Some)
    with inv have "cid \<in> my_lost s \<or> md_containerID (my_daemon s) = cid" by (auto simp: containers_inv_def)
    with that show ?thesis by (auto simp: left_behind_def)
  qed
  with containers_inv_fade [OF inv fade] gone wf show ?thesis
    by (auto simp: containers_inv_def left_behind_def)
qed

lemma removed_gone: "removed r cid d (R, P) \<Longrightarrow> fades d (R, P) \<and> (r \<longrightarrow> R cid = None)"
  by (auto simp: removed_def fades_def dest: map_le_None)

lemma mining_step_inv:
  assumes "mining_step r s s'" and "containers_inv r s"
  shows "containers_inv r s'"
  using assms(1)
proof cases
  case (containers_fade R P)
  with containers_inv_fade [OF assms(2)] show ?thesis by simp
next
  case (start_no_gpu G t)
  with assms(2) have "idle (my_daemon s)" "mining_wf (paused_at t (my_daemon s))"
    by (auto simp: idle_def containers_inv_def mining_wf_def paused_at_def)
  with containers_inv_unnamed [OF assms(2)] start_no_gpu show ?thesis by simp
next
  case (start_abandoned G gpu R cid)
  with assms(2) show ?thesis by (auto simp: containers_inv_def left_behind_def map_le_single)
next
  case (started G gpu cid t)
  with assms(2) show ?thesis
    by (auto simp: containers_inv_def mining_wf_def wants_gpu_def intro!: exI map_le_refl split: if_split_asm)
next
  case (stop_bare G)
  then have "idle (my_daemon s)" "mining_wf (stopped_daemon (my_daemon s))"
    by (auto simp: idle_def mining_wf_def stopped_daemon_def)
  with containers_inv_unnamed [OF assms(2)] stop_bare show ?thesis by simp
next
  case (stopped G R P)
  have "mining_wf (stopped_daemon (my_daemon s))" by (simp add: mining_wf_def stopped_daemon_def)
  with containers_inv_forget [OF assms(2)] removed_gone [OF stopped(5)] stopped show ?thesis by simp
next
  case (pause_idle gpus G)
  with assms(2) have "mining_wf (marked gpus (my_daemon s))"
    by (auto simp: containers_inv_def mining_wf_def marked_def)
  with containers_inv_unnamed [OF assms(2)] pause_idle show ?thesis by simp
next
  case (pause_all gpus G R P m t)
  then have "mining_wf (paused_at t m)" by (simp add: mining_wf_def paused_at_def)
  with containers_inv_forget [OF assms(2)] removed_gone [OF pause_all(4)] pause_all show ?thesis by simp
next
  case (pause_some gpus G R P m)
  then have "mining_wf m" by (simp add: mining_wf_def)
  with containers_inv_forget [OF assms(2)] removed_gone [OF pause_some(4)] pause_some show ?thesis by simp
next
  case (resume_running gpus G)
  with assms(2) available_unmarked show ?thesis by (auto simp: containers_inv_def mining_wf_def unmarked_def)
next
  case (resume_start gpus G)
  with assms(2) have "idle (my_daemon s)" "mining_wf (unmarked gpus (my_daemon s))"
    by (auto simp: idle_def containers_inv_def mining_wf_def unmarked_def)
  with containers_inv_unnamed [OF assms(2)] resume_start show ?thesis by simp
next
  case (tick_dead G)
  let ?m = "(my_daemon s)\<lparr>md_containerID := '''', md_state := MiningStateStopped\<rparr>"
  have "fades (my_containers s, my_present s) (my_containers s, my_present s)"
    using assms(2) by (simp add: containers_inv_def fades_refl)
  moreover have "mining_wf ?m" by (simp add: mining_wf_def)
  ultimately show ?thesis using containers_inv_forget [OF assms(2)] tick_dead by fastforce
next
  case closed
  with assms(2) show ?thesis by (simp add: containers_inv_def mining_wf_def)
qed (use assms(2) in \<open>simp_all add: containers_inv_def\<close>)

lemma mining_steps_inv: "mining_steps r s s' \<Longrightarrow> containers_inv r s \<Longrightarrow> containers_inv r s'"
  by (induction rule: rtranclp_induct) (auto intro: mining_step_inv)

lemma mining_init_inv: "containers_inv r (mining_init cfg)"
  by (simp add: mining_init_def containers_inv_def mining_wf_def NewMiningDaemon_def)

text \<open>
  C13. No container mines behind the daemon's back: however its starts, stops, pauses, resumes,
  restarts, monitor ticks and its closing interleave, with containers exiting or being removed at any
  time and Docker refusing any call, at most one mining container runs, and unless Docker has failed
  the daemon over it before, by not removing it when told to or by reporting a failed start or
  inspection of a container that runs, it is the container the daemon names, in state running, and
  the GPU it was created with is not rented out.  When removals and inspections do what they say, no
  container is lost in this way.
\<close>

theorem mining_containers_are_the_daemons:
  assumes "mining_steps reliable (mining_init cfg) s" and "my_containers s cid = Some gpu"
  shows "dom (my_containers s) = {cid} \<and> (reliable \<longrightarrow> my_lost s = {}) \<and>
    (cid \<notin> my_lost s \<longrightarrow>
       md_state (my_daemon s) = MiningStateRunning \<and> md_containerID (my_daemon s) = cid \<and>
       gpu \<notin> md_pausedGPUs (my_daemon s) \<and>
       (mc_GPUDeviceIDs (md_config (my_daemon s)) = [] \<longrightarrow> md_pausedGPUs (my_daemon s) = {}))"
proof -
  note inv = mining_steps_inv [OF assms(1) mining_init_inv, unfolded containers_inv_def]
  from inv obtain cid' gpu' where "my_containers s \<subseteq>\<^sub>m [cid' \<mapsto> gpu']" using map_le_trans by blast
  with assms(2) have one: "dom (my_containers s) = {cid}" by (auto simp: map_le_single split: if_splits)
  show ?thesis
  proof (cases "cid \<in> my_lost s")
    case False
    with inv assms(2) have "md_state (my_daemon s) = MiningStateRunning" "md_containerID (my_daemon s) = cid"
      and gpu: "gpu \<in> set (getAvailableGPUs (my_daemon s))"
      by blast+
    with one inv available_not_rented [OF gpu] show ?thesis
      by (auto simp: getAvailableGPUs_def split: if_splits)
  qed (use one inv in blast)
qed

section \<open>The calls of the sequential model are runs of this one\<close>

text \<open>
  What Docker promises of the mining containers, as \<open>view\<close> shows them in its state: a successful
  creation leaves one container, not running, with the GPU it was asked for, because the name was
  free; a start makes at most that container run; no other call makes one run or appear; and when
  Docker is \<open>reliable\<close>, a call that reports an error has not made one appear or run, a forced removal
  removes, and an inspection that fails or does not say \<open>running\<close> is of a container that does not run.
\<close>

definition call_fades :: "('d \<Rightarrow> containers) \<Rightarrow> 'd world \<Rightarrow> 'd world \<Rightarrow> bool" where
  "call_fades view w w' \<longleftrightarrow> fades (view (w_ext w)) (view (w_ext w'))"

definition create_law :: "bool \<Rightarrow> 'd DockerServiceInterface \<Rightarrow> ('d \<Rightarrow> containers) \<Rightarrow> bool" where
  "create_law reliable D view \<longleftrightarrow>
     (\<forall>ctx cfg w cid err w'. cc_SessionID cfg = ''worldland-mining'' \<longrightarrow>
        di_CreateContainer D ctx cfg w = ((cid, err), w') \<longrightarrow>
        err \<noteq> None \<and> call_fades view w w' \<or>
        (err = None \<or> \<not> reliable) \<and>
          (\<exists>c. (err = None \<longrightarrow> c = cid) \<and> fst (view (w_ext w')) = Map.empty \<and>
             snd (view (w_ext w')) \<subseteq>\<^sub>m [c \<mapsto> cc_GPUDeviceID cfg]))"

definition start_law :: "bool \<Rightarrow> 'd DockerServiceInterface \<Rightarrow> ('d \<Rightarrow> containers) \<Rightarrow> bool" where
  "start_law reliable D view \<longleftrightarrow>
     (\<forall>ctx cid w err w'. di_StartContainer D ctx cid w = (err, w') \<longrightarrow>
        snd (view (w_ext w')) \<subseteq>\<^sub>m snd (view (w_ext w)) \<and>
        fst (view (w_ext w')) \<subseteq>\<^sub>m (fst (view (w_ext w)))(cid := snd (view (w_ext w)) cid) \<and>
        (reliable \<and> err \<noteq> None \<longrightarrow> call_fades view w w'))"

definition stop_law :: "'d DockerServiceInterface \<Rightarrow> ('d \<Rightarrow> containers) \<Rightarrow> bool" where
  "stop_law D view \<longleftrightarrow>
     (\<forall>ctx cid t w err w'. di_StopContainer D ctx cid t w = (err, w') \<longrightarrow> call_fades view w w')"

definition remove_law :: "bool \<Rightarrow> 'd DockerServiceInterface \<Rightarrow> ('d \<Rightarrow> containers) \<Rightarrow> bool" where
  "remove_law reliable D view \<longleftrightarrow>
     (\<forall>ctx cid w err w'. di_RemoveContainer D ctx cid True w = (err, w') \<longrightarrow>
        removed reliable cid (view (w_ext w)) (view (w_ext w')))"

definition inspect_law :: "bool \<Rightarrow> 'd DockerServiceInterface \<Rightarrow> ('d \<Rightarrow> containers) \<Rightarrow> bool" where
  "inspect_law reliable D view \<longleftrightarrow>
     (\<forall>ctx cid w r w'. di_InspectContainer D ctx cid w = (r, w') \<longrightarrow>
        call_fades view w w' \<and>
        (reliable \<and> (case r of Inl _ \<Rightarrow> True | Inr info \<Rightarrow> ci_State info \<noteq> ''running'') \<longrightarrow>
           fst (view (w_ext w')) cid = None))"

definition mining_docker :: "bool \<Rightarrow> 'd DockerServiceInterface \<Rightarrow> ('d \<Rightarrow> containers) \<Rightarrow> bool" where
  "mining_docker reliable D view \<longleftrightarrow>
     (\<forall>d. fst (view d) \<subseteq>\<^sub>m snd (view d)) \<and> create_law reliable D view \<and> start_law reliable D view \<and>
     stop_law D view \<and> remove_law reliable D view \<and> inspect_law reliable D view"

lemma docker_present: "mining_docker r D view \<Longrightarrow> fst (view d) \<subseteq>\<^sub>m snd (view d)"
  by (simp add: mining_docker_def)

lemma docker_created:
  assumes "mining_docker r D view" and "cc_SessionID cfg = ''worldland-mining''"
    and "di_CreateContainer D ctx cfg w = ((cid, None), w')"
  shows "fst (view (w_ext w')) = Map.empty \<and> snd (view (w_ext w')) \<subseteq>\<^sub>m [cid \<mapsto> cc_GPUDeviceID cfg]"
proof -
  from assms(1) have "create_law r D view" by (simp add: mining_docker_def)
  from this [unfolded create_law_def, rule_format, OF assms(2,3)] show ?thesis by auto
qed

lemma docker_not_created:
  assumes "mining_docker r D view" and "cc_SessionID cfg = ''worldland-mining''"
    and "di_CreateContainer D ctx cfg w = ((cid, Some e), w')"
  obtains "call_fades view w w'"
  | c where "\<not> r" "fst (view (w_ext w')) = Map.empty" "snd (view (w_ext w')) \<subseteq>\<^sub>m [c \<mapsto> cc_GPUDeviceID cfg]"
proof -
  from assms(1) have "create_law r D view" by (simp add: mining_docker_def)
  from this [unfolded create_law_def, rule_format, OF assms(2,3)] that show ?thesis by auto
qed

lemma docker_started:
  assumes "mining_docker r D view" and "di_StartContainer D ctx cid w = (err, w')"
  shows "snd (view (w_ext w')) \<subseteq>\<^sub>m snd (view (w_ext w))"
proof -
  from assms(1) have "start_law r D view" by (simp add: mining_docker_def)
  from this [unfolded start_law_def, rule_format, OF assms(2)] show ?thesis by simp
qed

lemma docker_stopped:
  "mining_docker r D view \<Longrightarrow> di_StopContainer D ctx cid n w = (e, w') \<Longrightarrow> call_fades view w w'"
  by (simp add: mining_docker_def stop_law_def)

lemma docker_removed:
  "mining_docker r D view \<Longrightarrow> di_RemoveContainer D ctx cid True w = (e, w') \<Longrightarrow>
   removed r cid (view (w_ext w)) (view (w_ext w'))"
  by (simp add: mining_docker_def remove_law_def)

lemma docker_inspected:
  assumes "mining_docker r D view" and "di_InspectContainer D ctx cid w = (x, w')"
  shows "call_fades view w w'"
    and "r \<Longrightarrow> case x of Inl _ \<Rightarrow> True | Inr info \<Rightarrow> ci_State info \<noteq> ''running'' \<Longrightarrow> fst (view (w_ext w')) cid = None"
proof -
  from assms(1) have "inspect_law r D view" by (simp add: mining_docker_def)
  note law = this [unfolded inspect_law_def, rule_format, OF assms(2)]
  from law show "call_fades view w w'" by (rule conjunct1)
  from law show "r \<Longrightarrow> case x of Inl _ \<Rightarrow> True | Inr info \<Rightarrow> ci_State info \<noteq> ''running'' \<Longrightarrow> fst (view (w_ext w')) cid = None"
    by simp
qed

text \<open>A Docker whose mining containers are all removed at once by others promises nothing else.\<close>

lemma mining_docker_empty: "mining_docker r D (\<lambda>_. (Map.empty, Map.empty))"
  by (simp add: mining_docker_def create_law_def start_law_def stop_law_def remove_law_def inspect_law_def
      call_fades_def fades_def removed_def) (metis option.exhaust)

text \<open>A stop with a forced removal, as \<open>Stop\<close> and \<open>PauseForRental\<close> run it.\<close>

lemma docker_stop_remove:
  assumes D: "mining_docker r D view"
  shows "removed r cid (view (w_ext w))
    (view (w_ext (snd (di_RemoveContainer D ctx cid True (snd (di_StopContainer D ctx cid n w))))))"
proof -
  obtain e1 w1 e2 w2 where calls: "di_StopContainer D ctx cid n w = (e1, w1)" "di_RemoveContainer D ctx cid True w1 = (e2, w2)"
    by (metis surj_pair)
  from docker_stopped [OF D calls(1)] docker_removed [OF D calls(2)] show ?thesis
    by (auto simp: calls removed_def call_fades_def intro: fades_trans)
qed

text \<open>The containers a start that went through leaves, on the way to which the name was free.\<close>

lemma docker_create_start:
  assumes D: "mining_docker r D view" and sid: "cc_SessionID cfg = ''worldland-mining''"
    and calls: "di_CreateContainer D ctx cfg w = ((cid, None), w1)" "di_StartContainer D ctx cid w1 = (e, w2)"
  shows "snd (view (w_ext w2)) \<subseteq>\<^sub>m [cid \<mapsto> cc_GPUDeviceID cfg]" "fst (view (w_ext w2)) \<subseteq>\<^sub>m [cid \<mapsto> cc_GPUDeviceID cfg]"
proof -
  from docker_created [OF D sid calls(1)] docker_started [OF D calls(2)]
  show P: "snd (view (w_ext w2)) \<subseteq>\<^sub>m [cid \<mapsto> cc_GPUDeviceID cfg]" using map_le_trans by blast
  then show "fst (view (w_ext w2)) \<subseteq>\<^sub>m [cid \<mapsto> cc_GPUDeviceID cfg]"
    using docker_present [OF D] by (rule map_le_trans [rotated])
qed

abbreviation sys :: "MiningDaemon \<Rightarrow> mining_goroutine multiset \<Rightarrow> containers \<Rightarrow> string set \<Rightarrow> mining_sys" where
  "sys m G d L \<equiv> \<lparr>my_daemon = m, my_goroutines = G, my_containers = fst d, my_present = snd d, my_lost = L\<rparr>"

text \<open>
  From a daemon with some pending goroutines and some containers the system reaches another daemon
  with at least as many pending and other containers.
\<close>

definition can_become ::
  "bool \<Rightarrow> MiningDaemon \<Rightarrow> mining_goroutine multiset \<Rightarrow> containers \<Rightarrow>
   MiningDaemon \<Rightarrow> mining_goroutine multiset \<Rightarrow> containers \<Rightarrow> bool" where
  "can_become r m G d m' G' d' \<longleftrightarrow> (\<forall>L. \<exists>L'. mining_steps r (sys m G d L) (sys m' G' d' L'))"

lemma can_become_refl: "can_become r m G d m G d"
  by (auto simp: can_become_def)

lemma can_become_trans [trans]:
  assumes "can_become r m G d m1 G1 d1" and "can_become r m1 G1 d1 m2 G2 d2"
  shows "can_become r m G d m2 G2 d2"
  unfolding can_become_def
proof
  fix L
  from assms(1) obtain L1 where "mining_steps r (sys m G d L) (sys m1 G1 d1 L1)" unfolding can_become_def by blast
  moreover from assms(2) obtain L2 where "mining_steps r (sys m1 G1 d1 L1) (sys m2 G2 d2 L2)"
    unfolding can_become_def by blast
  ultimately show "\<exists>L2. mining_steps r (sys m G d L) (sys m2 G2 d2 L2)" by (blast intro: rtranclp_trans)
qed

lemma can_becomeI:
  "(\<And>L. \<exists>L'. mining_step r (sys m G d L) (sys m' G' d' L')) \<Longrightarrow> can_become r m G d m' G' d'"
  unfolding can_become_def by blast

lemma can_become_call: "can_become r m G d m (add_mset g G) d"
  by (rule can_becomeI, rule exI) (use mining_step.call [of r "sys m G d _" g] in simp)

lemma can_become_fade: "fades d d' \<Longrightarrow> can_become r m G d m G d'"
  by (rule can_becomeI, rule exI) (use mining_step.containers_fade [of "sys m G d _" "fst d'" "snd d'" r] in simp)

lemma can_become_started:
  assumes "wants_gpu m gpu" and "12 \<le> length cid"
    and "snd d' \<subseteq>\<^sub>m [cid \<mapsto> gpu]" "fst d' \<subseteq>\<^sub>m [cid \<mapsto> gpu]" "fst d' \<subseteq>\<^sub>m snd d'"
  shows "can_become r m (add_mset StartCall G) d (started_on cid t m) G d'"
proof -
  have "can_become r m (add_mset StartCall G) d m (add_mset StartCall G) (Map.empty, Map.empty)"
    by (rule can_become_fade [OF fades_empty])
  also have "can_become r m (add_mset StartCall G) (Map.empty, Map.empty) (started_on cid t m) G ([cid \<mapsto> gpu], [cid \<mapsto> gpu])"
    by (rule can_becomeI)
      (use mining_step.started [of "sys m (add_mset StartCall G) (Map.empty, Map.empty) _" G gpu cid r t] assms(1,2) in auto)
  also have "can_become r (started_on cid t m) G ([cid \<mapsto> gpu], [cid \<mapsto> gpu]) (started_on cid t m) G d'"
    by (rule can_become_fade) (use assms in \<open>simp add: fades_def\<close>)
  finally show ?thesis .
qed

lemma can_become_refused:
  assumes "wants_gpu m gpu" and "fades d d'"
  shows "can_become r m (add_mset StartCall G) d m G d'"
proof -
  have "can_become r m (add_mset StartCall G) d m G d"
    by (rule can_becomeI) (use mining_step.start_refused [of "sys m (add_mset StartCall G) d _" G gpu r] assms(1) in auto)
  with can_become_fade [OF assms(2)] show ?thesis by (rule can_become_trans [rotated])
qed

lemma can_become_abandoned:
  assumes "wants_gpu m gpu" and "\<not> r"
    and "snd d' \<subseteq>\<^sub>m [cid \<mapsto> gpu]" "fst d' \<subseteq>\<^sub>m [cid \<mapsto> gpu]" "fst d' \<subseteq>\<^sub>m snd d'"
  shows "can_become r m (add_mset StartCall G) d m G d'"
proof -
  have "can_become r m (add_mset StartCall G) d m (add_mset StartCall G) (Map.empty, Map.empty)"
    by (rule can_become_fade [OF fades_empty])
  also have "can_become r m (add_mset StartCall G) (Map.empty, Map.empty) m G (fst d', [cid \<mapsto> gpu])"
    by (rule can_becomeI)
      (use mining_step.start_abandoned [of "sys m (add_mset StartCall G) (Map.empty, Map.empty) _" G gpu r "fst d'" cid]
        assms in auto)
  also have "can_become r m G (fst d', [cid \<mapsto> gpu]) m G d'"
    by (rule can_become_fade) (use assms in \<open>simp add: fades_def\<close>)
  finally show ?thesis .
qed

text \<open>What a call of \<open>Start\<close> has done when it returns.\<close>

lemma Start_outcomes:
  assumes run: "Start D ctx m w = Returns (res, m', w')"
  obtains (ignored) "\<not> mc_Enabled (md_config m) \<or> md_state m = MiningStateRunning" "m' = m" "w' = w"
    | (none) "mc_Enabled (md_config m)" "md_state m \<noteq> MiningStateRunning" "getAvailableGPUs m = []"
        "m' = paused_at (w_clock w) m" "w' = w"
    | (refused) gpu cid e where "wants_gpu m gpu" "m' = m"
        "di_CreateContainer D ctx (mining_containerConfig m gpu) w = ((cid, Some e), w')"
    | (abandoned) gpu cid w1 e w2 e' where "wants_gpu m gpu" "m' = m"
        "di_CreateContainer D ctx (mining_containerConfig m gpu) w = ((cid, None), w1)"
        "di_StartContainer D ctx cid w1 = (e, w2)" "di_RemoveContainer D ctx cid True w2 = (e', w')"
    | (started) gpu cid w1 e t where "wants_gpu m gpu" "12 \<le> length cid" "m' = started_on cid t m"
        "di_CreateContainer D ctx (mining_containerConfig m gpu) w = ((cid, None), w1)"
        "di_StartContainer D ctx cid w1 = (e, w')"
proof (cases "\<not> mc_Enabled (md_config m) \<or> md_state m = MiningStateRunning")
  case True
  with run have "m' = m" "w' = w" by (auto simp: Start_def split: if_splits)
  with True show thesis by (rule ignored)
next
  case active: False
  show thesis
  proof (cases "getAvailableGPUs m")
    case Nil
    with run active have "m' = paused_at (w_clock w) m" "w' = w" by (auto simp: Start_def paused_at_def)
    with Nil active none show thesis by simp
  next
    case (Cons gpu rest)
    with active have wants: "wants_gpu m gpu" by (simp add: wants_gpu_def)
    obtain cid err w1 where create: "di_CreateContainer D ctx (mining_containerConfig m gpu) w = ((cid, err), w1)"
      by (metis surj_pair)
    show thesis
    proof (cases err)
      case (Some e)
      with run active Cons create refused [OF wants] show thesis by (simp add: Start_def)
    next
      case None
      obtain e w2 where start: "di_StartContainer D ctx cid w1 = (e, w2)" by (metis surj_pair)
      obtain e' w3 where remove: "di_RemoveContainer D ctx cid True w2 = (e', w3)" by (metis surj_pair)
      show thesis
      proof (cases e)
        case (Some x)
        with run active Cons create None start remove have "m' = m" "w' = w3" by (auto simp: Start_def)
        with abandoned [OF wants] create None start remove show thesis by simp
      next
        case e: None
        with run active Cons create None start have "12 \<le> length cid" "m' = started_on cid (w_clock w2) m" "w' = w2"
          by (auto simp: Start_def slice_to_def started_on_def split: if_splits)
        with started [OF wants] create None start show thesis by simp
      qed
    qed
  qed
qed

lemma Start_can_become:
  assumes D: "mining_docker r D view" and run: "Start D ctx m w = Returns (res, m', w')"
  shows "can_become r m (add_mset StartCall G) (view (w_ext w)) m' G (view (w_ext w'))"
proof -
  let ?cfg = "mining_containerConfig m" and ?v = "\<lambda>w. view (w_ext w)"
  have cfg: "cc_SessionID (?cfg gpu) = ''worldland-mining''" "cc_GPUDeviceID (?cfg gpu) = gpu" for gpu
    by (simp_all add: mining_containerConfig_def)
  from run show ?thesis
  proof (cases rule: Start_outcomes)
    case ignored
    then show ?thesis
      by (intro can_becomeI, intro exI)
        (use mining_step.start_ignored [of "sys m (add_mset StartCall G) (?v w) _" G r] in simp)
  next
    case none
    then show ?thesis
      by (intro can_becomeI, intro exI)
        (use mining_step.start_no_gpu [of "sys m (add_mset StartCall G) (?v w) _" G r "w_clock w"] in simp)
  next
    case (refused gpu cid e)
    from D cfg(1) refused(3) show ?thesis
    proof (rule docker_not_created)
      assume "call_fades view w w'"
      with refused(1,2) can_become_refused show ?thesis by (simp add: call_fades_def)
    next
      fix c
      assume "\<not> r" "fst (?v w') = Map.empty" "snd (?v w') \<subseteq>\<^sub>m [c \<mapsto> cc_GPUDeviceID (?cfg gpu)]"
      with refused(1,2) can_become_abandoned [of m gpu r "?v w'" c] show ?thesis by (simp add: cfg(2))
    qed
  next
    case (abandoned gpu cid w1 e w2 e')
    note left = docker_create_start [OF D cfg(1) abandoned(3,4), unfolded cfg(2)]
    from docker_removed [OF D abandoned(5)] have gone: "fades (?v w2) (?v w')" "r \<longrightarrow> snd (?v w') cid = None"
      by (auto simp: removed_def)
    with left have P: "snd (?v w') \<subseteq>\<^sub>m [cid \<mapsto> gpu]" and R: "fst (?v w') \<subseteq>\<^sub>m [cid \<mapsto> gpu]"
      unfolding fades_def using map_le_trans by blast+
    show ?thesis
    proof (cases r)
      case True
      with gone P have "snd (?v w') = Map.empty" by (auto simp: map_le_single)
      with docker_present [OF D, of "w_ext w'"] have "?v w' = (Map.empty, Map.empty)"
        by (simp add: prod_eq_iff map_le_empty)
      with can_become_refused [OF abandoned(1) fades_empty] abandoned(2) show ?thesis by simp
    next
      case False
      with can_become_abandoned [OF abandoned(1) _ P R docker_present [OF D]] abandoned(2) show ?thesis by simp
    qed
  next
    case (started gpu cid w1 e t)
    note left = docker_create_start [OF D cfg(1) started(4,5), unfolded cfg(2)]
    from can_become_started [OF started(1,2) left docker_present [OF D]] started(3) show ?thesis by simp
  qed
qed

lemma Stop_can_become:
  assumes D: "mining_docker r D view" and run: "Stop D ctx m w = Returns (res, m', w')"
  shows "can_become r m (add_mset StopCall G) (view (w_ext w)) m' G (view (w_ext w'))"
proof (rule can_becomeI)
  fix L
  let ?s = "sys m (add_mset StopCall G) (view (w_ext w)) L" and ?d = "view (w_ext w')"
  consider (ignored) "md_state m = MiningStateStopped" "m' = m" "w' = w"
    | (bare) "md_state m \<noteq> MiningStateStopped" "md_containerID m = ''''" "m' = stopped_daemon m" "w' = w"
    | (stopped) "md_state m \<noteq> MiningStateStopped" "m' = stopped_daemon m" "12 \<le> length (md_containerID m)"
        "w' = snd (di_RemoveContainer D ctx (md_containerID m) True (snd (di_StopContainer D ctx (md_containerID m) 10 w)))"
    using run by (auto simp: Stop_def slice_to_def stopped_daemon_def Let_def split: if_splits)
  then show "\<exists>L'. mining_step r ?s (sys m' G ?d L')"
  proof cases
    case ignored
    then show ?thesis using mining_step.stop_ignored [of ?s G r] by (intro exI) simp
  next
    case bare
    then show ?thesis using mining_step.stop_bare [of ?s G r] by (intro exI) simp
  next
    case stopped
    with docker_stop_remove [OF D] have "removed r (md_containerID m) (view (w_ext w)) (fst ?d, snd ?d)" by simp
    with stopped(1-3) show ?thesis using mining_step.stopped [of ?s G r "fst ?d" "snd ?d"] by (intro exI) simp
  qed
qed

lemma Pause_can_become:
  assumes D: "mining_docker r D view" and run: "PauseForRental D ctx gpus m w = (spawned, m', w')"
  shows "can_become r m (add_mset (PauseCall gpus) G) (view (w_ext w))
    m' (if spawned then add_mset StartCall G else G) (view (w_ext w'))"
proof (rule can_becomeI)
  fix L
  let ?s = "sys m (add_mset (PauseCall gpus) G) (view (w_ext w)) L" and ?m = "(marked gpus m)\<lparr>md_containerID := ''''\<rparr>"
  let ?d = "view (w_ext w')"
  let ?w = "snd (di_RemoveContainer D ctx (md_containerID m) True (snd (di_StopContainer D ctx (md_containerID m) 10 w)))"
  consider (idle) "idle m" "m' = marked gpus m" "\<not> spawned" "w' = w"
    | (all) t where "\<not> idle m" "getAvailableGPUs ?m = []" "m' = paused_at t ?m" "\<not> spawned" "w' = ?w"
    | (some) "\<not> idle m" "getAvailableGPUs ?m \<noteq> []" "m' = ?m" "spawned" "w' = ?w"
    using run by (auto simp: PauseForRental_def idle_def marked_def paused_at_def Let_def split: if_splits)
  then show "\<exists>L'. mining_step r ?s (sys m' (if spawned then add_mset StartCall G else G) ?d L')"
  proof cases
    case idle
    then show ?thesis using mining_step.pause_idle [of ?s gpus G r] by (intro exI) simp
  next
    case (all t)
    with docker_stop_remove [OF D] have "removed r (md_containerID m) (view (w_ext w)) (fst ?d, snd ?d)" by simp
    with all(1-4) show ?thesis
      using mining_step.pause_all [of ?s gpus G r "fst ?d" "snd ?d" ?m t] by (intro exI) simp
  next
    case some
    with docker_stop_remove [OF D] have "removed r (md_containerID m) (view (w_ext w)) (fst ?d, snd ?d)" by simp
    with some(1-4) show ?thesis
      using mining_step.pause_some [of ?s gpus G r "fst ?d" "snd ?d" ?m] by (intro exI) simp
  qed
qed

lemma Resume_can_become:
  assumes D: "mining_docker r D view" and run: "ResumeAfterRental D ctx gpus m w = Returns (res, m', w')"
  shows "can_become r m (add_mset (ResumeCall gpus) G) (view (w_ext w)) m' G (view (w_ext w'))"
proof (cases "md_state m = MiningStateRunning")
  case True
  with run have "m' = unmarked gpus m" "w' = w" by (simp_all add: ResumeAfterRental_def unmarked_def Let_def)
  with True show ?thesis
    by (intro can_becomeI, intro exI)
      (use mining_step.resume_running [of "sys m (add_mset (ResumeCall gpus) G) (view (w_ext w)) _" gpus G r] in simp)
next
  case False
  then have "md_state m = MiningStatePaused \<or> md_state m = MiningStateStopped" by (cases "md_state m") auto
  with run have start: "Start D ctx (unmarked gpus m) w = Returns (res, m', w')"
    by (auto simp: ResumeAfterRental_def unmarked_def Let_def)
  have "can_become r m (add_mset (ResumeCall gpus) G) (view (w_ext w)) (unmarked gpus m) (add_mset StartCall G) (view (w_ext w))"
    by (intro can_becomeI, intro exI)
      (use False mining_step.resume_start [of "sys m (add_mset (ResumeCall gpus) G) (view (w_ext w)) _" gpus G r] in simp)
  also note Start_can_become [OF D start]
  finally show ?thesis .
qed

lemma tick_can_become:
  assumes D: "mining_docker r D view" and run: "monitor_tick D ctx m w = Returns (m', w')"
  shows "can_become r m (add_mset TickCall G) (view (w_ext w)) m' G (view (w_ext w'))"
proof (cases "idle m")
  case True
  with run have "m' = m" "w' = w" by (auto simp: monitor_tick_def idle_def split: if_splits)
  then show ?thesis
    by (intro can_becomeI, intro exI)
      (use mining_step.tick_quiet [of "sys m (add_mset TickCall G) (view (w_ext w)) _" G r] in simp)
next
  case False
  let ?m = "m\<lparr>md_containerID := '''', md_state := MiningStateStopped\<rparr>"
  obtain x w1 where inspect: "di_InspectContainer D ctx (md_containerID m) w = (x, w1)" by (metis surj_pair)
  have "can_become r m (add_mset TickCall G) (view (w_ext w)) m (add_mset TickCall G) (view (w_ext w1))"
    using docker_inspected(1) [OF D inspect] by (simp add: can_become_fade call_fades_def)
  also consider (quiet) "m' = m" "w' = w1"
    | (dead) res ctx' where "case x of Inl _ \<Rightarrow> True | Inr info \<Rightarrow> ci_State info \<noteq> ''running''"
        "Start D ctx' ?m w1 = Returns (res, m', w')"
    using run False inspect
    by (auto simp: monitor_tick_def idle_def outcome_bind_Returns split: if_split_asm)
  then have "can_become r m (add_mset TickCall G) (view (w_ext w1)) m' G (view (w_ext w'))"
  proof cases
    case quiet
    then show ?thesis
      by (intro can_becomeI, intro exI)
        (use mining_step.tick_quiet [of "sys m (add_mset TickCall G) (view (w_ext w1)) _" G r] in simp)
  next
    case dead
    have "can_become r m (add_mset TickCall G) (view (w_ext w1)) ?m (add_mset StartCall G) (view (w_ext w1))"
      by (intro can_becomeI, intro exI)
        (use False docker_inspected(2) [OF D inspect _ dead(1)]
          mining_step.tick_dead [of "sys m (add_mset TickCall G) (view (w_ext w1)) _" G r] in simp)
    also note Start_can_become [OF D dead(2)]
    finally show ?thesis .
  qed
  finally show ?thesis .
qed

fun goroutine_of :: "'d mining_op \<Rightarrow> mining_goroutine" where
  "goroutine_of (OpStart ctx) = StartCall"
| "goroutine_of (OpStop ctx) = StopCall"
| "goroutine_of (OpPause ctx gpus) = PauseCall gpus"
| "goroutine_of OpRestart = StartCall"
| "goroutine_of (OpResume ctx gpus) = ResumeCall gpus"
| "goroutine_of (OpTick ctx) = TickCall"

lemma mining_exec_can_become:
  assumes D: "mining_docker r D view" and run: "mining_exec D x m w = Returns (m', w')"
  shows "\<exists>G'. can_become r m (add_mset (goroutine_of x) G) (view (w_ext w)) m' G' (view (w_ext w'))"
proof (cases x)
  case (OpPause ctx gpus)
  with run obtain b where "PauseForRental D ctx gpus m w = (b, m', w')"
    by (metis mining_exec.simps(3) outcome.inject prod.collapse)
  from Pause_can_become [OF D this] show ?thesis unfolding OpPause goroutine_of.simps by blast
next
  case (OpStart ctx)
  with run obtain res where "Start D ctx m w = Returns (res, m', w')" by (auto simp: outcome_bind_Returns)
  from Start_can_become [OF D this] show ?thesis unfolding OpStart goroutine_of.simps by blast
next
  case (OpStop ctx)
  with run obtain res where "Stop D ctx m w = Returns (res, m', w')" by (auto simp: outcome_bind_Returns)
  from Stop_can_become [OF D this] show ?thesis unfolding OpStop goroutine_of.simps by blast
next
  case OpRestart
  with run obtain ctx res where "Start D ctx m w = Returns (res, m', w')"
    by (auto simp: background_restart_def outcome_bind_Returns)
  from Start_can_become [OF D this] show ?thesis unfolding OpRestart goroutine_of.simps by blast
next
  case (OpResume ctx gpus)
  with run obtain res where "ResumeAfterRental D ctx gpus m w = Returns (res, m', w')" by (auto simp: outcome_bind_Returns)
  from Resume_can_become [OF D this] show ?thesis unfolding OpResume goroutine_of.simps by blast
next
  case (OpTick ctx)
  with run have "monitor_tick D ctx m w = Returns (m', w')" by simp
  from tick_can_become [OF D this] show ?thesis unfolding OpTick goroutine_of.simps by blast
qed

lemma mining_run_can_become:
  assumes D: "mining_docker r D view"
  shows "mining_run D xs m w = Returns (m', w') \<Longrightarrow> \<exists>G'. can_become r m G (view (w_ext w)) m' G' (view (w_ext w'))"
proof (induction xs arbitrary: m w G)
  case Nil
  then have "m' = m" "w' = w" by simp_all
  then show ?case using can_become_refl by blast
next
  case (Cons x xs)
  then obtain m1 w1 where x: "mining_exec D x m w = Returns (m1, w1)" and xs: "mining_run D xs m1 w1 = Returns (m', w')"
    by (auto simp: outcome_bind_Returns)
  from mining_exec_can_become [OF D x] obtain G1 where
    "can_become r m (add_mset (goroutine_of x) G) (view (w_ext w)) m1 G1 (view (w_ext w1))" by blast
  moreover from Cons.IH [OF xs] obtain G2 where "can_become r m1 G1 (view (w_ext w1)) m' G2 (view (w_ext w'))" by blast
  ultimately show ?case using can_become_trans [OF can_become_call can_become_trans] by blast
qed

text \<open>
  C22. The calls of the sequential model are calls of the interleaved one: from a new daemon and no
  mining containers, whatever a sequence of its operations does on any Docker service that keeps
  its promises, the interleaved system can do, ending with the same daemon and the same mining
  containers, running and existing, that Docker then has.  So after any such sequence, on a reliable
  Docker, a mining container that runs is the one the daemon names, and its GPU is not rented out.
\<close>

theorem sequential_mining_is_a_run:
  assumes D: "mining_docker reliable D view" and "view (w_ext w) = (Map.empty, Map.empty)"
    and run: "mining_run D xs (NewMiningDaemon cfg) w = Returns (m, w')"
  shows "(\<exists>s. mining_steps reliable (mining_init cfg) s \<and> my_daemon s = m \<and>
      (my_containers s, my_present s) = view (w_ext w')) \<and>
    (\<forall>cid gpu. reliable \<longrightarrow> fst (view (w_ext w')) cid = Some gpu \<longrightarrow>
       md_state m = MiningStateRunning \<and> md_containerID m = cid \<and> gpu \<notin> md_pausedGPUs m)"
proof -
  from mining_run_can_become [OF D run, of "{#}"] obtain G where
    "can_become reliable (NewMiningDaemon cfg) {#} (Map.empty, Map.empty) m G (view (w_ext w'))"
    unfolding assms(2) by blast
  then obtain L where "mining_steps reliable (sys (NewMiningDaemon cfg) {#} (Map.empty, Map.empty) {}) (sys m G (view (w_ext w')) L)"
    unfolding can_become_def by blast
  then have steps: "mining_steps reliable (mining_init cfg) (sys m G (view (w_ext w')) L)" by (simp add: mining_init_def)
  have "md_state m = MiningStateRunning \<and> md_containerID m = cid \<and> gpu \<notin> md_pausedGPUs m"
    if "reliable" "fst (view (w_ext w')) cid = Some gpu" for cid gpu
    using mining_steps_inv [OF steps mining_init_inv] that available_not_rented [of gpu m]
    by (auto simp: containers_inv_def)
  with steps show ?thesis by (intro conjI exI [of _ "sys m G (view (w_ext w')) L"]) simp_all
qed

text \<open>The daemons that some run of the interleaved system has.\<close>

definition daemon_of_run :: "MiningConfig \<Rightarrow> MiningDaemon \<Rightarrow> bool" where
  "daemon_of_run cfg m \<longleftrightarrow> (\<exists>G L. mining_steps False (mining_init cfg) (sys m G (Map.empty, Map.empty) L))"

lemma daemon_of_runD: "daemon_of_run cfg m \<Longrightarrow> \<exists>s. mining_steps False (mining_init cfg) s \<and> my_daemon s = m"
  unfolding daemon_of_run_def by (metis mining_sys.select_convs(1))

lemma daemon_of_run_new: "daemon_of_run cfg (NewMiningDaemon cfg)"
  unfolding daemon_of_run_def by (intro exI [of _ "{#}"] exI [of _ "{}"]) (simp add: mining_init_def)

lemma daemon_of_run_exec:
  assumes exec: "mining_exec D x m w = Returns (m', w')" and "daemon_of_run cfg m"
  shows "daemon_of_run cfg m'"
proof -
  let ?e = "(Map.empty, Map.empty) :: containers"
  from assms(2) obtain G L where run: "mining_steps False (mining_init cfg) (sys m G ?e L)"
    unfolding daemon_of_run_def by blast
  from mining_exec_can_become [OF mining_docker_empty exec] obtain G' where
    "can_become False m (add_mset (goroutine_of x) G) ?e m' G' ?e" by blast
  with can_become_call have "can_become False m G ?e m' G' ?e" by (rule can_become_trans)
  then obtain L' where "mining_steps False (sys m G ?e L) (sys m' G' ?e L')" unfolding can_become_def by blast
  with run have "mining_steps False (mining_init cfg) (sys m' G' ?e L')" by (rule rtranclp_trans)
  then show ?thesis unfolding daemon_of_run_def by blast
qed

lemma daemon_of_run_closed:
  assumes "daemon_of_run cfg m" and "\<not> md_stopCh_closed m"
  shows "daemon_of_run cfg (m\<lparr>md_stopCh_closed := True\<rparr>)"
proof -
  let ?e = "(Map.empty, Map.empty) :: containers"
  from assms(1) obtain G L where run: "mining_steps False (mining_init cfg) (sys m G ?e L)"
    unfolding daemon_of_run_def by blast
  have "mining_step False (sys m G ?e L) (sys (m\<lparr>md_stopCh_closed := True\<rparr>) G ?e L)"
    using mining_step.closed [of "sys m G ?e L" False] assms(2) by simp
  with run have "mining_steps False (mining_init cfg) (sys (m\<lparr>md_stopCh_closed := True\<rparr>) G ?e L)" by simp
  then show ?thesis unfolding daemon_of_run_def by blast
qed

section \<open>What the interleavings allow\<close>

lemma step_then: "mining_steps r s s1 \<Longrightarrow> mining_step r s1 s2 \<Longrightarrow> mining_steps r s s2"
  by simp

text \<open>From a new daemon to a mining container on its first GPU.\<close>

lemma mining_starts:
  assumes "wants_gpu (NewMiningDaemon cfg) gpu" and "12 \<le> length cid"
  shows "mining_steps r (mining_init cfg)
    (sys (started_on cid t (NewMiningDaemon cfg)) {#} ([cid \<mapsto> gpu], [cid \<mapsto> gpu]) {})"
proof -
  let ?s = "sys (NewMiningDaemon cfg) {#StartCall#} (Map.empty, Map.empty) {}"
  have "mining_steps r (mining_init cfg) ?s"
    using mining_step.call [of r "mining_init cfg" StartCall] by (simp add: mining_init_def r_into_rtranclp)
  moreover have "mining_step r ?s (sys (started_on cid t (NewMiningDaemon cfg)) {#} ([cid \<mapsto> gpu], [cid \<mapsto> gpu]) {})"
    using mining_step.started [of ?s "{#}" gpu cid r t] assms by simp
  ultimately show ?thesis by (rule step_then)
qed

text \<open>
  Without a reliable removal a container may go on mining on a rented GPU: the pause ignores the
  errors of Docker, forgets the container and lets the rental proceed.
\<close>

lemma failed_removal_mines_on_rented_gpu:
  assumes "wants_gpu (NewMiningDaemon cfg) gpu" and "12 \<le> length cid"
  shows "\<exists>s. mining_steps False (mining_init cfg) s \<and> my_containers s cid = Some gpu \<and>
    gpu \<in> md_pausedGPUs (my_daemon s) \<and> md_containerID (my_daemon s) = ''''"
proof -
  let ?C = "[cid \<mapsto> gpu]" and ?m = "started_on cid 0 (NewMiningDaemon cfg)"
  let ?s = "sys ?m {#PauseCall [gpu]#} (?C, ?C) {}" and ?m' = "(marked [gpu] ?m)\<lparr>md_containerID := ''''\<rparr>"
  have "mining_step False (sys ?m {#} (?C, ?C) {}) ?s"
    using mining_step.call [of False "sys ?m {#} (?C, ?C) {}" "PauseCall [gpu]"] by simp
  with mining_starts [OF assms] have run: "mining_steps False (mining_init cfg) ?s" by (rule step_then)
  have "\<not> idle ?m" using assms(2) by (auto simp: idle_def)
  then obtain m G where "mining_step False ?s (sys m G (?C, ?C) {cid})"
    and m: "gpu \<in> md_pausedGPUs m" "md_containerID m = ''''"
    using mining_step.pause_all [of ?s "[gpu]" "{#}" False ?C ?C ?m' 0]
      mining_step.pause_some [of ?s "[gpu]" "{#}" False ?C ?C ?m']
    by (cases "getAvailableGPUs ?m' = []") (force simp: removed_def fades_refl left_behind_def paused_at_def marked_def)+
  from step_then [OF run this(1)] m show ?thesis by fastforce
qed

text \<open>
  C30. A stop can be overtaken.  Shutting down calls \<open>Stop\<close> once and does not wait for goroutines that
  have yet to take the mutex: when the monitor has found its container dead and left the mutex to
  restart it, \<open>Stop\<close> finds a stopped daemon and returns, the restart then starts a new container,
  and with no call left to run that container is there for good.
\<close>

theorem stop_overtaken_by_restart:
  assumes "wants_gpu (NewMiningDaemon cfg) gpu" and "12 \<le> length cid" and "12 \<le> length cid'"
  shows "\<exists>s0 s1 s2 s3. mining_steps True (mining_init cfg) s0 \<and> my_containers s0 cid = Some gpu \<and>
    mining_steps True s0 s1 \<and> my_goroutines s1 = {#StopCall, StartCall#} \<and> my_containers s1 = Map.empty \<and>
    mining_step True s1 s2 \<and> my_goroutines s2 = {#StartCall#} \<and> my_daemon s2 = my_daemon s1 \<and>
    md_state (my_daemon s2) = MiningStateStopped \<and>
    mining_step True s2 s3 \<and> my_goroutines s3 = {#} \<and> my_containers s3 cid' = Some gpu"
proof -
  let ?m = "started_on cid 0 (NewMiningDaemon cfg)" and ?e = "(Map.empty, Map.empty) :: containers"
  let ?d = "?m\<lparr>md_containerID := '''', md_state := MiningStateStopped\<rparr>"
  let ?C = "[cid \<mapsto> gpu]" and ?C' = "[cid' \<mapsto> gpu]"
  let ?s0 = "sys ?m {#} (?C, ?C) {}" and ?s1 = "sys ?d {#StopCall, StartCall#} ?e {}"
  let ?s2 = "sys ?d {#StartCall#} ?e {}" and ?s3 = "sys (started_on cid' 0 ?d) {#} (?C', ?C') {}"
  have "cid \<noteq> ''''" using assms(2) by auto
  have "mining_step True ?s0 (sys ?m {#} ?e {})"
    using mining_step.containers_fade [of ?s0 Map.empty Map.empty True] fades_empty by simp
  moreover have "mining_step True (sys ?m {#} ?e {}) (sys ?m {#TickCall#} ?e {})"
    using mining_step.call [of True "sys ?m {#} ?e {}" TickCall] by simp
  moreover have "mining_step True (sys ?m {#TickCall#} ?e {}) ?s2"
    using mining_step.tick_dead [of "sys ?m {#TickCall#} ?e {}" "{#}" True] \<open>cid \<noteq> ''''\<close>
    by (simp add: idle_def left_behind_def)
  moreover have "mining_step True ?s2 ?s1"
    using mining_step.call [of True ?s2 StopCall] by simp
  ultimately have run: "mining_steps True ?s0 ?s1" by (meson r_into_rtranclp step_then)
  have stop: "mining_step True ?s1 ?s2"
    using mining_step.stop_ignored [of ?s1 "{#StartCall#}" True] by simp
  have "wants_gpu ?d gpu"
    using assms(1) by (simp add: wants_gpu_def)
  then have start: "mining_step True ?s2 ?s3"
    using mining_step.started [of ?s2 "{#}" gpu cid' True 0] assms(3) by simp
  show ?thesis
    by (rule exI [of _ ?s0], rule exI [of _ ?s1], rule exI [of _ ?s2], rule exI [of _ ?s3])
      (use mining_starts [OF assms(1,2)] run stop start in simp)
qed

lemma demo_wants: "wants_gpu (NewMiningDaemon (DefaultMiningConfig\<lparr>mc_GPUDeviceIDs := [''GPU-a'']\<rparr>)) ''GPU-a''"
  by (simp add: wants_gpu_def NewMiningDaemon_def DefaultMiningConfig_def getAvailableGPUs_def)

theorem mining_containers_are_the_daemons_witness:
  "\<exists>s :: mining_sys. my_containers s ''container-123'' = Some ''GPU-a'' \<and> dom (my_containers s) = {''container-123''} \<and>
     md_containerID (my_daemon s) = ''container-123'' \<and> ''GPU-a'' \<notin> md_pausedGPUs (my_daemon s)"
proof -
  let ?cfg = "DefaultMiningConfig\<lparr>mc_GPUDeviceIDs := [''GPU-a'']\<rparr>" and ?C = "[''container-123'' \<mapsto> ''GPU-a'']"
  define s where "s = sys (started_on ''container-123'' 0 (NewMiningDaemon ?cfg)) {#} (?C, ?C) {}"
  then have c: "my_containers s ''container-123'' = Some ''GPU-a''" by simp
  have "mining_steps True (mining_init ?cfg) s" unfolding s_def by (rule mining_starts [OF demo_wants]) simp
  from mining_containers_are_the_daemons [OF this c] c show ?thesis by blast
qed

text \<open>
  A Docker that keeps its one mining container as its state: the GPU it was created with and
  whether it runs.
\<close>

definition kept_view :: "(string \<times> bool) option \<Rightarrow> containers" where
  "kept_view d =
     (case d of
        None \<Rightarrow> (Map.empty, Map.empty)
      | Some (gpu, running) \<Rightarrow>
          (if running then [''container-123'' \<mapsto> gpu] else Map.empty, [''container-123'' \<mapsto> gpu]))"

definition keeping_docker :: "(string \<times> bool) option DockerServiceInterface" where
  "keeping_docker =
     \<lparr>di_CreateContainer = (\<lambda>ctx cfg w.
        case w_ext w of
          None \<Rightarrow> ((''container-123'', None), w\<lparr>w_ext := Some (cc_GPUDeviceID cfg, False)\<rparr>)
        | Some _ \<Rightarrow> (('''', Some (ErrorString ''name already in use'')), w)),
      di_StartContainer = (\<lambda>ctx cid w.
        case w_ext w of
          Some (gpu, _) \<Rightarrow> if cid = ''container-123'' then (None, w\<lparr>w_ext := Some (gpu, True)\<rparr>)
                          else (Some (ErrorString ''no such container''), w)
        | None \<Rightarrow> (Some (ErrorString ''no such container''), w)),
      di_StopContainer = (\<lambda>ctx cid t w.
        (None, w\<lparr>w_ext := map_option (\<lambda>(gpu, running). (gpu, running \<and> cid \<noteq> ''container-123'')) (w_ext w)\<rparr>)),
      di_RemoveContainer = (\<lambda>ctx cid force w.
        (None, if cid = ''container-123'' then w\<lparr>w_ext := None\<rparr> else w)),
      di_InspectContainer = (\<lambda>ctx cid w.
        case w_ext w of
          Some (gpu, True) \<Rightarrow> (Inr \<lparr>ci_ContainerID = cid, ci_SSHPort = 0, ci_State = ''running'', ci_Health = ''''\<rparr>, w)
        | _ \<Rightarrow> (Inl (ErrorString ''not running''), w))\<rparr>"

lemma keeping_docker_laws: "mining_docker True keeping_docker kept_view"
proof -
  have present: "fst (kept_view d) \<subseteq>\<^sub>m snd (kept_view d)" for d
    by (auto simp: kept_view_def split: option.split)
  have "create_law True keeping_docker kept_view"
    using present by (auto simp: create_law_def keeping_docker_def call_fades_def fades_refl kept_view_def split: option.split_asm)
  moreover have "start_law True keeping_docker kept_view"
    using present
    by (auto simp: start_law_def keeping_docker_def call_fades_def fades_refl kept_view_def map_le_def split: option.split_asm if_split_asm)
  moreover have "stop_law keeping_docker kept_view"
    by (auto simp: stop_law_def keeping_docker_def call_fades_def fades_def kept_view_def split: option.split)
  moreover have "remove_law True keeping_docker kept_view"
    by (auto simp: remove_law_def removed_def keeping_docker_def fades_def kept_view_def split: option.split)
  moreover have "inspect_law True keeping_docker kept_view"
    using present
    by (auto simp: inspect_law_def keeping_docker_def call_fades_def fades_refl kept_view_def split: option.split_asm bool.split_asm)
  ultimately show ?thesis using present by (simp add: mining_docker_def)
qed

theorem sequential_mining_is_a_run_witness:
  "\<exists>m s. mining_run keeping_docker [OpStart ctx_Background, OpTick ctx_Background]
       (NewMiningDaemon (DefaultMiningConfig\<lparr>mc_GPUDeviceIDs := [''GPU-a'']\<rparr>)) \<lparr>w_clock = 0, w_lag = (\<lambda>_. 0), w_ext = None\<rparr> =
       Returns (m, \<lparr>w_clock = 0, w_lag = (\<lambda>_. 0), w_ext = Some (''GPU-a'', True)\<rparr>) \<and>
     mining_steps True (mining_init (DefaultMiningConfig\<lparr>mc_GPUDeviceIDs := [''GPU-a'']\<rparr>)) s \<and> my_daemon s = m \<and>
     my_containers s = [''container-123'' \<mapsto> ''GPU-a''] \<and> md_containerID m = ''container-123''"
proof -
  let ?xs = "[OpStart ctx_Background, OpTick ctx_Background] :: (string \<times> bool) option mining_op list"
  let ?cfg = "DefaultMiningConfig\<lparr>mc_GPUDeviceIDs := [''GPU-a'']\<rparr>"
  let ?w = "\<lambda>d :: (string \<times> bool) option. \<lparr>w_clock = 0, w_lag = (\<lambda>_. 0), w_ext = d\<rparr>"
  obtain m where run: "mining_run keeping_docker ?xs (NewMiningDaemon ?cfg) (?w None) = Returns (m, ?w (Some (''GPU-a'', True)))"
    by (simp add: Start_def NewMiningDaemon_def DefaultMiningConfig_def getAvailableGPUs_def go_eval keeping_docker_def
        mining_containerConfig_def monitor_tick_def Let_def)
  have empty: "kept_view (w_ext (?w None)) = (Map.empty, Map.empty)" by (simp add: kept_view_def)
  from sequential_mining_is_a_run [OF keeping_docker_laws empty run] obtain s where
    "mining_steps True (mining_init ?cfg) s" "my_daemon s = m" "my_containers s = [''container-123'' \<mapsto> ''GPU-a'']"
    and "md_containerID m = ''container-123''"
    by (auto simp: kept_view_def)
  with run show ?thesis by blast
qed

theorem stop_overtaken_by_restart_witness:
  "\<exists>s2 s3 :: mining_sys. md_state (my_daemon s2) = MiningStateStopped \<and> mining_step True s2 s3 \<and> my_goroutines s3 = {#} \<and>
     my_containers s3 ''container-124'' = Some ''GPU-a''"
  using stop_overtaken_by_restart [OF demo_wants, of "''container-123''" "''container-124''"] by auto

end
