(* ===== verification/Node_Invariants.thy ===== *)
theory Node_Invariants
  imports Node_System Mining_Concurrency
begin

text \<open>
  What holds in every state the running node of \<open>Node_System\<close> reaches: the port table and the
  rentals agree, the executor and the mining daemon are in states their interleaved systems reach,
  no call gets stuck, and a rented GPU stays marked.
\<close>

section \<open>Ports and rentals\<close>

text \<open>
  The executor between two steps: the ports held are exactly those of the recorded rentals, and the
  pending cleanups belong to different recorded rentals.
\<close>

definition ports_match :: "PortManager RentalExecutor \<Rightarrow> bool" where
  "ports_match re \<longleftrightarrow> executor_inv (pm_in 30000 32000) held re \<and>
     (\<forall>p sid. held (re_portManager re) p = Some sid \<longrightarrow>
        (\<exists>st. re_activeRentals re sid = Some st \<and> rs_SSHPort st = p))"

definition executor_ok :: "PortManager executor_state \<Rightarrow> bool" where
  "executor_ok e \<longleftrightarrow> ports_match (fst e) \<and> distinct (map cj_sessionID (snd e)) \<and>
     (\<forall>job \<in> set (snd e). job_current (fst e) job)"

lemma ports_matchD:
  "ports_match re \<Longrightarrow> re_activeRentals re sid = Some st \<Longrightarrow> held (re_portManager re) (rs_SSHPort st) = Some sid"
  "ports_match re \<Longrightarrow> held (re_portManager re) p = Some sid \<Longrightarrow>
     \<exists>st. re_activeRentals re sid = Some st \<and> rs_SSHPort st = p"
  "ports_match re \<Longrightarrow> pm_in 30000 32000 (re_portManager re)"
  by (auto simp: ports_match_def executor_inv_def)

lemma StartRental_ports_match:
  assumes ok: "ports_match re"
    and run: "StartRental (DockerService_iface retry cli) PortManager_iface ctx req re w = Some (r, re', w')"
  shows "ports_match re'"
proof -
  from ok have inv: "executor_inv (pm_in 30000 32000) held re" by (simp add: ports_match_def)
  note inv' = rnr.StartRental_inv [OF inv run]
  have pm: "pm_in 30000 32000 (re_portManager re)" using ok by (rule ports_matchD)
  show ?thesis
  proof (cases r)
    case (Inl e)
    with rnr.StartRental_error [OF pm run [unfolded Inl]] inv' ok show ?thesis by (auto simp: ports_match_def)
  next
    case (Inr info)
    from rnr.StartRental_success [OF pm run [unfolded Inr]] obtain p cid where
      fresh: "held (re_portManager re) p = None" "re_activeRentals re (sr_SessionID req) = None"
      and upd: "held (re_portManager re') = (held (re_portManager re))(p \<mapsto> sr_SessionID req)"
        "re_activeRentals re' = (re_activeRentals re)(sr_SessionID req \<mapsto> rental_state req p cid (w_clock w'))"
      by metis
    have "\<exists>st. re_activeRentals re' sid = Some st \<and> rs_SSHPort st = q"
      if h: "held (re_portManager re') q = Some sid" for q sid
    proof (cases "q = p")
      case True
      with h show ?thesis by (simp add: upd)
    next
      case False
      with h obtain st where "re_activeRentals re sid = Some st" "rs_SSHPort st = q"
        using ports_matchD(2) [OF ok, of q sid] by (auto simp: upd)
      with fresh show ?thesis by (auto simp: upd)
    qed
    with inv' show ?thesis by (simp add: ports_match_def)
  qed
qed

lemma StartRental_jobs_current:
  assumes "ports_match re" "job_current re job"
    and run: "StartRental (DockerService_iface retry cli) PortManager_iface ctx req re w = Some (r, re', w')"
  shows "job_current re' job"
proof (cases r)
  case (Inl e)
  with assms StartRental_active_error show ?thesis by (fastforce simp: job_current_def)
next
  case (Inr info)
  with assms StartRental_active_ok show ?thesis by (fastforce simp: job_current_def)
qed

lemma executor_call_ok:
  assumes "executor_call (executor_iface (DockerService_iface retry cli) PortManager_iface) e e'"
    and "executor_ok e" and "distinct (map cj_sessionID (snd e'))"
  shows "executor_ok e'"
  using assms(1)
proof cases
  case unchanged
  with assms(2) show ?thesis by simp
next
  case (started req ctx w r w')
  then obtain re' where "e' = (re', snd e)"
      "StartRental (DockerService_iface retry cli) PortManager_iface ctx req (fst e) w = Some (r, re', w')"
    by (cases e) (auto simp: executor_iface_def)
  with assms(2) StartRental_ports_match [OF _ this(2)] StartRental_jobs_current [OF _ _ this(2)] show ?thesis
    by (simp add: executor_ok_def)
next
  case (stopped ctx sid w r w')
  obtain re jobs where e: "e = (re, jobs)" by (cases e)
  with stopped obtain job re' where
    stop: "StopRental (DockerService_iface retry cli) ctx sid re w = (r, job, re', w')"
    and e': "e' = (re', jobs @ (case job of None \<Rightarrow> [] | Some x \<Rightarrow> [x]))"
    by (auto simp: executor_iface_def split: prod.splits)
  from stop have keep: "re_portManager re' = re_portManager re"
      "\<forall>s. map_option rs_SSHPort (re_activeRentals re' s) = map_option rs_SSHPort (re_activeRentals re s)"
    by (auto simp: StopRental_def Let_def split: option.splits prod.splits)
  have same: "(\<exists>st. re_activeRentals re' s = Some st \<and> rs_SSHPort st = p) \<longleftrightarrow>
      (\<exists>st. re_activeRentals re s = Some st \<and> rs_SSHPort st = p)" for s p
    using keep(2) [rule_format, of s] by (cases "re_activeRentals re s"; cases "re_activeRentals re' s") auto
  have "job_current re' x" if "job = Some x" for x
    using stop that by (auto simp: StopRental_def Let_def job_current_def split: option.splits prod.splits)
  moreover have "ports_match re'"
    using assms(2) rnr.StopRental_inv [OF _ stop] by (simp add: e executor_ok_def ports_match_def same keep(1))
  moreover have "job_current re' x" if "x \<in> set jobs" for x
    using assms(2) that by (simp add: e executor_ok_def job_current_def same)
  ultimately show ?thesis
    using assms(3) unfolding e' executor_ok_def by (auto split: option.splits)
qed

lemma cleanup_ok:
  assumes ok: "executor_ok (re, bef @ job # aft)"
    and run: "cleanup_after_sleep (DockerService_iface retry cli) PortManager_iface job re w = (re', w')"
  shows "executor_ok (re', bef @ aft)"
proof -
  from ok have cur: "job_current re job" and match: "ports_match re" by (simp_all add: executor_ok_def)
  from match have inv: "executor_inv (pm_in 30000 32000) held re" by (simp add: ports_match_def)
  have re': "re' = fst (cleanup_after_sleep (DockerService_iface retry cli) PortManager_iface job re w)"
    using run by simp
  have inv': "executor_inv (pm_in 30000 32000) held re'" unfolding re' by (rule rnr.cleanup_inv [OF inv cur])
  have held': "held (re_portManager re') = (held (re_portManager re))(cj_sshPort job := None)"
    unfolding re' using rnr.cleanup_ports [OF ports_matchD(3) [OF match]] by blast
  have act: "re_activeRentals re' = (re_activeRentals re)(cj_sessionID job := None)"
    unfolding re' by (simp add: cleanup_after_sleep_def Let_def)
  from cur obtain st where st: "re_activeRentals re (cj_sessionID job) = Some st" "rs_SSHPort st = cj_sshPort job"
    by (auto simp: job_current_def)
  have "\<exists>st. re_activeRentals re' sid = Some st \<and> rs_SSHPort st = q"
    if h: "held (re_portManager re') q = Some sid" for q sid
  proof -
    from h have q: "q \<noteq> cj_sshPort job" and "held (re_portManager re) q = Some sid"
      by (auto simp: held' split: if_splits)
    with ports_matchD(2) [OF match] obtain st' where "re_activeRentals re sid = Some st'" "rs_SSHPort st' = q" by blast
    with q st show ?thesis by (auto simp: act)
  qed
  with inv' have "ports_match re'" by (simp add: ports_match_def)
  moreover have "job_current re' x" if "x \<in> set (bef @ aft)" for x
  proof -
    from ok that have "cj_sessionID x \<noteq> cj_sessionID job" by (auto simp: executor_ok_def) (metis image_eqI)+
    with ok that show ?thesis by (auto simp: executor_ok_def job_current_def act)
  qed
  ultimately show ?thesis using ok by (simp add: executor_ok_def)
qed

lemma shutdown_keeps:
  "shutdown_mining env d w = Returns (d', w') \<Longrightarrow> nd_rentalExecutor d' = nd_rentalExecutor d"
  "daemon_Stop env d w = Returns (d', w') \<Longrightarrow> nd_rentalExecutor d' = nd_rentalExecutor d"
  by (auto simp: shutdown_mining_def daemon_Stop_def outcome_bind_Returns Let_def split: option.splits if_splits)

text \<open>The environment start-up has wired: the executor and the mining daemon share one Docker service.\<close>

definition node_wired :: "'d retry \<Rightarrow> 'd DockerClient \<Rightarrow> (PortManager executor_state, 'd, 'c) node_env \<Rightarrow> bool" where
  "node_wired retry cli env \<longleftrightarrow> ne_docker env = DockerService_iface retry cli \<and>
     ne_executor env = executor_iface (DockerService_iface retry cli) PortManager_iface"

definition has_executor :: "(PortManager executor_state \<Rightarrow> bool) \<Rightarrow> (PortManager executor_state, 'c) NodeDaemon \<Rightarrow> bool" where
  "has_executor Q d \<longleftrightarrow> (\<exists>e. nd_rentalExecutor d = Some e \<and> Q e)"

lemma node_reaches_executor:
  assumes run: "node_reaches env once s0 s" and init: "has_executor Q (ns_daemon s0)"
    and call: "\<And>e e'. executor_call (ne_executor env) e e' \<Longrightarrow> Q e \<Longrightarrow>
      once \<longrightarrow> distinct (map cj_sessionID (snd e')) \<Longrightarrow> Q e'"
    and clean: "\<And>re bef job aft re' w w'. Q (re, bef @ job # aft) \<Longrightarrow>
      cleanup_after_sleep (ne_docker env) PortManager_iface job re w = (re', w') \<Longrightarrow> Q (re', bef @ aft)"
  shows "has_executor Q (ns_daemon s)"
  using run
proof (induction rule: node_reaches_induct [where I = "has_executor Q"])
  case start
  show ?case by (rule init)
next
  case (effect d d')
  then obtain e e' where e: "nd_rentalExecutor d = Some e" "Q e" "nd_rentalExecutor d' = Some e'"
      "executor_call (ne_executor env) e e'"
    by (auto simp: has_executor_def daemon_effect_def option_rel_Some1)
  moreover from effect(3) e have "once \<longrightarrow> distinct (map cj_sessionID (snd e'))"
    by (cases e') (simp add: cleanups_distinct_def)
  ultimately show ?case using call unfolding has_executor_def by metis
next
  case (cleanup d re bef job aft re' w w')
  then have "Q (re, bef @ job # aft)" by (simp add: has_executor_def)
  with cleanup(3) have "Q (re', bef @ aft)" by (metis clean)
  then show ?case by (simp add: has_executor_def)
next
  case (mining_stopped d d' w w')
  then show ?case by (simp add: has_executor_def shutdown_keeps(1) [OF mining_stopped(2)])
next
  case (daemon_stopped d d' w w')
  then show ?case by (simp add: has_executor_def shutdown_keeps(2) [OF daemon_stopped(2)])
qed (simp_all add: has_executor_def)

lemma node_reaches_executor_ok:
  assumes wired: "node_wired retry cli env" and run: "node_reaches env True s0 s"
    and init: "has_executor executor_ok (ns_daemon s0)"
  shows "has_executor executor_ok (ns_daemon s)"
  by (rule node_reaches_executor [OF run init])
    (use wired in \<open>auto simp: node_wired_def intro: executor_call_ok cleanup_ok\<close>)

lemma started_node_wired:
  assumes "main_startup pf fl w = Returns (Inr node, w')"
  obtains cli w0 w1 where "NewDockerService (pf_newClient pf) w0 = (Inr cli, w1)"
    "node_wired (pf_retry pf) cli (rn_env node)" 
  using ready_executor [OF assms] by (auto simp: node_wired_def)

lemma started_executor:
  assumes "main_startup pf fl w = Returns (Inr node, w')"
  shows "nd_rentalExecutor (rn_daemon node) = Some (NewRentalExecutor node_ports (30 * minute), [])"
proof (rule main_startup_stages [OF assms], rule wire_node_ready, assumption, goal_cases)
  case (1 isCPU fl1 w1 wa fl2 w2 cert pool nid w3 gp cli md w4 w5 w6 conn)
  from 1(10) show ?case
    by (auto simp: build_daemon_def WithRentalExecutor_def WithMiningDaemon_def Let_def split: option.splits)
qed

lemma new_executor_ok: "executor_ok (NewRentalExecutor node_ports (30 * minute), [])"
proof -
  have "held node_ports p = None" for p by (simp add: held_def NewPortManager_def)
  moreover have "pm_in 30000 32000 node_ports"
    by (simp add: pm_in_def valid_grace_def maxDuration_def) (simp add: NewPortManager_def)
  ultimately show ?thesis by (simp add: executor_ok_def ports_match_def executor_inv_def)
qed

text \<open>
  C3. From start-up on, whatever the node does, commands, HTTP requests, cleanups, mining, heartbeats,
  reconnections, in any order and with any answers from outside: as long as no session is stopped
  again while its cleanup is still pending, the port table and the table of rentals agree.  A port is
  held by a session exactly when that session's recorded rental has the port, so no two rentals
  share one and no port is held without a rental, and every such port is within 30000 to 32000.
\<close>

theorem node_ports_are_the_rentals_ports:
  assumes "main_startup pf fl w = Returns (Inr node, w1)" and "node_reaches (rn_env node) True (launch node w1) s"
  shows "\<exists>re jobs. nd_rentalExecutor (ns_daemon s) = Some (re, jobs) \<and>
    (\<forall>p sid. held (re_portManager re) p = Some sid \<longleftrightarrow>
       (\<exists>st. re_activeRentals re sid = Some st \<and> rs_SSHPort st = p)) \<and>
    (\<forall>sid st. re_activeRentals re sid = Some st \<longrightarrow> 30000 \<le> rs_SSHPort st \<and> rs_SSHPort st \<le> 32000)"
proof -
  obtain cli w0 w2 where "node_wired (pf_retry pf) cli (rn_env node)" using started_node_wired [OF assms(1)] .
  from node_reaches_executor_ok [OF this assms(2)] obtain re jobs where
    re: "nd_rentalExecutor (ns_daemon s) = Some (re, jobs)" and "executor_ok (re, jobs)"
    using started_executor [OF assms(1)] new_executor_ok by (auto simp: has_executor_def)
  then have ok: "ports_match re" by (simp add: executor_ok_def)
  then show ?thesis
    using re ports_matchD [OF ok] pm_in_held [OF ports_matchD(3) [OF ok]] by blast
qed

section \<open>The executor of the node and the interleaved executor\<close>

text \<open>The interleaved executor reaches the executor's state, with its pending cleanups as goroutines.\<close>

definition is_a_run :: "PortManager executor_state \<Rightarrow> bool" where
  "is_a_run e \<longleftrightarrow> runs_to PortManager_iface False node_executor {#} (fst e) (image_mset CleanupSleep (mset (snd e)))"

lemma executor_call_is_a_run:
  assumes "executor_call (executor_iface D PortManager_iface) e e'" and D: "docker_service D" and "is_a_run e"
  shows "is_a_run e'"
  using assms(1)
proof cases
  case unchanged
  with assms(3) show ?thesis by simp
next
  case (started req ctx w r w')
  then obtain re' where e': "e' = (re', snd e)"
    and run: "StartRental D PortManager_iface ctx req (fst e) w = Some (r, re', w')"
    by (cases e) (auto simp: executor_iface_def)
  from runs_to_trans [OF assms(3) [unfolded is_a_run_def]
      runs_to_trans [OF call_start_steps [OF started(1)] StartRental_is_a_run [OF D run]]]
  show ?thesis by (simp add: is_a_run_def e')
next
  case (stopped ctx sid w r w')
  let ?G = "image_mset CleanupSleep (mset (snd e))"
  obtain re jobs where e: "e = (re, jobs)" by (cases e)
  with stopped obtain job re' where
    stop: "StopRental D ctx sid re w = (r, job, re', w')"
    and e': "e' = (re', jobs @ (case job of None \<Rightarrow> [] | Some x \<Rightarrow> [x]))"
    by (auto simp: executor_iface_def split: prod.splits)
  have "runs_to PortManager_iface False re ?G re' (case job of None \<Rightarrow> ?G | Some j \<Rightarrow> add_mset (CleanupSleep j) ?G)"
    by (rule runs_to_trans [OF call_stop_steps StopRental_is_a_run [OF stop]]) simp
  moreover have "image_mset CleanupSleep (mset (snd e')) = (case job of None \<Rightarrow> ?G | Some j \<Rightarrow> add_mset (CleanupSleep j) ?G)"
    by (simp add: e e' split: option.split)
  ultimately show ?thesis using runs_to_trans assms(3) unfolding is_a_run_def e e' by (metis fst_conv snd_conv)
qed

lemma cleanup_job_is_a_run:
  assumes "is_a_run (re, bef @ job # aft)" and "cleanup_after_sleep D PortManager_iface job re w = (re', w')"
  shows "is_a_run (re', bef @ aft)"
proof -
  have "runs_to PortManager_iface False re (add_mset (CleanupSleep job) (image_mset CleanupSleep (mset (bef @ aft))))
      re' (image_mset CleanupSleep (mset (bef @ aft)))"
    using cleanup_is_a_run [of PortManager_iface False re job _ D w] assms(2) by simp
  with assms(1) show ?thesis unfolding is_a_run_def using runs_to_trans by fastforce
qed

lemma daemon_Stop_mining: "daemon_Stop env d w = Returns (d', w') \<Longrightarrow> nd_miningDaemon d' = nd_miningDaemon d"
  by (auto simp: daemon_Stop_def outcome_bind_Returns Let_def split: if_split_asm option.split_asm)

lemma mining_call_of_run:
  assumes "mining_call D md md'" and "daemon_of_run cfg md"
  shows "daemon_of_run cfg md'"
  using assms(1)
proof cases
  case idle
  with assms(2) show ?thesis by simp
next
  case (begun ctx w r w')
  then have "mining_exec D (OpStart ctx) md w = Returns (md', w')" by simp
  then show ?thesis using assms(2) by (rule daemon_of_run_exec)
next
  case (paused ctx gpus w b w')
  then have "mining_exec D (OpPause ctx gpus) md w = Returns (md', w')" by simp
  then show ?thesis using assms(2) by (rule daemon_of_run_exec)
next
  case (resumed ctx w r w')
  then have "mining_exec D (OpResume ctx []) md w = Returns (md', w')" by simp
  then show ?thesis using assms(2) by (rule daemon_of_run_exec)
next
  case (restarted w w')
  then have "mining_exec D OpRestart md w = Returns (md', w')" by simp
  then show ?thesis using assms(2) by (rule daemon_of_run_exec)
next
  case (monitored ctx w w')
  then have "mining_exec D (OpTick ctx) md w = Returns (md', w')" by simp
  then show ?thesis using assms(2) by (rule daemon_of_run_exec)
qed

lemma stop_mining_of_run:
  assumes "stop_mining D md w = Returns (md', w')" and "daemon_of_run cfg md"
  shows "daemon_of_run cfg md'"
proof -
  from assms(1) obtain ctx where "\<not> md_stopCh_closed md"
      and stop: "mining_exec D (OpStop ctx) (md\<lparr>md_stopCh_closed := True\<rparr>) w = Returns (md', w')"
    by (auto simp: stop_mining_def Close_mining_def outcome_bind_Returns split: if_split_asm)
  from daemon_of_run_exec [OF stop daemon_of_run_closed [OF assms(2) this(1)]] show ?thesis .
qed

lemma started_mining:
  assumes "main_startup pf fl w = Returns (Inr node, w')" and "nd_miningDaemon (rn_daemon node) = Some md"
  obtains cfg where "md = NewMiningDaemon cfg"
proof (rule main_startup_stages [OF assms(1)], rule wire_node_ready, assumption, goal_cases)
  case (1 isCPU fl1 w1 wa fl2 w2 cert pool nid w3 gp cli md' w4 w5 w6 conn)
  from 1(11) assms(2) have "md' = Some md"
    by (auto simp: build_daemon_def WithRentalExecutor_def WithMiningDaemon_def NewNodeDaemon_def Let_def
        split: option.splits)
  with 1(8) that show ?case by (auto simp: init_mining_def split: if_split_asm prod.split_asm)
qed

lemma node_reaches_mining:
  assumes "node_reaches env once s0 s" and "pred_option (daemon_of_run cfg) (nd_miningDaemon (ns_daemon s0))"
  shows "pred_option (daemon_of_run cfg) (nd_miningDaemon (ns_daemon s))"
  using assms(1)
proof (induction rule: node_reaches_induct [where I = "\<lambda>d. pred_option (daemon_of_run cfg) (nd_miningDaemon d)"])
  case start
  show ?case by (rule assms(2))
next
  case (effect d d')
  then show ?case
    by (cases "nd_miningDaemon d") (auto simp: daemon_effect_def option_rel_Some1 intro: mining_call_of_run)
next
  case (mining d md md' n)
  then show ?case by (auto intro: mining_call_of_run)
next
  case (mining_stopped d d' w w')
  then show ?case
    by (auto simp: shutdown_mining_def outcome_bind_Returns intro: stop_mining_of_run split: option.splits)
next
  case (daemon_stopped d d' w w')
  then show ?case by (simp add: daemon_Stop_mining)
qed simp_all

text \<open>
  C21. The two interleaved systems are abstractions of the running node: from start-up on, through Hub
  commands, HTTP requests, cleanups, mining and the shutdown in any order and with any answers from
  outside, every state of the node's executor, its port table, its rentals and its pending cleanups,
  is one the interleaved executor reaches, and every state of its mining daemon is one the
  interleaved mining daemon reaches.  What holds of all runs there holds of the node.
\<close>

theorem node_parts_are_runs:
  assumes "main_startup pf fl w = Returns (Inr node, w1)" and "node_reaches (rn_env node) once (launch node w1) s"
  shows "\<exists>re jobs cfg. nd_rentalExecutor (ns_daemon s) = Some (re, jobs) \<and>
    (\<exists>C. rental_steps PortManager_iface False False (rental_init node_ports)
       (sys_of re C (image_mset CleanupSleep (mset jobs)))) \<and>
    (\<forall>md. nd_miningDaemon (ns_daemon s) = Some md \<longrightarrow>
       (\<exists>m. mining_steps False (mining_init cfg) m \<and> my_daemon m = md))"
proof -
  obtain cli w0 w2 where wired: "node_wired (pf_retry pf) cli (rn_env node)" using started_node_wired [OF assms(1)] .
  have "has_executor is_a_run (ns_daemon s)"
  proof (rule node_reaches_executor [OF assms(2)], goal_cases)
    case 1
    have "is_a_run (NewRentalExecutor node_ports (30 * minute), [])"
      unfolding is_a_run_def runs_to_def by (metis rtranclp.rtrancl_refl fst_conv snd_conv list.simps(8) mset.simps(1) image_mset_empty)
    then show ?case by (simp add: has_executor_def started_executor [OF assms(1)])
  next
    case (2 e e')
    with wired executor_call_is_a_run [OF _ ds.docker_service_axioms] show ?case unfolding node_wired_def by metis
  next
    case (3 re bef job aft re' w w')
    then show ?case by (rule cleanup_job_is_a_run)
  qed
  then obtain re jobs where executor: "nd_rentalExecutor (ns_daemon s) = Some (re, jobs)" "is_a_run (re, jobs)"
    by (auto simp: has_executor_def)
  obtain cfg where "\<forall>md. nd_miningDaemon (rn_daemon node) = Some md \<longrightarrow> md = NewMiningDaemon cfg"
    using started_mining [OF assms(1)] by (metis option.inject)
  then have "pred_option (daemon_of_run cfg) (nd_miningDaemon (rn_daemon node))"
    by (auto simp: pred_option_def daemon_of_run_new)
  then have "pred_option (daemon_of_run cfg) (nd_miningDaemon (ns_daemon s))"
    by (intro node_reaches_mining [OF assms(2)]) simp
  moreover have "\<exists>C. rental_steps PortManager_iface False False (rental_init node_ports)
       (sys_of re C (image_mset CleanupSleep (mset jobs)))"
    using rental_init_runs [of PortManager_iface False node_ports "30 * minute" re] executor(2) by (simp add: is_a_run_def)
  ultimately show ?thesis
    using executor(1) by (intro exI [of _ re] exI [of _ jobs] exI [of _ cfg]) (auto dest: daemon_of_runD)
qed

section \<open>Nothing gets stuck\<close>

text \<open>
  Docker's documented container IDs have 64 characters; what the code relies on is that they have
  the twelve it puts in its log.
\<close>

definition long_ids :: "'d DockerClient \<Rightarrow> bool" where
  "long_ids cli \<longleftrightarrow>
     (\<forall>ctx cfg hc name w cid dt d. cl_ContainerCreate cli ctx cfg hc name w = (Inr cid, dt, d) \<longrightarrow> 12 \<le> length cid)"

lemma long_ids_created:
  assumes "long_ids cli" and "di_CreateContainer (DockerService_iface retry cli) ctx cfg w = ((cid, None), w')"
  shows "12 \<le> length cid"
proof -
  from assms(2) obtain w1 dt d where
    "cl_ContainerCreate cli ctx (containerConfig cfg) (hostConfig cfg) (cc_SessionID cfg) w1 = (Inr cid, dt, d)"
    by (auto simp: CreateContainer_def ext_run_def split: prod.splits option.splits sum.splits)
  with assms(1) show ?thesis unfolding long_ids_def by blast
qed

lemma Start_returns:
  assumes "\<And>ctx cfg w cid w'. di_CreateContainer D ctx cfg w = ((cid, None), w') \<Longrightarrow> 12 \<le> length cid"
  shows "returns (Start D ctx m w)"
  using assms by (fastforce simp: Start_def slice_to_def split: list.split prod.split option.split)

lemma mining_returns:
  assumes "long_ids cli"
  shows "returns (Start (DockerService_iface retry cli) ctx m w)"
    "returns (ResumeAfterRental (DockerService_iface retry cli) ctx gpus m w)"
    "returns (background_restart (DockerService_iface retry cli) m w)"
    "returns (monitor_tick (DockerService_iface retry cli) ctx m w)"
proof -
  have start: "returns (Start (DockerService_iface retry cli) ctx m w)" for ctx m w
    by (rule Start_returns) (rule long_ids_created [OF assms])
  then show "returns (Start (DockerService_iface retry cli) ctx m w)" .
  show "returns (ResumeAfterRental (DockerService_iface retry cli) ctx gpus m w)"
    by (simp add: ResumeAfterRental_def start Let_def)
  show "returns (background_restart (DockerService_iface retry cli) m w)"
    by (auto simp: background_restart_def intro: returns_bind start)
  show "returns (monitor_tick (DockerService_iface retry cli) ctx m w)"
    by (auto simp: monitor_tick_def intro!: returns_bind start split: prod.split)
qed

lemma executor_returns:
  assumes "0 < re_healthInterval (fst e)"
  shows "ei_StartRental (executor_iface (DockerService_iface retry cli) PortManager_iface) ctx req e w \<noteq> None"
proof -
  obtain re jobs where "e = (re, jobs)" by (cases e)
  with assms rn.StartRental_returns [of re retry cli ctx req w] show ?thesis by (simp add: executor_iface_def)
qed

lemma handleCommand_returns:
  assumes wired: "node_wired retry cli env" and ids: "long_ids cli"
    and ex: "has_executor (\<lambda>e. 0 < re_healthInterval (fst e)) d"
  shows "returns (handleCommand env cmd d w)"
proof -
  from ex obtain e where e: "nd_rentalExecutor d = Some e" "0 < re_healthInterval (fst e)"
    by (auto simp: has_executor_def)
  have resume: "returns (resume_mining env d w)" for d w
    using mining_returns(2) [OF ids] wired
    by (auto simp: resume_mining_def node_wired_def intro: returns_bind split: option.split)
  have "returns (handleStartRental env cmd d w)"
    using executor_returns [OF e(2), of retry cli] wired e(1)
    by (auto simp: handleStartRental_def node_wired_def Let_def intro!: returns_bind returns_of_option split: prod.split)
  moreover have "returns (handleStopRental env cmd d w)"
    using resume e(1)
    by (auto simp: handleStopRental_def Let_def intro!: returns_bind split: prod.split option.split)
  ultimately show ?thesis by (simp add: handleCommand_def)
qed

lemma StartRental_interval:
  "StartRental D P ctx req re w = Some (r, re', w') \<Longrightarrow> re_healthInterval re' = re_healthInterval re"
  by (auto simp: StartRental_def cleanupOnError_def Let_def split: if_splits option.splits prod.splits sum.splits)

lemma executor_call_interval:
  assumes "executor_call (executor_iface D P) e e'"
  shows "re_healthInterval (fst e') = re_healthInterval (fst e)"
  using assms
  by cases (auto simp: executor_iface_def StopRental_def Let_def StartRental_interval split: prod.splits option.splits)

lemma node_reaches_interval:
  assumes "main_startup pf fl w = Returns (Inr node, w1)" and "node_reaches (rn_env node) once (launch node w1) s"
  shows "has_executor (\<lambda>e. 0 < re_healthInterval (fst e)) (ns_daemon s)"
proof -
  obtain cli w0 w2 where wired: "node_wired (pf_retry pf) cli (rn_env node)" using started_node_wired [OF assms(1)] .
  show ?thesis
  proof (rule node_reaches_executor [OF assms(2)], goal_cases)
    case 1
    show ?case by (simp add: has_executor_def started_executor [OF assms(1)])
  next
    case (2 e e')
    with wired executor_call_interval show ?case unfolding node_wired_def by metis
  next
    case (3 re bef job aft re' w w')
    then show ?case by (auto simp: cleanup_after_sleep_def Let_def)
  qed
qed

lemma serve_returns:
  assumes "\<And>ctx req. ei_StartRental E ctx req e w \<noteq> None"
  shows "serve (NewRentalHandler E host) path r e w \<noteq> None"
proof -
  have "HandleStartRental (NewRentalHandler E host) r e w \<noteq> None"
    using assms by (cases "check_start r") (simp_all add: HandleStartRental_def NewRentalHandler_def)
  then show ?thesis
    by (cases "path = ''/rentals/start''") (simp add: serve_def, simp add: serve_def split: prod.split)
qed

lemma open_node_stops:
  assumes "phase_open s"
  shows "ns_phase s = Serving \<Longrightarrow> returns (main_shutdown env (ns_daemon s) v)"
    and "ns_phase s = Mining_stopped \<Longrightarrow> returns (daemon_Stop env (ns_daemon s) v)"
proof -
  let ?d = "ns_daemon s"
  have attached: "\<not> nd_stopCh_closed ?d" "\<forall>c. nd_mtlsClient ?d = Some c \<longrightarrow> \<not> ct_stopCh_closed c" if "ns_attached s"
    using assms that by (auto simp: phase_open_def daemon_attached_def)
  show "returns (daemon_Stop env ?d v)" if "ns_phase s = Mining_stopped"
    using daemon_Stop_returns [OF attached, of env v] that by (metis returns_simps(1))
  assume serving: "ns_phase s = Serving"
  have "\<exists>d' w'. main_shutdown env ?d v = Returns (d', w') \<and> nd_stopCh_closed d' \<and>
     (\<forall>c. nd_mtlsClient d' = Some c \<longrightarrow> ct_stopCh_closed c) \<and>
     (\<forall>md. nd_miningDaemon d' = Some md \<longrightarrow>
        md_state md = MiningStateStopped \<and> md_containerID md = '''' \<and> md_stopCh_closed md)"
    by (rule shutdown_stops) (use serving assms attached in \<open>auto simp: phase_open_def mining_open_def\<close>)
  then show "returns (main_shutdown env ?d v)" by auto
qed

text \<open>
  C11. No call of a running node gets stuck: in every state the node reaches after start-up, every
  command from the Hub is carried out to its acknowledgment, every HTTP request is answered, the
  mining daemon's start, restart and monitor return, and so do the whole shutdown while the node
  serves and its second stage once mining has been stopped: none of them panics and none runs for
  ever, whatever Docker and the network answer, provided that Docker's container IDs have at least
  twelve characters.
\<close>

theorem running_node_never_stuck:
  assumes "main_startup pf fl w = Returns (Inr node, w1)" and "node_reaches (rn_env node) once (launch node w1) s"
    and ids: "\<And>w cli w'. ext_run (pf_newClient pf) w = (Inr cli, w') \<Longrightarrow> long_ids cli"
  shows "returns (handleCommand (rn_env node) cmd (ns_daemon s) v) \<and>
    (\<exists>e. nd_rentalExecutor (ns_daemon s) = Some e \<and>
       serve (NewRentalHandler (ne_executor (rn_env node)) host) path r e v \<noteq> None) \<and>
    returns (Start (ne_docker (rn_env node)) ctx md v) \<and>
    returns (background_restart (ne_docker (rn_env node)) md v) \<and>
    returns (monitor_tick (ne_docker (rn_env node)) ctx md v) \<and>
    (ns_phase s = Serving \<longrightarrow> returns (main_shutdown (rn_env node) (ns_daemon s) v)) \<and>
    (ns_phase s = Mining_stopped \<longrightarrow> returns (daemon_Stop (rn_env node) (ns_daemon s) v))"
proof -
  have op: "phase_open s" by (rule node_reaches_open [OF assms(2) started_node_open [OF assms(1)]])
  obtain cli w0 w2 where cli: "NewDockerService (pf_newClient pf) w0 = (Inr cli, w2)"
    and wired: "node_wired (pf_retry pf) cli (rn_env node)" using started_node_wired [OF assms(1)] .
  from cli have "long_ids cli" by (auto simp: NewDockerService_def intro: ids split: prod.splits sum.splits)
  note interval = node_reaches_interval [OF assms(1,2)]
  then obtain e where e: "nd_rentalExecutor (ns_daemon s) = Some e" "0 < re_healthInterval (fst e)"
    by (auto simp: has_executor_def)
  have "serve (NewRentalHandler (ne_executor (rn_env node)) host) path r e v \<noteq> None"
    by (rule serve_returns) (use wired executor_returns [OF e(2)] in \<open>simp add: node_wired_def\<close>)
  with e(1) have calls: "returns (handleCommand (rn_env node) cmd (ns_daemon s) v) \<and>
    (\<exists>e. nd_rentalExecutor (ns_daemon s) = Some e \<and>
       serve (NewRentalHandler (ne_executor (rn_env node)) host) path r e v \<noteq> None) \<and>
    returns (Start (ne_docker (rn_env node)) ctx md v) \<and>
    returns (background_restart (ne_docker (rn_env node)) md v) \<and>
    returns (monitor_tick (ne_docker (rn_env node)) ctx md v)"
    using wired handleCommand_returns [OF wired \<open>long_ids cli\<close> interval]
      mining_returns [OF \<open>long_ids cli\<close>, of "pf_retry pf"]
    by (simp add: node_wired_def)
  show ?thesis
    by (intro conjI impI open_node_stops [OF op]) (use calls in blast)+
qed

section \<open>Rentals and mining\<close>

definition rented_gpu :: "string \<Rightarrow> ('e, 'c) NodeDaemon \<Rightarrow> bool" where
  "rented_gpu g d \<longleftrightarrow> (\<exists>md. nd_miningDaemon d = Some md \<and> g \<in> md_pausedGPUs md)"

lemma Start_pausedGPUs: "Start D ctx m w = Returns (r, m', w') \<Longrightarrow> md_pausedGPUs m' = md_pausedGPUs m"
  by (auto simp: Start_def slice_to_def split: if_split_asm list.split_asm prod.split_asm option.split_asm)

lemma Pause_pausedGPUs:
  "PauseForRental D ctx gpus m w = (b, m', w') \<Longrightarrow> md_pausedGPUs m' = md_pausedGPUs m \<union> set gpus"
  by (auto simp: PauseForRental_def Let_def split: if_split_asm)

lemma Resume_pausedGPUs:
  assumes "ResumeAfterRental D ctx gpus m w = Returns (r, m', w')"
  shows "md_pausedGPUs m' = md_pausedGPUs m - set gpus"
proof -
  let ?m = "m\<lparr>md_pausedGPUs := md_pausedGPUs m - set gpus\<rparr>"
  from assms consider "Start D ctx ?m w = Returns (r, m', w')" | "m' = ?m"
    by (auto simp: ResumeAfterRental_def Let_def split: if_split_asm)
  then show ?thesis by cases (simp_all add: Start_pausedGPUs)
qed

lemma tick_pausedGPUs:
  assumes "monitor_tick D ctx m w = Returns (m', w')"
  shows "md_pausedGPUs m' = md_pausedGPUs m"
proof -
  let ?m = "m\<lparr>md_containerID := '''', md_state := MiningStateStopped\<rparr>"
  from assms consider r ctx' w1 where "Start D ctx' ?m w1 = Returns (r, m', w')" | "m' = m"
    by (auto simp: monitor_tick_def outcome_bind_Returns split: if_split_asm prod.split_asm)
  then show ?thesis by cases (simp_all add: Start_pausedGPUs)
qed

lemma background_pausedGPUs: "background_restart D m w = Returns (m', w') \<Longrightarrow> md_pausedGPUs m' = md_pausedGPUs m"
  by (auto simp: background_restart_def outcome_bind_Returns Start_pausedGPUs)

lemma mining_call_rented: "mining_call D md md' \<Longrightarrow> md_pausedGPUs md \<subseteq> md_pausedGPUs md'"
  by (induction rule: mining_call.induct)
     (simp_all add: Start_pausedGPUs Pause_pausedGPUs Resume_pausedGPUs tick_pausedGPUs background_pausedGPUs)

lemma Stop_pausedGPUs: "Stop D ctx m w = Returns (r, m', w') \<Longrightarrow> md_pausedGPUs m' = md_pausedGPUs m"
  by (auto simp: Stop_def outcome_bind_Returns Let_def split: if_split_asm)

lemma stop_mining_pausedGPUs:
  assumes "stop_mining D m w = Returns (m', w')"
  shows "md_pausedGPUs m' = md_pausedGPUs m"
proof -
  from assms obtain r ctx where "Stop D ctx (m\<lparr>md_stopCh_closed := True\<rparr>) w = Returns (r, m', w')"
    by (auto simp: stop_mining_def Close_mining_def outcome_bind_Returns split: if_split_asm)
  then show ?thesis by (simp add: Stop_pausedGPUs)
qed

lemma shutdown_mining_rented:
  assumes "shutdown_mining env d w = Returns (d', w')" and "rented_gpu g d"
  shows "rented_gpu g d'"
proof -
  from assms(2) obtain md where md: "nd_miningDaemon d = Some md" "g \<in> md_pausedGPUs md" by (auto simp: rented_gpu_def)
  with assms(1) obtain md' w1 where "stop_mining (ne_docker env) md w = Returns (md', w1)"
      "d' = d\<lparr>nd_miningDaemon := Some md'\<rparr>"
    by (auto simp: shutdown_mining_def outcome_bind_Returns)
  with md show ?thesis by (simp add: rented_gpu_def stop_mining_pausedGPUs)
qed

lemma node_reaches_rented:
  assumes "node_reaches env once s0 s" and "rented_gpu g (ns_daemon s0)"
  shows "rented_gpu g (ns_daemon s)"
  using assms(1)
proof (induction rule: node_reaches_induct [where I = "rented_gpu g"])
  case start
  show ?case by (rule assms(2))
next
  case (effect d d')
  then obtain md md' where md: "nd_miningDaemon d = Some md" "g \<in> md_pausedGPUs md" "nd_miningDaemon d' = Some md'"
      "mining_call (ne_docker env) md md'"
    unfolding rented_gpu_def daemon_effect_def by (metis option_rel_Some1)
  with mining_call_rented [OF md(4)] show ?case by (auto simp: rented_gpu_def)
next
  case (mining d md md' n)
  with mining_call_rented [OF mining(3)] show ?case by (auto simp: rented_gpu_def)
next
  case (mining_stopped d d' w w')
  then show ?case by (blast intro: shutdown_mining_rented)
next
  case (daemon_stopped d d' w w')
  then show ?case by (simp add: rented_gpu_def daemon_Stop_mining)
qed (simp_all add: rented_gpu_def)

lemma pause_mining_marks:
  "pause_mining env gpu d w = (d', w') \<Longrightarrow> gpu \<noteq> '''' \<Longrightarrow> nd_miningDaemon d \<noteq> None \<Longrightarrow> rented_gpu gpu d'"
  by (auto simp: pause_mining_def rented_gpu_def Pause_pausedGPUs split: if_split_asm prod.split_asm)

section \<open>The executor's invariant under any calls\<close>

lemma executor_call_inv:
  assumes "executor_call (executor_iface (DockerService_iface retry cli) PortManager_iface) e e'"
    and inv: "executor_inv (pm_in lo hi) held (fst e)"
  shows "executor_inv (pm_in lo hi) held (fst e')"
  using assms(1)
proof cases
  case (started req ctx w r w')
  then obtain re' where "fst e' = re'"
      "StartRental (DockerService_iface retry cli) PortManager_iface ctx req (fst e) w = Some (r, re', w')"
    by (cases e) (auto simp: executor_iface_def)
  with rnr.StartRental_inv [OF inv] show ?thesis by blast
next
  case (stopped ctx sid w r w')
  then obtain job re' where "fst e' = re'"
      "StopRental (DockerService_iface retry cli) ctx sid (fst e) w = (r, job, re', w')"
    by (cases e) (auto simp: executor_iface_def split: prod.splits)
  with rnr.StopRental_inv [OF inv] show ?thesis by blast
qed (use inv in simp)

section \<open>A run for the witnesses\<close>

text \<open>The demonstration node rents out its GPU over HTTP.\<close>

definition demo_api_start :: "demo_files http_request" where
  "demo_api_start =
     \<lparr>rq_Method = ''POST'', rq_Body = Marshal demo_start_json, rq_query_sessionId = '''', rq_Context = ctx_Background\<rparr>"

lemma silent_started:
  assumes "\<And>w. ctx w = None"
  shows "StartRental (DockerService_iface demo_retry silent_cli) PortManager_iface ctx req
      (NewRentalExecutor node_ports (30 * minute)) w =
    Some (Inr (connection_info req 30000 ''container-123''),
      (NewRentalExecutor node_ports (30 * minute))
        \<lparr>re_portManager := assign (w_clock w) (sr_SessionID req) 30000 node_ports,
         re_activeRentals := [sr_SessionID req \<mapsto> rental_state req 30000 ''container-123'' (w_clock w)]\<rparr>, w)"
proof -
  note silent_defs = CreateContainer_def StartContainer_def InspectContainer_def ensureImage_def start_operation_def
    demo_retry_def silent_cli_def demo_inspect_def inspect_info_def go_eval
  have "waitForHealth (DockerService_iface demo_retry silent_cli) ctx cid re w = Some (None, w)"
    if "0 \<le> re_healthTimeout re" for cid and re :: "PortManager RentalExecutor"
    unfolding waitForHealth_def using that assms
    by (subst health_loop.simps) (simp add: health_verdict_def silent_defs)
  then show ?thesis
    using allocate_two(1) [of "w_clock w" "sr_SessionID req"] by (simp add: StartRental_def silent_defs Let_def)
qed

lemma demo_rented_node:
  obtains node w1 s re where "main_startup demo_platform (default_flags demo_os) demo_world = Returns (Inr node, w1)"
    and "node_reaches (rn_env node) True (launch node w1) s"
    and "nd_rentalExecutor (ns_daemon s) = Some (re, [])" and "dom (re_activeRentals re) = {''s1''}"
proof -
  obtain node w1 where start: "main_startup demo_platform (default_flags demo_os) demo_world = Returns (Inr node, w1)"
    and env: "rn_env node = build_env demo_platform silent_cli cpu_provider () ()"
    using demo_node by blast
  let ?e = "(NewRentalExecutor node_ports (30 * minute), [])"
  obtain reply re where serve: "serve (NewRentalHandler (ne_executor (rn_env node)) (nd_hostAddr (rn_daemon node)))
      ''/rentals/start'' demo_api_start ?e w1 = Some (reply, (re, []), w1)" and re: "dom (re_activeRentals re) = {''s1''}"
    by (simp add: serve_def HandleStartRental_def demo_json_check_start demo_api_start_def NewRentalHandler_def env
        build_env_def demo_platform_def executor_iface_def silent_started [simplified] ctx_Background_def exec_request_def Let_def)
  have "node_step (rn_env node) (launch node w1)
      ((launch node w1)\<lparr>ns_daemon := (rn_daemon node)\<lparr>nd_rentalExecutor := Some (re, [])\<rparr>, ns_world := w1\<rparr>)" (is "node_step _ _ ?s")
    using node_step.api_request [of "launch node w1" ?e "rn_env node"] serve started_executor [OF start] by simp
  then have "node_reaches (rn_env node) True (launch node w1) ?s"
    by (rule node_reaches.step [OF node_reaches.start]) (simp add: cleanups_distinct_def)
  then show thesis by (rule that [OF start _ _ re]) simp
qed

theorem node_ports_are_the_rentals_ports_witness:
  "\<exists>s re jobs p. nd_rentalExecutor (ns_daemon (s :: (demo_files, unit) running_node)) = Some (re, jobs) \<and>
     held (re_portManager re) p = Some ''s1'' \<and> 30000 \<le> p \<and> p \<le> 32000"
proof -
  obtain node w1 s re where start: "main_startup demo_platform (default_flags demo_os) demo_world = Returns (Inr node, w1)"
    and run: "node_reaches (rn_env node) True (launch node w1) s"
    and re: "nd_rentalExecutor (ns_daemon s) = Some (re, [])" "dom (re_activeRentals re) = {''s1''}"
    by (rule demo_rented_node)
  from re(2) obtain st where st: "re_activeRentals re ''s1'' = Some st" by blast
  from node_ports_are_the_rentals_ports [OF start run] re(1)
  have "\<forall>p sid. held (re_portManager re) p = Some sid \<longleftrightarrow>
         (\<exists>st. re_activeRentals re sid = Some st \<and> rs_SSHPort st = p)"
    "\<forall>sid st. re_activeRentals re sid = Some st \<longrightarrow> 30000 \<le> rs_SSHPort st \<and> rs_SSHPort st \<le> 32000"
    by simp_all
  with st have "held (re_portManager re) (rs_SSHPort st) = Some ''s1'' \<and> 30000 \<le> rs_SSHPort st \<and> rs_SSHPort st \<le> 32000"
    by blast
  with re(1) show ?thesis by blast
qed

theorem node_parts_are_runs_witness:
  "\<exists>s :: PortManager rental_sys. dom (y_activeRentals s) = {''s1''} \<and> y_goroutines s = {#} \<and>
     rental_steps PortManager_iface False False (rental_init node_ports) s"
proof -
  obtain node w1 s re where start: "main_startup demo_platform (default_flags demo_os) demo_world = Returns (Inr node, w1)"
    and run: "node_reaches (rn_env node) True (launch node w1) s"
    and re: "nd_rentalExecutor (ns_daemon s) = Some (re, [])" "dom (re_activeRentals re) = {''s1''}"
    by (rule demo_rented_node)
  from node_parts_are_runs [OF start run] re(1)
  obtain C where "rental_steps PortManager_iface False False (rental_init node_ports) (sys_of re C {#})" by auto
  with re(2) show ?thesis by (intro exI [of _ "sys_of re C {#}"]) simp
qed

theorem running_node_never_stuck_witness:
  "\<exists>node w1 s. main_startup demo_platform (default_flags demo_os) demo_world = Returns (Inr node, w1) \<and>
     node_reaches (rn_env node) True (launch node w1) s \<and> s \<noteq> launch node w1 \<and>
     returns (handleCommand (rn_env node) demo_stop (ns_daemon s) w1)"
proof -
  obtain node w1 s re where start: "main_startup demo_platform (default_flags demo_os) demo_world = Returns (Inr node, w1)"
    and run: "node_reaches (rn_env node) True (launch node w1) s"
    and re: "nd_rentalExecutor (ns_daemon s) = Some (re, [])" "dom (re_activeRentals re) = {''s1''}"
    by (rule demo_rented_node)
  have "s \<noteq> launch node w1"
  proof
    assume "s = launch node w1"
    with re(1) have "re = NewRentalExecutor node_ports (30 * minute)"
      by (simp add: started_executor [OF start])
    then have "re_activeRentals re = Map.empty" by simp
    with re(2) show False by simp
  qed
  have "long_ids silent_cli" by (auto simp: long_ids_def silent_cli_def)
  then have ids: "long_ids cli" if "ext_run (pf_newClient demo_platform) w = (Inr cli, w')" for w cli w'
    using that by (simp add: demo_platform_def ext_run_def)
  have "returns (handleCommand (rn_env node) demo_stop (ns_daemon s) w1)"
    by (rule conjunct1 [OF running_node_never_stuck [OF start run ids]])
  with start run \<open>s \<noteq> launch node w1\<close> show ?thesis
    by (intro exI conjI)
qed

end
