(* ===== verification/Command_Line.thy ===== *)
theory Command_Line
  imports Node_Main
begin

text \<open>
  The command line of \<open>cmd/node/main.go\<close>: the flags it defines and what package \<open>flag\<close> makes of the
  arguments, up to the start of the node.  A command line that is refused ends the process with a
  usage text, which is not modelled.
\<close>

section \<open>Values of flags\<close>

text \<open>\<open>strconv.ParseBool\<close>.\<close>

definition ParseBool :: "string \<Rightarrow> bool option" where
  "ParseBool s =
     (if s \<in> {''1'', ''t'', ''T'', ''true'', ''TRUE'', ''True''} then Some True
      else if s \<in> {''0'', ''f'', ''F'', ''false'', ''FALSE'', ''False''} then Some False
      else None)"

text \<open>
  \<open>strconv.ParseInt(s, 0, 64)\<close>: a sign, then digits in the base that a prefix names, with
  underscores only between digits or after the prefix.
\<close>

definition digit_value :: "char \<Rightarrow> nat option" where
  "digit_value c =
     (let n = (of_char c :: nat) in
      if 48 \<le> n \<and> n \<le> 57 then Some (n - 48)
      else if 97 \<le> n \<and> n \<le> 122 then Some (n - 87)
      else if 65 \<le> n \<and> n \<le> 90 then Some (n - 55)
      else None)"

definition below_base :: "nat \<Rightarrow> char \<Rightarrow> bool" where
  "below_base base c = (case digit_value c of None \<Rightarrow> False | Some d \<Rightarrow> d < base)"

definition digits_value :: "nat \<Rightarrow> string \<Rightarrow> nat option" where
  "digits_value base s =
     (if list_all (below_base base) s then Some (fold (\<lambda>c n. base * n + the (digit_value c)) s 0) else None)"

definition split_base :: "string \<Rightarrow> nat \<times> string" where
  "split_base s =
     (case s of
        [] \<Rightarrow> (10, s)
      | z # r \<Rightarrow>
          if z \<noteq> CHR ''0'' then (10, s)
          else if 3 \<le> length s \<and> hd r \<in> {CHR ''b'', CHR ''B''} then (2, tl r)
          else if 3 \<le> length s \<and> hd r \<in> {CHR ''o'', CHR ''O''} then (8, tl r)
          else if 3 \<le> length s \<and> hd r \<in> {CHR ''x'', CHR ''X''} then (16, tl r)
          else (8, r))"

text \<open>The second argument is the kind of the character before: a digit is \<open>0\<close>.\<close>

fun underscore_scan :: "bool \<Rightarrow> char \<Rightarrow> string \<Rightarrow> bool" where
  "underscore_scan hex i [] = (i \<noteq> CHR ''_'')"
| "underscore_scan hex i (c # s) =
     (if is_digit c \<or> hex \<and> below_base 16 c then underscore_scan hex (CHR ''0'') s
      else if c = CHR ''_'' then i = CHR ''0'' \<and> underscore_scan hex (CHR ''_'') s
      else i \<noteq> CHR ''_'' \<and> underscore_scan hex (CHR ''!'') s)"

definition underscoreOK :: "string \<Rightarrow> bool" where
  "underscoreOK s =
     (if 2 \<le> length s \<and> hd s = CHR ''0'' \<and> hd (tl s) \<in> {CHR ''b'', CHR ''B'', CHR ''o'', CHR ''O'', CHR ''x'', CHR ''X''}
      then underscore_scan (hd (tl s) \<in> {CHR ''x'', CHR ''X''}) (CHR ''0'') (drop 2 s)
      else underscore_scan False (CHR ''^'') s)"

definition ParseUint0 :: "string \<Rightarrow> nat option" where
  "ParseUint0 s =
     (case split_base s of
        (base, ds) \<Rightarrow>
          if s = '''' \<or> CHR ''_'' \<in> set ds \<and> \<not> underscoreOK s then None
          else digits_value base (filter (\<lambda>c. c \<noteq> CHR ''_'') ds))"

definition ParseInt0 :: "string \<Rightarrow> int option" where
  "ParseInt0 s =
     (let neg = HasPrefix s ''-'' in
      case ParseUint0 (if neg \<or> HasPrefix s ''+'' then tl s else s) of
        None \<Rightarrow> None
      | Some n \<Rightarrow>
          if neg then (if n \<le> 2 ^ 63 then Some (- int n) else None)
          else (if n < 2 ^ 63 then Some (int n) else None))"

section \<open>The flags of the node\<close>

definition flag_names :: "string list" where
  "flag_names =
     [''hub'', ''hub-http'', ''api-port'', ''host'', ''cert'', ''key'', ''ca'', ''cert-dir'', ''node-id'',
      ''enable-mining'', ''mining-image'', ''mining-data-dir'', ''private-key'', ''private-key-file'',
      ''siwe-domain'', ''gpu-type'', ''memory-gb'', ''price-per-sec'']"

text \<open>Setting a flag from its text; \<open>None\<close> is a value of the wrong type.\<close>

definition set_flag :: "string \<Rightarrow> string \<Rightarrow> flags \<Rightarrow> flags option" where
  "set_flag name v fl =
     (if name = ''hub'' then Some (fl\<lparr>fl_hub := v\<rparr>)
      else if name = ''hub-http'' then Some (fl\<lparr>fl_hubHTTP := v\<rparr>)
      else if name = ''api-port'' then Some (fl\<lparr>fl_apiPort := v\<rparr>)
      else if name = ''host'' then Some (fl\<lparr>fl_host := v\<rparr>)
      else if name = ''cert'' then Some (fl\<lparr>fl_cert := v\<rparr>)
      else if name = ''key'' then Some (fl\<lparr>fl_key := v\<rparr>)
      else if name = ''ca'' then Some (fl\<lparr>fl_ca := v\<rparr>)
      else if name = ''cert-dir'' then Some (fl\<lparr>fl_certDir := v\<rparr>)
      else if name = ''node-id'' then Some (fl\<lparr>fl_nodeID := v\<rparr>)
      else if name = ''enable-mining'' then map_option (\<lambda>b. fl\<lparr>fl_enableMining := b\<rparr>) (ParseBool v)
      else if name = ''mining-image'' then Some (fl\<lparr>fl_miningImage := v\<rparr>)
      else if name = ''mining-data-dir'' then Some (fl\<lparr>fl_miningDataDir := v\<rparr>)
      else if name = ''private-key'' then Some (fl\<lparr>fl_privateKey := v\<rparr>)
      else if name = ''private-key-file'' then Some (fl\<lparr>fl_privateKeyFile := v\<rparr>)
      else if name = ''siwe-domain'' then Some (fl\<lparr>fl_siweDomain := v\<rparr>)
      else if name = ''gpu-type'' then Some (fl\<lparr>fl_gpuType := v\<rparr>)
      else if name = ''memory-gb'' then map_option (\<lambda>i. fl\<lparr>fl_memoryGB := i\<rparr>) (ParseInt0 v)
      else if name = ''price-per-sec'' then Some (fl\<lparr>fl_pricePerSec := v\<rparr>)
      else None)"

section \<open>The arguments\<close>

text \<open>How \<open>FlagSet.parseOne\<close> reads one argument.\<close>

datatype flag_word = Operand | Terminator | Malformed | Named string "string option"

definition read_word :: "string \<Rightarrow> flag_word" where
  "read_word s =
     (if length s < 2 \<or> hd s \<noteq> CHR ''-'' then Operand
      else if s = ''--'' then Terminator
      else
        let name = (if hd (tl s) = CHR ''-'' then drop 2 s else tl s) in
        if name = '''' \<or> hd name \<in> {CHR ''-'', CHR ''=''} then Malformed
        else Named (takeWhile (\<lambda>c. c \<noteq> CHR ''='') name)
               (if CHR ''='' \<in> set name then Some (tl (dropWhile (\<lambda>c. c \<noteq> CHR ''='') name)) else None))"

text \<open>
  \<open>flag.Parse\<close>: the process exits with status 0 when help is asked for and with status 2 when the
  command line is wrong; otherwise the rest that is not flags is returned, which \<open>main\<close> ignores.
\<close>

datatype flag_exit = HelpRequested | BadUsage

fun parse_flags :: "string list \<Rightarrow> flags \<Rightarrow> flag_exit + flags \<times> string list" where
  "parse_flags [] fl = Inr (fl, [])"
| "parse_flags (s # args) fl =
     (case read_word s of
        Operand \<Rightarrow> Inr (fl, s # args)
      | Terminator \<Rightarrow> Inr (fl, args)
      | Malformed \<Rightarrow> Inl BadUsage
      | Named name v \<Rightarrow>
          if name \<notin> set flag_names then Inl (if name \<in> {''help'', ''h''} then HelpRequested else BadUsage)
          else if name = ''enable-mining'' then
            (case set_flag name (case v of None \<Rightarrow> ''true'' | Some x \<Rightarrow> x) fl of
               None \<Rightarrow> Inl BadUsage | Some fl' \<Rightarrow> parse_flags args fl')
          else
            (case v of
               Some x \<Rightarrow> (case set_flag name x fl of None \<Rightarrow> Inl BadUsage | Some fl' \<Rightarrow> parse_flags args fl')
             | None \<Rightarrow>
                 (case args of
                    [] \<Rightarrow> Inl BadUsage
                  | x # rest \<Rightarrow>
                      (case set_flag name x fl of None \<Rightarrow> Inl BadUsage | Some fl' \<Rightarrow> parse_flags rest fl'))))"

text \<open>The program from its arguments to the ready node.\<close>

definition main_program ::
  "('d, 'k, 't, 'q, 'c) platform \<Rightarrow> string list \<Rightarrow> 'd world \<Rightarrow>
   ((flag_exit + string + ('d, 'c) ready_node) \<times> 'd world) outcome" where
  "main_program pf args w =
     (case parse_flags args (default_flags (pf_os pf)) of
        Inl e \<Rightarrow> Returns (Inl e, w)
      | Inr (fl, _) \<Rightarrow> outcome_bind (main_startup pf fl w) (\<lambda>(r, w'). Returns (Inr r, w')))"

section \<open>Integers\<close>

lemma digit_value_digit: "is_digit c \<Longrightarrow> digit_value c = Some (of_char c - 48) \<and> of_char c - 48 < (10 :: nat)"
  by (auto simp: digit_value_def is_digit_def Let_def)

lemma digits_value_decimal:
  assumes "list_all is_digit s"
  shows "digits_value 10 s = Some (decimal_value s)"
proof -
  have "list_all (below_base 10) s" using assms digit_value_digit by (auto simp: list_all_iff below_base_def)
  moreover have "fold (\<lambda>c n. 10 * n + the (digit_value c)) s k = fold (\<lambda>c n. 10 * n + (of_char c - 48)) s k" for k
    using assms by (induction s arbitrary: k) (simp_all add: digit_value_digit)
  ultimately show ?thesis by (simp add: digits_value_def decimal_value_def)
qed

lemma filter_digits: "list_all is_digit s \<Longrightarrow> CHR ''_'' \<notin> set s \<and> filter (\<lambda>c. c \<noteq> CHR ''_'') s = s"
  by (induction s) (auto simp: is_digit_def)

lemma ParseUint0_decimal: "ParseUint0 (nat_decimal n) = Some n"
proof (cases "n = 0")
  case True
  have "nat_decimal 0 = ''0''" by code_simp
  with True show ?thesis by (simp add: ParseUint0_def split_base_def digits_value_def)
next
  case False
  then have "hd (nat_decimal n) \<noteq> CHR ''0''" by (simp add: hd_nat_decimal_nonzero)
  then have "split_base (nat_decimal n) = (10, nat_decimal n)"
    by (cases "nat_decimal n") (simp_all add: split_base_def)
  then show ?thesis
    using filter_digits [of "nat_decimal n"] by (simp add: ParseUint0_def digits_value_decimal)
qed

lemma ParseInt0_Itoa: "- (2 ^ 63) \<le> i \<Longrightarrow> i < 2 ^ 63 \<Longrightarrow> ParseInt0 (Itoa i) = Some i"
proof (cases "i < 0")
  case True
  assume "- (2 ^ 63) \<le> i"
  with True show ?thesis by (simp add: Itoa_def ParseInt0_def HasPrefix_def ParseUint0_decimal nat_le_iff Let_def)
next
  case False
  assume "i < 2 ^ 63"
  have "\<not> HasPrefix (nat_decimal n) ''-'' \<and> \<not> HasPrefix (nat_decimal n) ''+''" for n
    using hd_nat_decimal [of n] by (cases "nat_decimal n") (auto simp: HasPrefix_def is_digit_def)
  with False \<open>i < 2 ^ 63\<close> show ?thesis by (simp add: Itoa_def ParseInt0_def ParseUint0_decimal nat_less_iff Let_def)
qed

section \<open>Command lines that are read back\<close>

text \<open>
  A flag as it can be written: with one or two dashes, and its value after \<open>=\<close> or as the next
  argument, the latter not for a boolean flag.
\<close>

type_synonym flag_style = "string \<Rightarrow> bool \<times> bool"

definition flag_arg :: "flag_style \<Rightarrow> string \<Rightarrow> string \<Rightarrow> string list" where
  "flag_arg style name v =
     (let word = (if fst (style name) then ''--'' else ''-'') @ name
      in if snd (style name) \<and> name \<noteq> ''enable-mining'' then [word, v] else [word @ ''='' @ v])"

definition flag_args :: "flag_style \<Rightarrow> flags \<Rightarrow> string list" where
  "flag_args style fl = concat
     [flag_arg style ''hub'' (fl_hub fl), flag_arg style ''hub-http'' (fl_hubHTTP fl),
      flag_arg style ''api-port'' (fl_apiPort fl), flag_arg style ''host'' (fl_host fl),
      flag_arg style ''cert'' (fl_cert fl), flag_arg style ''key'' (fl_key fl), flag_arg style ''ca'' (fl_ca fl),
      flag_arg style ''cert-dir'' (fl_certDir fl), flag_arg style ''node-id'' (fl_nodeID fl),
      flag_arg style ''enable-mining'' (if fl_enableMining fl then ''true'' else ''false''),
      flag_arg style ''mining-image'' (fl_miningImage fl), flag_arg style ''mining-data-dir'' (fl_miningDataDir fl),
      flag_arg style ''private-key'' (fl_privateKey fl), flag_arg style ''private-key-file'' (fl_privateKeyFile fl),
      flag_arg style ''siwe-domain'' (fl_siweDomain fl), flag_arg style ''gpu-type'' (fl_gpuType fl),
      flag_arg style ''memory-gb'' (Itoa (fl_memoryGB fl)), flag_arg style ''price-per-sec'' (fl_pricePerSec fl)]"

lemma flag_names_plain:
  "name \<in> set flag_names \<Longrightarrow> name \<noteq> '''' \<and> hd name \<notin> {CHR ''-'', CHR ''=''} \<and> CHR ''='' \<notin> set name"
  by (auto simp: flag_names_def)

lemma read_word_flag:
  assumes "name \<in> set flag_names"
  shows "read_word (''-'' @ name @ ''='' @ v) = Named name (Some v)" "read_word (''--'' @ name @ ''='' @ v) = Named name (Some v)"
    "read_word (''-'' @ name) = Named name None" "read_word (''--'' @ name) = Named name None"
proof -
  from flag_names_plain [OF assms] obtain c r where name: "name = c # r" "c \<noteq> CHR ''-''" "c \<noteq> CHR ''=''"
    and eq: "CHR ''='' \<notin> set name"
    by (cases name) auto
  from eq have "takeWhile (\<lambda>c. c \<noteq> CHR ''='') (name @ q) = name @ takeWhile (\<lambda>c. c \<noteq> CHR ''='') q"
    "dropWhile (\<lambda>c. c \<noteq> CHR ''='') (name @ q) = dropWhile (\<lambda>c. c \<noteq> CHR ''='') q" for q
    by (auto intro: takeWhile_append2 dropWhile_append2)
  from this [of "''='' @ v"] this [of "[]"] eq name
  show "read_word (''-'' @ name @ ''='' @ v) = Named name (Some v)" "read_word (''--'' @ name @ ''='' @ v) = Named name (Some v)"
    "read_word (''-'' @ name) = Named name None" "read_word (''--'' @ name) = Named name None"
    by (simp_all add: read_word_def Let_def)
qed

lemma parse_flag_arg:
  assumes "name \<in> set flag_names" and "set_flag name v fl = Some fl'"
  shows "parse_flags (flag_arg style name v @ args) fl = parse_flags args fl'"
  using assms read_word_flag [OF assms(1)]
  by (cases "fst (style name)"; cases "snd (style name)"; cases "name = ''enable-mining''")
     (simp_all add: flag_arg_def Let_def)

text \<open>
  C38. What is written on the command line is what the node runs with: the eighteen flags of any
  configuration whose memory is a 64-bit integer, each in either style and with any text as its
  value, spaces, equal signs and dashes included, set exactly that configuration, whatever the
  defaults were and whatever comes after.
\<close>

theorem command_line_round_trip:
  assumes "- (2 ^ 63) \<le> fl_memoryGB fl" and "fl_memoryGB fl < 2 ^ 63"
  shows "parse_flags (flag_args style fl @ args) fl0 = parse_flags args fl \<and>
    main_program pf (flag_args style fl) w = outcome_bind (main_startup pf fl w) (\<lambda>(r, w'). Returns (Inr r, w'))"
proof -
  have bool: "ParseBool (if b then ''true'' else ''false'') = Some b" for b by (simp add: ParseBool_def)
  have parse: "parse_flags (flag_args style fl @ args) fl0 = parse_flags args fl" for args fl0
    unfolding flag_args_def concat.simps append_assoc append_Nil2
    by (simp add: flag_names_def set_flag_def bool ParseInt0_Itoa [OF assms] parse_flag_arg append_assoc)
       (rule arg_cong [where f = "parse_flags args"], rule flags.equality, simp_all)
  with parse [of "[]" "default_flags (pf_os pf)"] show ?thesis by (simp add: main_program_def)
qed

theorem command_line_round_trip_witness:
  "parse_flags (flag_args (\<lambda>_. (True, True)) ((default_flags demo_os)\<lparr>fl_memoryGB := 80, fl_host := ''-a=b c''\<rparr>) @ [])
     (default_flags demo_os) = Inr ((default_flags demo_os)\<lparr>fl_memoryGB := 80, fl_host := ''-a=b c''\<rparr>, [])"
  using command_line_round_trip [of "(default_flags demo_os)\<lparr>fl_memoryGB := 80, fl_host := ''-a=b c''\<rparr>"
      "\<lambda>_. (True, True)" "[]" "default_flags demo_os" demo_platform demo_world] by simp

text \<open>
  A boolean flag does not take the next argument: \<open>-enable-mining false\<close> turns mining on, and
  nothing after it is read.
\<close>

lemma separate_boolean_ends_the_flags:
  "parse_flags (''-enable-mining'' # ''false'' # args) fl = Inr (fl\<lparr>fl_enableMining := True\<rparr>, ''false'' # args)"
  by (simp add: read_word_def flag_names_def set_flag_def ParseBool_def Let_def)

text \<open>
  A flag that the node does not define, in either style, ends the process before anything is started.
\<close>

lemma undefined_flag_refused:
  assumes "name \<noteq> ''''" and "hd name \<notin> {CHR ''-'', CHR ''=''}" and "CHR ''='' \<notin> set name"
    and "name \<notin> set flag_names" and "name \<notin> {''help'', ''h''}"
  shows "parse_flags ((''-'' @ name) # args) fl = Inl BadUsage" "main_program pf ((''-'' @ name) # args) w = Returns (Inl BadUsage, w)"
proof -
  have "takeWhile (\<lambda>c. c \<noteq> CHR ''='') name = name" using assms(3) by (auto simp: takeWhile_eq_all_conv)
  with assms have "read_word (''-'' @ name) = Named name None"
    by (cases name) (auto simp: read_word_def Let_def)
  with assms(4,5) show "parse_flags ((''-'' @ name) # args) fl = Inl BadUsage" for fl by simp
  then show "main_program pf ((''-'' @ name) # args) w = Returns (Inl BadUsage, w)" by (simp add: main_program_def)
qed

end
