(* ===== verification/Spec2Isabelle.thy ===== *)
theory Spec2Isabelle
  imports Node_Invariants Command_Line
begin

text \<open>
  \<^bold>\<open>The node of the Worldland GPU rental platform.\<close>

  The program under \<open>src/\<close> runs on a provider's machine.  It signs in to the Hub with a wallet,
  keeps a mutually authenticated TLS connection to it, and rents out the machine's GPUs as Docker
  containers with SSH access; GPUs that are not rented mine.  Its parts and how they interact:

  \<^item> \<open>internal/port\<close> hands out SSH ports and keeps a released port back for a grace period.
  \<^item> \<open>internal/container\<close> drives Docker: create, start with retries, stop, remove, inspect.
  \<^item> \<open>internal/rental\<close> combines the two into rentals: a start allocates a port, creates and starts
    a container and waits until it is healthy; a stop leaves a goroutine behind that cleans up later.
  \<^item> \<open>internal/api\<close> offers rentals over HTTP.
  \<^item> \<open>internal/mining\<close> runs one mining container on a GPU that is not rented.
  \<^item> \<open>internal/adapters/mtls\<close> is the connection to the Hub, \<open>internal/services\<close> the daemon that
    carries out the Hub's commands on rentals and mining and sends heartbeats with the metrics of
    \<open>internal/adapters/nvml\<close> and \<open>internal/domain\<close>.
  \<^item> \<open>internal/auth\<close> is the wallet sign-in, \<open>cmd/node\<close> the program that wires everything together.

  \<^bold>\<open>Theories.\<close>

  \<^item> \<open>Go_Prelude\<close>: what the code uses of the Go language and library: time and saturating
    durations, errors with wrapping, contexts, 64-bit integers, decimal text, string splitting, and
    how a call ends (\<open>outcome\<close>: it returns, panics or runs for ever).  \<open>Go_Utf8\<close>: runes and invalid
    bytes.  \<open>Go_Float\<close>: rounding of a decimal literal to a \<open>float64\<close>.  \<open>Go_Json\<close>: JSON values, how
    the decoder stores them in a struct, values of type \<open>interface{}\<close>, instants as text;
    \<open>Go_Json_Text\<close> and \<open>Go_Json_Laws\<close>: the text of documents, and that what is written is read back,
    that the text of an object followed by more, or cut off, is not a document.
  \<^item> \<open>Interfaces\<close>: the interfaces through which the executor and the mining daemon see the port
    manager and Docker, as records of operations, and the laws their clients rely on, as the locales
    \<open>port_service\<close> and \<open>docker_service\<close>.
  \<^item> \<open>Port_Manager\<close> (\<open>port/manager.go\<close>): the record \<open>PortManager\<close>, one definition per method.
    It interprets \<open>port_service\<close>.  Shown: the lowest available port is handed out, exclusively
    until its release and then not before the grace period is over; the count of available ports;
    refinement of an abstract port table; and that the scan with a 64-bit counter terminates.
  \<^item> \<open>Docker_Service\<close> (\<open>container/docker.go\<close>): one definition per method; it interprets
    \<open>docker_service\<close>.  Shown: the published port is read back, success of a start is real, which
    GPUs a container sees, and when the CPU limit overflows.
  \<^item> \<open>Rental_Executor\<close> (\<open>rental/executor.go\<close>): the executor as a sequence of calls.  The locale
    \<open>rental_backend\<close> extends the two interface locales and carries the executor's lemmas.
  \<^item> \<open>Rental_Concurrency\<close>: the same executor as goroutines that interleave, an inductive step
    relation between the code's synchronisation points with arbitrary results from Docker, which only
    has to keep the names and the IDs of containers unique.  Shown: a sequential call is a run of it;
    by rule induction, ports are exclusive under every interleaving in which no rental is stopped
    twice, and overlapping starts of one session never have two containers or replace a running
    rental.
  \<^item> \<open>Rental_API\<close> (\<open>api/handler.go\<close>): the handlers over any executor; the locale
    \<open>rental_service\<close> is the contract of the executor they call.  Shown: every response is well typed.
  \<^item> \<open>Rental_Node\<close>: the executor on this repository's own services.  It interprets
    \<open>rental_backend\<close> and \<open>rental_service\<close>, and states the properties of rentals and of the handlers,
    among them what a second stop of one rental does to the session's next one.
  \<^item> \<open>Mining_Daemon\<close> (\<open>mining/daemon.go\<close>, \<open>config.go\<close>): the daemon's methods, its restart
    goroutine and its monitor, and runs of them in any order.  \<open>Mining_Concurrency\<close>: the same
    operations as goroutines that interleave at the mutex, with the mining containers Docker has, and
    those the daemon has lost to failures of Docker, in the state.  Shown: a running container that is
    not lost is the daemon's own and was created with a GPU that is not rented; the sequential model,
    with its containers, is part of this one; a restart that overtakes the stop.
  \<^item> \<open>Gpu_Provider\<close> (\<open>domain\<close>, \<open>adapters/nvml\<close>): the three providers, interpreting the locale
    \<open>gpu_provider\<close>.
  \<^item> \<open>Mtls_Client\<close> (\<open>adapters/mtls/client.go\<close>): connecting, listening and reconnecting, over any
    callback; the locale \<open>command_handler\<close> is the callback's contract.
  \<^item> \<open>Node_Daemon\<close> (\<open>services/node_daemon.go\<close>): the command handlers, which interpret
    \<open>command_handler\<close>, and heartbeats.  \<open>Command_Wire\<close>: commands and acknowledgments as bytes on
    the connection; a command that is sent is carried out, and a read has to hold one command.
  \<^item> \<open>Siwe_Auth\<close> (\<open>auth/siwe.go\<close>): hexadecimal text, the sign-in message and its signature, and the
    calls to the Hub.  Shown: a signature is valid, and a login goes through at a Hub that checks the
    domain, address, chain, nonce, time and signature of the message, which it reads line by line.
  \<^item> \<open>Node_Main\<close> (\<open>cmd/node/main.go\<close>): the stages of start-up, the wiring, the routes, shutdown.
    \<open>Command_Line\<close>: the flags, their parsing, and the program from its arguments to the ready node.
  \<^item> \<open>Node_System\<close>: the running node, its goroutines and the stages of its shutdown as an inductive
    step relation over the wired components.  Shown: the shutdown returns, whatever came before, and
    leaves mining stopped when no other call comes between its stages.
    \<open>Node_Invariants\<close>, for every state the node reaches: the ports held are those of the rentals,
    the executor and the mining daemon are in states the two interleaved systems reach, no call gets
    stuck.
  \<^item> This theory: what holds of the node as a whole, from the commands of the Hub to the ports.

  \<^bold>\<open>State and effects.\<close>  A struct is a record, a map a partial function, a method a function from the
  state to its result and the new state.  What lies outside the process is the type \<open>'d\<close> in the
  record \<open>world\<close>, next to the clock; a call to it is an arbitrary function of the world that
  takes some time and leaves some outside state.  Code that is not in the repository is a
  parameter of the definitions that call it: the Docker client, the backoff library, NVML, the TLS
  connection, the HTTP transport, the curve and the hash, the operating system, the certificate
  library.  Where a property relies on documented behaviour of such code, that behaviour is a named
  hypothesis, and a witness shows an instance: \<open>retry_spec\<close>, \<open>sign_spec\<close>, \<open>conforming_hub\<close> (a Hub
  that issues nonces and checks what it is sent), \<open>file_system_spec\<close> (files are written as asked, a
  new one with its mode less the umask), \<open>mining_docker\<close> (what Docker does to the containers under
  the name of the mining container), \<open>long_ids\<close>.

  \<^bold>\<open>Loops.\<close>  The port scans recur over the range with a measure; the health check and the 64-bit scan
  may run for ever as written and are partial functions into \<open>option\<close>, with proofs that they
  return.  Loops that wait for events (\<open>Listen\<close>, \<open>reportMetrics\<close>, \<open>MonitorLoop\<close>) recur over
  the list of events they see, of any length, so that no bound is built in.

  \<^bold>\<open>Concurrency.\<close>  Mutexes are not objects of the model: a region under a mutex is one step.  A
  step of \<open>Node_System\<close> is a whole call of a component; what can happen inside two calls at once is in
  \<open>Rental_Concurrency\<close> and \<open>Mining_Concurrency\<close>, and a property of \<open>Node_System\<close> holds of nodes whose
  calls do not overlap.  \<open>Node_Invariants.node_parts_are_runs\<close> is the link between the two levels.

  \<^bold>\<open>Not modelled.\<close>  Logging, usage texts, the HTTP and TLS libraries, how signals are delivered, and
  the tests.
\<close>

section \<open>Commands from the Hub\<close>

text \<open>
  C9. What the Hub is told about a start command is what happened: acknowledged with \<open>ok\<close>, the
  session had no rental and now has a running one, on the port and container of the
  acknowledgment; acknowledged with \<open>error\<close>, the rentals are unchanged.  \<open>start_job\<close> is
  \<open>start_rental\<close> under another name.
\<close>

theorem start_command_ack_is_true:
  assumes "ne_executor env = executor_iface D P" and "cmd_Type cmd \<in> {''start_rental'', ''start_job''}"
    and "nd_rentalExecutor d = Some e" and "payload_string (cmd_Payload cmd) ''session_id'' = sid" and "sid \<noteq> ''''"
    and run: "handleCommand env cmd d w = Returns (ack, d', w')"
  shows "\<exists>e'. nd_rentalExecutor d' = Some e' \<and>
    (if ack_Status ack = ''ok'' then
       \<exists>st. active_rentals e sid = None \<and> active_rentals e' = (active_rentals e)(sid \<mapsto> st) \<and> rs_StoppedAt st = None \<and>
         map_of (ack_Payload ack) ''ssh_port'' = Some (IFloat (of_int (rs_SSHPort st))) \<and>
         map_of (ack_Payload ack) ''container_id'' = Some (IString (rs_ContainerID st))
     else active_rentals e' = active_rentals e)"
proof -
  from run assms(2) have "handleStartRental env cmd d w = Returns (ack, d', w')"
    by (auto simp: handleCommand_def)
  then show ?thesis
  proof (rule handleStartRental_runs [OF _ assms(3)], goal_cases)
    case 1
    then show ?case using assms(4,5) by simp
  next
    case (2 d1 w1 res ex' w2)
    have sid: "sr_SessionID (command_request (ne_float_impl env) cmd (nd_hostAddr d)) = sid"
      by (simp add: command_request_def assms(4) Let_def)
    show ?case
    proof (cases res)
      case (Inl err)
      with 2 assms(1) have "active_rentals ex' = active_rentals e" using svc.start_failed by metis
      with Inl 2 show ?thesis by (auto simp: start_result_ack_def error_ack_def)
    next
      case (Inr info)
      from svc.start_done [OF 2(2) [unfolded assms(1) Inr], unfolded sid] obtain st where
        "active_rentals e sid = None" "active_rentals ex' = (active_rentals e)(sid \<mapsto> st)"
        "rs_SSHPort st = cx_Port info" "rs_ContainerID st = cx_ContainerID info" "rs_StoppedAt st = None"
        by blast
      with Inr 2 show ?thesis
        by (auto simp: start_result_ack_def started_ack_def split: if_split_asm prod.split_asm)
    qed
  qed
qed

text \<open>
  C20. A stop command that names a session is always acknowledged with \<open>ok\<close>, as the Hub is to treat
  the session as over; a known rental is marked as stopped at that moment even when Docker fails,
  and an unknown session changes no rental.
\<close>

theorem stop_command_always_ok:
  assumes "ne_executor env = executor_iface D P" and "cmd_Type cmd \<in> {''stop_rental'', ''stop_job''}"
    and "nd_rentalExecutor d = Some e" and "payload_string (cmd_Payload cmd) ''session_id'' = sid" and "sid \<noteq> ''''"
    and run: "handleCommand env cmd d w = Returns (ack, d', w')"
  shows "ack_Status ack = ''ok'' \<and>
    (\<exists>e'. nd_rentalExecutor d' = Some e' \<and>
       (case active_rentals e sid of
          None \<Rightarrow> e' = e
        | Some st \<Rightarrow> active_rentals e' = (active_rentals e)(sid \<mapsto> st\<lparr>rs_StoppedAt := Some (w_clock w)\<rparr>)))"
proof -
  from run assms(2) have "handleStopRental env cmd d w = Returns (ack, d', w')"
    by (auto simp: handleCommand_def)
  then show ?thesis
  proof (rule handleStopRental_runs [OF _ assms(3,4,5)], goal_cases)
    case (1 res ex' w1)
    then show ?case
    proof (cases "active_rentals e sid")
      case None
      with 1 svc.stop_unknown [OF None, of D P "ctx_WithTimeout ctx_Background (30 * second) w" w] assms(1)
      show ?thesis by auto
    next
      case (Some st)
      from svc.stop_known [OF Some 1(1) [unfolded assms(1)]] Some 1 show ?thesis by simp
    qed
  qed
qed

section \<open>Rentals and mining\<close>

text \<open>
  C27. A GPU that was once rented out through the Hub is never mined on again: whatever the node does
  afterwards, the stop and the cleanup of that very rental included, the GPU stays marked as rented,
  because a stop resumes mining with an empty list of GPUs.  On a node with that single GPU mining
  is over for good.
\<close>

theorem rented_gpu_never_mines_again:
  assumes cmd: "handleStartRental env cmd d w = Returns (ack, ns_daemon s1, w1)" and "nd_rentalExecutor d \<noteq> None"
    and "payload_string (cmd_Payload cmd) ''session_id'' \<noteq> ''''"
    and gpu: "payload_string (cmd_Payload cmd) ''gpu_device_id'' = g" "g \<noteq> ''''"
    and "nd_miningDaemon d \<noteq> None" and "node_reaches env once s1 s"
  shows "\<exists>md. nd_miningDaemon (ns_daemon s) = Some md \<and> g \<notin> set (getAvailableGPUs md)"
proof -
  from assms(2) obtain ex where ex: "nd_rentalExecutor d = Some ex" by blast
  have "rented_gpu g (ns_daemon s1)"
  proof (rule handleStartRental_runs [OF cmd ex assms(3)], goal_cases)
    case (1 d0 w0 res ex' w2)
    with pause_mining_marks [of env g d w d0 w0] gpu assms(6) show ?case by (simp add: rented_gpu_def)
  qed
  with node_reaches_rented [OF assms(7)] have "rented_gpu g (ns_daemon s)" .
  then show ?thesis using available_not_rented by (auto simp: rented_gpu_def)
qed

lemma resume_mining_starts:
  assumes "nd_miningDaemon d = Some md" and "md_state md = MiningStateStopped" and "mc_Enabled (md_config md)"
    and "getAvailableGPUs md \<noteq> []"
    and "\<And>ctx cfg w. \<exists>w'. di_CreateContainer (ne_docker env) ctx cfg w = ((cid, None), w')"
    and "\<And>ctx w. \<exists>w'. di_StartContainer (ne_docker env) ctx cid w = (None, w')" and "12 \<le> length cid"
  obtains md' w' where "resume_mining env d w = Returns (d\<lparr>nd_miningDaemon := Some md'\<rparr>, w')"
    "md_state md' = MiningStateRunning" "md_containerID md' = cid"
proof -
  let ?ctx = "ctx_WithTimeout ctx_Background (30 * second) w"
  from assms(4) obtain gpu rest where gpu: "getAvailableGPUs md = gpu # rest" by (cases "getAvailableGPUs md") auto
  obtain w1 where create: "di_CreateContainer (ne_docker env) ?ctx (mining_containerConfig md gpu) w = ((cid, None), w1)"
    using assms(5) by blast
  obtain w2 where start: "di_StartContainer (ne_docker env) ?ctx cid w1 = (None, w2)" using assms(6) by blast
  show ?thesis
    by (rule that [of "md\<lparr>md_containerID := cid, md_state := MiningStateRunning,
          md_startedAt := Some (w_clock w2), md_pausedAt := None\<rparr>" w2])
      (use assms(1-3,7) gpu create start in
        \<open>simp_all add: resume_mining_def ResumeAfterRental_def Start_def slice_to_def Let_def\<close>)
qed

text \<open>
  C37. The shutdown can leave a mining container behind, because it stops the mining daemon before the
  connection to the Hub: a stop command that arrives between the two resumes mining, and a node on
  which some GPU is not marked as rented then starts a container that nothing stops any more.  From
  such a state three steps lead to the end of the process with that container running.
\<close>

theorem stop_command_restarts_mining_in_shutdown:
  assumes "ns_phase s = Mining_stopped" and "\<not> nd_stopCh_closed (ns_daemon s)"
    and client: "nd_mtlsClient (ns_daemon s) = Some c" "ct_conn c = Some conn" "\<not> ct_stopCh_closed c"
    and command: "ext_run (tn_Read (ne_net env) conn 4096) (ns_world s) = (Inr data, w1)"
      "Unmarshal_Command data = Some cmd" "cmd_Type cmd \<in> {''stop_rental'', ''stop_job''}"
      "payload_string (cmd_Payload cmd) ''session_id'' = sid" "sid \<noteq> ''''"
    and executor: "nd_rentalExecutor (ns_daemon s) = Some e"
      "ei_StopRental (ne_executor env) (ctx_WithTimeout ctx_Background (30 * second) w1) sid e w1 = (None, e', w2)"
    and mining: "nd_miningDaemon (ns_daemon s) = Some md" "md_state md = MiningStateStopped"
      "mc_Enabled (md_config md)" "getAvailableGPUs md \<noteq> []"
    and docker: "\<And>ctx cfg w. \<exists>w'. di_CreateContainer (ne_docker env) ctx cfg w = ((cid, None), w')"
      "\<And>ctx w. \<exists>w'. di_StartContainer (ne_docker env) ctx cid w = (None, w')" "12 \<le> length cid"
  shows "\<exists>s1 s2 s3. node_step env s s1 \<and> node_step env s1 s2 \<and> node_step env s2 s3 \<and> ns_ended s3 \<and>
    (\<exists>md'. nd_miningDaemon (ns_daemon s3) = Some md' \<and> md_state md' = MiningStateRunning \<and> md_containerID md' = cid)"
proof -
  let ?d = "(ns_daemon s)\<lparr>nd_rentalExecutor := Some e'\<rparr>"
  have "nd_miningDaemon ?d = Some md" using mining(1) by simp
  then obtain md' w3 where resume: "resume_mining env ?d w2 = Returns (?d\<lparr>nd_miningDaemon := Some md'\<rparr>, w3)"
    and md': "md_state md' = MiningStateRunning" "md_containerID md' = cid"
    using resume_mining_starts [of ?d md env cid w2, OF _ mining(2-4) docker] by blast
  define d1 where "d1 = ?d\<lparr>nd_miningDaemon := Some md'\<rparr>"
  from command(3-5) executor resume obtain ack where
    "handleCommand env cmd (ns_daemon s) w1 = Returns (ack, d1, w3)"
    by (auto simp: handleCommand_def handleStopRental_def d1_def Let_def)
  with command(1,2) obtain w4 where turn: "read_loop (ne_net env) (Some (handleCommand env)) conn [False]
      (ns_daemon s) (ns_world s) = Returns (False, [(cmd, ack)], d1, w4)"
    by (simp add: call_OnCommand_def)
  define s1 where "s1 = s\<lparr>ns_daemon := d1, ns_world := w4\<rparr>"
  have s1: "node_step env s s1" unfolding s1_def
    by (rule node_step.hub_turn [OF _ client(1,2) turn]) (use assms(1) in simp)
  have "\<not> nd_stopCh_closed d1" "\<forall>c. nd_mtlsClient d1 = Some c \<longrightarrow> \<not> ct_stopCh_closed c"
    using assms(2) client by (simp_all add: d1_def)
  then obtain d2 w5 where stop: "daemon_Stop env d1 w4 = Returns (d2, w5)" and d2: "nd_miningDaemon d2 = Some md'"
    by (rule daemon_Stop_returns) (auto simp: d1_def)
  define s2 where "s2 = s1\<lparr>ns_daemon := d2, ns_world := w5, ns_phase := Daemon_stopped\<rparr>"
  have s2: "node_step env s1 s2" unfolding s2_def
    by (rule node_step.shutdown_daemon) (use stop assms(1) in \<open>simp_all add: s1_def\<close>)
  have "node_step env s2 (s2\<lparr>ns_world := w5, ns_phase := Ended\<rparr>)"
    by (rule node_step.shutdown_server) (simp_all add: s2_def)
  with s1 s2 d2 md' show ?thesis by (auto simp: s2_def intro!: exI)
qed

section \<open>The node as a whole\<close>

definition daemon_ports_ok :: "(PortManager executor_state, 'c) NodeDaemon \<Rightarrow> bool" where
  "daemon_ports_ok d \<longleftrightarrow> (\<exists>re jobs. nd_rentalExecutor d = Some (re, jobs) \<and> executor_inv (pm_in 30000 32000) held re)"

lemma handleCommand_ports:
  assumes env: "ne_executor env = executor_iface (DockerService_iface retry cli) PortManager_iface"
    and run: "handleCommand env cmd d w = Returns (ack, d', w')" and ok: "daemon_ports_ok d"
  shows "daemon_ports_ok d'"
proof -
  from ok obtain e where e: "nd_rentalExecutor d = Some e" "executor_inv (pm_in 30000 32000) held (fst e)"
    by (auto simp: daemon_ports_ok_def)
  with handleCommand_effect [OF run] obtain e' where "nd_rentalExecutor d' = Some e'" "executor_call (ne_executor env) e e'"
    by (auto simp: daemon_effect_def option_rel_Some1)
  with executor_call_inv [OF _ e(2)] show ?thesis by (cases e') (auto simp: env daemon_ports_ok_def)
qed

text \<open>
  From start-up on, through any sequence of commands from the Hub: a node that came out of
  start-up keeps the executor's invariant, so that every rental it has recorded holds its own SSH
  port and no two rentals have the same one.
\<close>

lemma node_rentals_have_own_ports:
  assumes start: "main_startup pf fl w = Returns (Inr node, w1)"
    and listen: "Listen (ne_net (rn_env node)) (Some (handleCommand (rn_env node))) rounds c
       (rn_daemon node) w1 = Returns (fin, tr, c', d, w')"
  shows "\<exists>re jobs. nd_rentalExecutor d = Some (re, jobs) \<and>
    (\<forall>sid st. re_activeRentals re sid = Some st \<longrightarrow> held (re_portManager re) (rs_SSHPort st) = Some sid) \<and>
    inj_on (\<lambda>sid. rs_SSHPort (the (re_activeRentals re sid))) (dom (re_activeRentals re))"
proof -
  from ready_executor [OF start] obtain cli where
    env: "ne_executor (rn_env node) = executor_iface (DockerService_iface (pf_retry pf) cli) PortManager_iface"
    and fresh: "daemon_ports_ok (rn_daemon node)"
    unfolding daemon_ports_ok_def by blast
  from fresh have "daemon_ports_ok d"
    by (rule Listen_invariant [where h = "handleCommand (rn_env node)" and I = daemon_ports_ok, OF _ listen, rotated])
       (rule handleCommand_ports [OF env])
  then obtain re jobs where "nd_rentalExecutor d = Some (re, jobs)" and inv: "executor_inv (pm_in 30000 32000) held re"
    by (auto simp: daemon_ports_ok_def)
  moreover have "inj_on (\<lambda>sid. rs_SSHPort (the (re_activeRentals re sid))) (dom (re_activeRentals re))"
    using executor_inv_ports_distinct [OF inv] by (force simp: inj_on_def)
  ultimately show ?thesis by (auto simp: executor_inv_def)
qed

text \<open>
  An acknowledgment of the started node carries a port of its range, so its text is read back.
\<close>

lemma handleCommand_flat:
  assumes env: "ne_executor env = executor_iface (DockerService_iface retry cli) PortManager_iface"
    and run: "handleCommand env cmd d w = Returns (ack, d', w')" and ok: "daemon_ports_ok d"
  shows "flat_ack ack"
proof -
  from ok obtain re jobs where ex: "nd_rentalExecutor d = Some (re, jobs)" and inv: "executor_inv (pm_in 30000 32000) held re"
    by (auto simp: daemon_ports_ok_def)
  consider (start) "handleStartRental env cmd d w = Returns (ack, d', w')" "payload_string (cmd_Payload cmd) ''session_id'' \<noteq> ''''"
    | (stop) "handleStopRental env cmd d w = Returns (ack, d', w')"
    | (same) msg where "ack = error_ack cmd msg"
    using run ex
    by (auto simp: handleCommand_def handleStartRental_def Let_def split: if_split_asm)
  then show ?thesis
  proof cases
    case start
    show ?thesis
    proof (rule handleStartRental_runs [OF start(1) ex start(2)], goal_cases)
      case (1 d1 w1 res ex' w2)
      show ?case
      proof (cases res)
        case (Inl err)
        with 1(3) show ?thesis by (auto simp: start_result_ack_def)
      next
        case (Inr info)
        from svc.start_done [OF 1(2) [unfolded env Inr]] obtain sid st rs where
          "active_rentals ex' = rs(sid \<mapsto> st)" and port: "rs_SSHPort st = cx_Port info" by blast
        then have st: "active_rentals ex' sid = Some st" by simp
        from 1(2) Inr obtain re' where ex': "ex' = (re', jobs)"
            and run: "StartRental (DockerService_iface retry cli) PortManager_iface (ctx_WithTimeout ctx_Background (10 * minute) w1)
               (command_request (ne_float_impl env) cmd (nd_hostAddr d)) re w1 = Some (res, re', w2)"
          by (auto simp: env executor_iface_def)
        from ex' st have "re_activeRentals re' sid = Some st" by (simp add: active_rentals_def)
        with rnr.StartRental_inv [OF inv run] have "held (re_portManager re') (cx_Port info) = Some sid"
            "pm_in 30000 32000 (re_portManager re')"
          unfolding executor_inv_def port [symmetric] by blast+
        then have "flat_ack (started_ack cmd host info)" for host
          using pm_in_held by (intro started_ack_flat) fastforce
        with Inr 1(3) show ?thesis by (auto simp: start_result_ack_def split: prod.splits if_splits)
      qed
    qed
  qed (auto intro: handleStopRental_flat)
qed

text \<open>
  C10. Every command the node takes from the Hub is acknowledged, and the Hub can tell which one:
  from start-up on, over any number of connections and reconnections, each command handled is
  answered with an acknowledgment that carries the command's ID and the status \<open>ok\<close> or \<open>error\<close>,
  and the bytes written for it are one JSON object from which exactly that ID and that status are read.
\<close>

theorem every_command_is_acknowledged:
  assumes start: "main_startup pf fl w = Returns (Inr node, w1)"
    and listen: "Listen (ne_net (rn_env node)) (Some (handleCommand (rn_env node))) rounds c (rn_daemon node) w1 =
       Returns (fin, tr, c', d, w')"
  shows "\<forall>(cmd, ack) \<in> set tr. ack_CommandID ack = cmd_ID cmd \<and> ack_Status ack \<in> {''ok'', ''error''} \<and>
    reads_back cmd ack"
proof -
  from ready_executor [OF start] obtain cli where
    env: "ne_executor (rn_env node) = executor_iface (DockerService_iface (pf_retry pf) cli) PortManager_iface"
    and fresh: "daemon_ports_ok (rn_daemon node)"
    unfolding daemon_ports_ok_def by blast
  have "daemon_ports_ok s' \<and> answers_command cmd ack \<and> reads_back cmd ack"
    if "Unmarshal_Command data = Some cmd" "handleCommand (rn_env node) cmd s w = Returns (ack, s', w')" "daemon_ports_ok s"
    for data cmd s w ack s' w'
    using handleCommand_ports [OF env that(2,3)] node.answers [OF that(2)]
      flat_ack_reads_back [OF handleCommand_flat [OF env that(2,3)] that(1)] by blast
  from Listen_trace [of "handleCommand (rn_env node)" daemon_ports_ok "\<lambda>cmd ack. answers_command cmd ack \<and> reads_back cmd ack",
      OF this listen fresh]
  show ?thesis by (auto simp: answers_command_def)
qed

text \<open>
  C40. The memory limit of a start command, given in megabytes as an integer literal of any size,
  reaches the executor exactly, in bytes, precisely for the values from \<open>- 2 ^ 43\<close> up to
  \<open>2 ^ 43 - 1\<close>; beyond, the literal is rounded to a float, converted, and multiplied in 64 bits.
\<close>

theorem command_memory_exact_iff:
  assumes "ParseFloat (Itoa mb) = Some v" and "payload_float (cmd_Payload cmd) ''memory_mb'' = Some v"
  shows "sint (sr_MemoryBytes (command_request impl cmd host)) = mb * 1048576 \<longleftrightarrow> - (2 ^ 43) \<le> mb \<and> mb < 2 ^ 43"
proof (cases "\<bar>mb\<bar> < 2 ^ 53")
  case True
  then have "- (2 ^ 63) \<le> mb" "mb < 2 ^ 63" by simp_all
  then have range: "sint (word_of_int mb :: int64) = mb"
    by (simp add: signed_of_int signed_take_bit_int_eq_self_iff)
  from True assms have "payload_float (cmd_Payload cmd) ''memory_mb'' = Some (of_int mb)"
    by (simp add: ParseFloat_Itoa)
  then have "sr_MemoryBytes (command_request impl cmd host) = word_of_int mb * 1048576"
    using \<open>- (2 ^ 63) \<le> mb\<close> \<open>mb < 2 ^ 63\<close> by (simp add: command_request_def float_to_int64_of_int Let_def)
  with sint_mult_exact_iff [of "word_of_int mb" 1048576] range show ?thesis by auto
next
  case False
  let ?m = "sint (sr_MemoryBytes (command_request impl cmd host))"
  have "- (2 ^ 63) \<le> ?m" "?m < 2 ^ 63"
    using sint_ge [of "sr_MemoryBytes (command_request impl cmd host)"] sint_lt [of "sr_MemoryBytes (command_request impl cmd host)"]
    by simp_all
  with False show ?thesis by auto
qed

section \<open>Witnesses\<close>

definition demo_env :: "(PortManager executor_state, unit, unit) node_env" where
  "demo_env =
     \<lparr>ne_executor = executor_iface demo_docker PortManager_iface, ne_docker = demo_docker, ne_gpu = cpu_provider,
      ne_net = text_net demo_stop_text, ne_float_impl = (\<lambda>_. 0),
      ne_DialUDP = (\<lambda>w. (Inr ''10.0.0.1'', 0, ())), ne_zone = 0\<rparr>"

definition demo_daemon :: "(PortManager executor_state, unit) NodeDaemon" where
  "demo_daemon = WithMiningDaemon (NewMiningDaemon (DefaultMiningConfig\<lparr>mc_GPUDeviceIDs := [''GPU-1'']\<rparr>))
     (WithRentalExecutor (node_executor, []) ''node.example''
       ((NewNodeDaemon ''node-1'')\<lparr>nd_mtlsClient := Some ((NewClient ''hub:8443'')\<lparr>ct_conn := Some ()\<rparr>)\<rparr>))"

definition demo_start :: Command where
  "demo_start = sent_command ''c1'' ''start_rental'' demo_start_payload"

lemma demo_payload:
  "payload_string (cmd_Payload demo_start) ''session_id'' = ''s1''"
  "payload_string (cmd_Payload demo_start) ''gpu_device_id'' = ''GPU-1''"
  "payload_string (cmd_Payload demo_stop) ''session_id'' = ''s1''"
  "cmd_Type demo_start = ''start_rental''" "cmd_Type demo_stop = ''stop_rental''"
  by (simp_all add: demo_start_def demo_start_payload_def demo_stop_def payload_string_def)

lemma demo_executor: "nd_rentalExecutor demo_daemon = Some (node_executor, [])"
  by (simp add: demo_daemon_def WithMiningDaemon_def WithRentalExecutor_def)

lemma demo_start_handled:
  "\<exists>ack d'. handleStartRental demo_env demo_start demo_daemon quiet_world = Returns (ack, d', quiet_world) \<and>
     ack_Status ack = ''ok'' \<and> (\<exists>re. nd_rentalExecutor d' = Some (re, []) \<and>
        (\<exists>st. re_activeRentals re ''s1'' = Some st)) \<and>
     (\<exists>md. nd_miningDaemon d' = Some md \<and> md_state md = MiningStateStopped \<and> mc_Enabled (md_config md) \<and>
        getAvailableGPUs md = [])"
proof -
  let ?ctx = "ctx_WithTimeout ctx_Background (10 * minute) quiet_world"
  let ?req = "command_request (ne_float_impl demo_env) demo_start ''node.example''"
  have ctx: "?ctx quiet_world = None" by (simp add: ctx_WithTimeout_def ctx_Background_def quiet_world_def)
  have sid: "sr_SessionID ?req = ''s1''" by (simp add: command_request_def demo_payload Let_def)
  have pause: "pause_mining demo_env ''GPU-1'' demo_daemon quiet_world =
      (demo_daemon\<lparr>nd_miningDaemon := Some (NewMiningDaemon (DefaultMiningConfig\<lparr>mc_GPUDeviceIDs := [''GPU-1'']\<rparr>)
         \<lparr>md_pausedGPUs := {''GPU-1''}\<rparr>)\<rparr>, quiet_world)"
    by (simp add: pause_mining_def demo_daemon_def WithMiningDaemon_def WithRentalExecutor_def NewNodeDaemon_def
        PauseForRental_def NewMiningDaemon_def Let_def)
  have host: "nd_hostAddr demo_daemon = ''node.example''"
    by (simp add: demo_daemon_def WithMiningDaemon_def WithRentalExecutor_def)
  have "ei_StartRental (ne_executor demo_env) ?ctx ?req (node_executor, []) quiet_world =
      Some (Inr (connection_info ?req 30000 ''container-123''),
        (node_executor\<lparr>re_portManager := assign 0 ''s1'' 30000 node_ports,
           re_activeRentals := [''s1'' \<mapsto> rental_state ?req 30000 ''container-123'' 0]\<rparr>, []), quiet_world)"
    using demo_docker_started [of ?ctx ?req, OF ctx sid] by (simp add: demo_env_def executor_iface_def)
  then show ?thesis
    by (simp add: handleStartRental_def demo_executor demo_payload pause host start_result_ack_def started_ack_def Let_def)
       (simp add: NewMiningDaemon_def DefaultMiningConfig_def getAvailableGPUs_def)
qed

lemma demo_stop_handled:
  assumes "nd_rentalExecutor d = Some (re, jobs)" and "re_activeRentals re ''s1'' = Some st"
    and "nd_miningDaemon d = Some md" and "md_state md = MiningStateStopped" and "mc_Enabled (md_config md)"
    and "getAvailableGPUs md = []"
  shows "\<exists>ack d'. handleCommand demo_env demo_stop d quiet_world = Returns (ack, d', quiet_world)"
proof -
  let ?ctx = "ctx_WithTimeout ctx_Background (30 * second) quiet_world"
  obtain e' where stop: "ei_StopRental (ne_executor demo_env) ?ctx ''s1'' (re, jobs) quiet_world = (None, e', quiet_world)"
    using assms(2) by (simp add: demo_env_def executor_iface_def StopRental_def demo_docker_defs Let_def)
  obtain d' where resume: "resume_mining demo_env (d\<lparr>nd_rentalExecutor := Some e'\<rparr>) quiet_world = Returns (d', quiet_world)"
    using assms(3-) by (simp add: resume_mining_def ResumeAfterRental_def Start_def Let_def)
  have "handleCommand demo_env demo_stop d quiet_world = handleStopRental demo_env demo_stop d quiet_world"
    by (simp add: handleCommand_def demo_payload)
  with assms(1) stop resume show ?thesis by (simp add: handleStopRental_def demo_payload Let_def)
qed

text \<open>The stop command arrives over a connection that delivers nothing else.\<close>

lemma demo_turn:
  assumes "handleCommand demo_env demo_stop d quiet_world = Returns (ack, d', quiet_world)"
    and "nd_mtlsClient d = nd_mtlsClient demo_daemon"
  shows "node_step demo_env \<lparr>ns_daemon = d, ns_world = quiet_world, ns_monitored = True, ns_phase = Serving\<rparr>
    \<lparr>ns_daemon = d', ns_world = quiet_world, ns_monitored = True, ns_phase = Serving\<rparr>"
proof -
  let ?s = "\<lparr>ns_daemon = d, ns_world = quiet_world, ns_monitored = True, ns_phase = Serving\<rparr>"
  have "read_loop (ne_net demo_env) (Some (handleCommand demo_env)) () [False] d quiet_world =
      Returns (False, [(demo_stop, ack)], d', quiet_world)"
    by (simp add: call_OnCommand_def assms(1) text_net_simps demo_stop_read demo_env_def [THEN arg_cong [where f = ne_net]])
  moreover have "nd_mtlsClient d = Some ((NewClient ''hub:8443'')\<lparr>ct_conn := Some ()\<rparr>)"
    by (simp add: assms(2) demo_daemon_def WithMiningDaemon_def WithRentalExecutor_def)
  ultimately show ?thesis
    using node_step.hub_turn [of ?s "(NewClient ''hub:8443'')\<lparr>ct_conn := Some ()\<rparr>" "()" demo_env False "[(demo_stop, ack)]" d' quiet_world]
    by simp
qed

lemma demo_course:
  obtains ack1 d1 ack2 d2 where
    "handleStartRental demo_env demo_start demo_daemon quiet_world = Returns (ack1, d1, quiet_world)"
    "ack_Status ack1 = ''ok''" "handleCommand demo_env demo_stop d1 quiet_world = Returns (ack2, d2, quiet_world)"
  using demo_start_handled demo_stop_handled by blast

theorem every_command_is_acknowledged_witness:
  "\<exists>node w1 ack c' d w'. main_startup demo_platform (default_flags demo_os) demo_world = Returns (Inr node, w1) \<and>
     Listen (ne_net (rn_env node)) (Some (handleCommand (rn_env node))) [\<lparr>lr_reads = [False], lr_stopped = False, lr_waits = []\<rparr>]
       ((NewClient ''hub:8443'')\<lparr>ct_conn := Some ()\<rparr>) (rn_daemon node) w1 = Returns (False, [(demo_stop, ack)], c', d, w') \<and>
     ack_Status ack = ''ok'' \<and> reads_back demo_stop ack"
proof -
  obtain node w1 where start: "main_startup demo_platform (default_flags demo_os) demo_world = Returns (Inr node, w1)"
    and d: "rn_daemon node = (build_daemon (rn_flags node) ''node-1'' None)
       \<lparr>nd_mtlsClient := Some ((NewClient (fl_hub (rn_flags node)))\<lparr>ct_conn := Some ()\<rparr>)\<rparr>"
    and env: "rn_env node = build_env demo_platform silent_cli cpu_provider () ()"
    using demo_node by blast
  let ?l = "Listen (ne_net (rn_env node)) (Some (handleCommand (rn_env node))) [\<lparr>lr_reads = [False], lr_stopped = False, lr_waits = []\<rparr>]
       ((NewClient ''hub:8443'')\<lparr>ct_conn := Some ()\<rparr>) (rn_daemon node) w1"
  obtain ack c' d' w' where run: "?l = Returns (False, [(demo_stop, ack)], c', d', w')" and ok: "ack_Status ack = ''ok''"
    by (simp add: env d build_env_def demo_platform_def text_net_def listenOnce_def call_OnCommand_def ext_run_def
        demo_stop_read handleCommand_def demo_payload handleStopRental_def build_daemon_def WithRentalExecutor_def
        executor_iface_def StopRental_def NewRentalExecutor_def Let_def)
  from every_command_is_acknowledged [OF start run] have "reads_back demo_stop ack" by simp
  with start run ok show ?thesis by blast
qed

theorem start_command_ack_is_true_witness:
  "\<exists>ack d' e' st. handleCommand demo_env demo_start demo_daemon quiet_world = Returns (ack, d', quiet_world) \<and>
     nd_rentalExecutor d' = Some e' \<and> active_rentals e' ''s1'' = Some st \<and>
     map_of (ack_Payload ack) ''ssh_port'' = Some (IFloat (of_int (rs_SSHPort st)))"
proof -
  obtain ack d' where run: "handleCommand demo_env demo_start demo_daemon quiet_world = Returns (ack, d', quiet_world)"
      and ok: "ack_Status ack = ''ok''"
    by (rule demo_course) (simp add: handleCommand_def demo_payload)
  have env: "ne_executor demo_env = executor_iface demo_docker PortManager_iface" by (simp add: demo_env_def)
  from start_command_ack_is_true [OF env _ demo_executor demo_payload(1) _ run] ok run show ?thesis
    by (auto simp: demo_payload)
qed

theorem stop_command_always_ok_witness:
  "\<exists>d ack d'. handleCommand demo_env demo_stop d quiet_world = Returns (ack, d', quiet_world) \<and> ack_Status ack = ''ok''"
proof -
  obtain d ack d' where run: "handleCommand demo_env demo_stop d quiet_world = Returns (ack, d', quiet_world)"
    and ex: "nd_rentalExecutor d \<noteq> None"
    using demo_start_handled demo_stop_handled by (metis option.discI)
  have env: "ne_executor demo_env = executor_iface demo_docker PortManager_iface" by (simp add: demo_env_def)
  from ex obtain e where "nd_rentalExecutor d = Some e" by blast
  from stop_command_always_ok [OF env _ this demo_payload(3) _ run] run show ?thesis by (auto simp: demo_payload)
qed

theorem rented_gpu_never_mines_again_witness:
  "\<exists>ack d1 ack' s md. handleStartRental demo_env demo_start demo_daemon quiet_world = Returns (ack, d1, quiet_world) \<and>
     handleCommand demo_env demo_stop d1 quiet_world = Returns (ack', ns_daemon s, quiet_world) \<and>
     nd_miningDaemon (ns_daemon s) = Some md \<and> ''GPU-1'' \<notin> set (getAvailableGPUs md)"
proof -
  obtain ack1 d1 ack2 d2 where start:
      "handleStartRental demo_env demo_start demo_daemon quiet_world = Returns (ack1, d1, quiet_world)"
    and stop: "handleCommand demo_env demo_stop d1 quiet_world = Returns (ack2, d2, quiet_world)"
    by (rule demo_course)
  let ?node = "\<lambda>d. \<lparr>ns_daemon = d, ns_world = quiet_world, ns_monitored = True, ns_phase = Serving\<rparr>"
  from handleStartRental_effect [OF start] have "node_step demo_env (?node d1) (?node d2)"
    by (intro demo_turn [OF stop]) (simp add: daemon_effect_def)
  then have run: "node_reaches demo_env False (?node d1) (?node d2)"
    by (rule node_reaches.step [OF node_reaches.start]) simp
  have "nd_miningDaemon demo_daemon \<noteq> None" by (simp add: demo_daemon_def WithMiningDaemon_def)
  from rented_gpu_never_mines_again [of demo_env demo_start demo_daemon quiet_world ack1 "?node d1",
      OF _ _ _ demo_payload(2) _ this run] start
  obtain md where "nd_miningDaemon (ns_daemon (?node d2)) = Some md" "''GPU-1'' \<notin> set (getAvailableGPUs md)"
    by (auto simp: demo_executor demo_payload)
  with start stop show ?thesis by (metis running_node.select_convs(1))
qed

text \<open>
  A node that rents out no GPU but has a rental, with its mining just stopped, gets the rental's stop
  command.
\<close>

theorem stop_command_restarts_mining_in_shutdown_witness:
  "\<exists>s1 s2 s3 md'. node_step demo_env \<lparr>ns_daemon = demo_daemon\<lparr>nd_rentalExecutor := Some (demo_running, [])\<rparr>,
       ns_world = quiet_world, ns_monitored = True, ns_phase = Mining_stopped\<rparr> s1 \<and>
     node_step demo_env s1 s2 \<and> node_step demo_env s2 s3 \<and> ns_ended s3 \<and>
     nd_miningDaemon (ns_daemon s3) = Some md' \<and> md_state md' = MiningStateRunning \<and> md_containerID md' = ''container-123''"
proof -
  let ?s = "\<lparr>ns_daemon = demo_daemon\<lparr>nd_rentalExecutor := Some (demo_running, [])\<rparr>,
       ns_world = quiet_world, ns_monitored = True, ns_phase = Mining_stopped\<rparr>"
  let ?ctx = "ctx_WithTimeout ctx_Background (30 * second) quiet_world"
  obtain e' where stop: "ei_StopRental (ne_executor demo_env) ?ctx ''s1'' (demo_running, []) quiet_world =
      (None, e', quiet_world)"
    by (simp add: demo_env_def executor_iface_def StopRental_def demo_docker_defs demo_running_def demo_request_def Let_def)
  have read: "ext_run (tn_Read (ne_net demo_env) () 4096) (ns_world ?s) = (Inr demo_stop_text, quiet_world)"
    by (simp add: demo_env_def text_net_simps)
  show ?thesis
    using stop_command_restarts_mining_in_shutdown [of ?s, OF _ _ _ _ _ read demo_stop_read _ demo_payload(3) _ _ stop,
        where cid = "''container-123''"]
    by (simp add: demo_payload) (simp add: demo_daemon_def WithMiningDaemon_def WithRentalExecutor_def NewNodeDaemon_def
        NewClient_def NewMiningDaemon_def DefaultMiningConfig_def getAvailableGPUs_def demo_env_def demo_docker_defs)
qed

theorem command_memory_exact_iff_witness:
  "sint (sr_MemoryBytes (command_request (\<lambda>_. 0) demo_start ''h'')) = 2048 * 1048576"
proof -
  have "payload_float (cmd_Payload demo_start) ''memory_mb'' = Some (of_int 2048)"
    by (simp add: payload_float_def demo_start_def demo_start_payload_def)
  from command_memory_exact_iff [OF ParseFloat_Itoa this] show ?thesis by simp
qed

end
